(* ===== verification/Prelude.thy ===== *)
theory Prelude
  imports Complex_Main "HOL-Library.AList" "HOL-Library.Multiset"
begin

text \<open>
  Shared ground of the development: Python exceptions as values, computations over an
  explicit world that may raise, the handful of Python string operations the services use,
  and the generic lemmas about them that every component needs.

  A Python call that may raise and may change the world is a function
  \<open>'s \<Rightarrow> 'a result \<times> 's\<close>: the world it leaves behind is returned on every branch, the
  raising ones included, because the effects of a call are not undone by its exception.
\<close>

named_theorems io_simps \<open>unfolding of the combinators of raising, world-passing calls\<close>

section \<open>Exceptions and computations\<close>

text \<open>
  The exception classes the source raises or tells apart in an \<open>except\<close> clause. The string
  is the text; texts are abbreviated to what identifies the raise, and where the source
  formats a value into the text the model keeps the part that code inspects.
\<close>

datatype exn =
    ValueError string
  | TypeError string
  | KeyError string
  | AttributeError string
  | OverflowError string
  | RuntimeError string
  | OSError string
  | ConnectionError string
  | TimeoutError string
  | FileNotFoundError string
  | JSONDecodeError string
  | ValidationError string
  | RecordError string
  | ClickHouseError string
  | ApiException int string
  | DockerNotFound string
  | KafkaError string string
  | CommitFailedError
  | IllegalStateError
  | HTTPException int string
  | OtherError string string

text \<open>\<open>type(exc).__name__\<close> and \<open>str(exc)\<close>.\<close>

fun exn_class :: "exn \<Rightarrow> string" where
  "exn_class (ValueError _) = ''ValueError''"
| "exn_class (TypeError _) = ''TypeError''"
| "exn_class (KeyError _) = ''KeyError''"
| "exn_class (AttributeError _) = ''AttributeError''"
| "exn_class (OverflowError _) = ''OverflowError''"
| "exn_class (RuntimeError _) = ''RuntimeError''"
| "exn_class (OSError _) = ''OSError''"
| "exn_class (ConnectionError _) = ''ConnectionError''"
| "exn_class (TimeoutError _) = ''TimeoutError''"
| "exn_class (FileNotFoundError _) = ''FileNotFoundError''"
| "exn_class (JSONDecodeError _) = ''JSONDecodeError''"
| "exn_class (ValidationError _) = ''ValidationError''"
| "exn_class (RecordError _) = ''RecordError''"
| "exn_class (ClickHouseError _) = ''ClickHouseError''"
| "exn_class (ApiException _ _) = ''ApiException''"
| "exn_class (DockerNotFound _) = ''NotFound''"
| "exn_class (KafkaError c _) = c"
| "exn_class CommitFailedError = ''CommitFailedError''"
| "exn_class IllegalStateError = ''IllegalStateError''"
| "exn_class (HTTPException _ _) = ''HTTPException''"
| "exn_class (OtherError c _) = c"

fun exn_str :: "exn \<Rightarrow> string" where
  "exn_str (ValueError m) = m"
| "exn_str (TypeError m) = m"
| "exn_str (KeyError m) = CHR 0x27 # m @ [CHR 0x27]"
| "exn_str (AttributeError m) = m"
| "exn_str (OverflowError m) = m"
| "exn_str (RuntimeError m) = m"
| "exn_str (OSError m) = m"
| "exn_str (ConnectionError m) = m"
| "exn_str (TimeoutError m) = m"
| "exn_str (FileNotFoundError m) = m"
| "exn_str (JSONDecodeError m) = m"
| "exn_str (ValidationError m) = m"
| "exn_str (RecordError m) = m"
| "exn_str (ClickHouseError m) = m"
| "exn_str (ApiException _ m) = m"
| "exn_str (DockerNotFound m) = m"
| "exn_str (KafkaError _ m) = m"
| "exn_str CommitFailedError = ''''"
| "exn_str IllegalStateError = ''''"
| "exn_str (HTTPException _ m) = m"
| "exn_str (OtherError _ m) = m"

text \<open>pydantic's \<open>ValidationError\<close> and \<open>json.JSONDecodeError\<close> are subclasses of \<open>ValueError\<close>.\<close>

fun is_value_error :: "exn \<Rightarrow> bool" where
  "is_value_error (ValueError _) = True"
| "is_value_error (ValidationError _) = True"
| "is_value_error (JSONDecodeError _) = True"
| "is_value_error _ = False"

type_synonym 'a result = "exn + 'a"
type_synonym ('s, 'a) io = "'s \<Rightarrow> 'a result \<times> 's"

definition ret_io :: "'a \<Rightarrow> ('s, 'a) io" where
  "ret_io a s = (Inr a, s)"

definition raise_io :: "exn \<Rightarrow> ('s, 'a) io" where
  "raise_io e s = (Inl e, s)"

definition bind_io :: "('s, 'a) io \<Rightarrow> ('a \<Rightarrow> ('s, 'b) io) \<Rightarrow> ('s, 'b) io" where
  "bind_io m k s = (case m s of (Inl e, s') \<Rightarrow> (Inl e, s') | (Inr a, s') \<Rightarrow> k a s')"

definition catch_io :: "('s, 'a) io \<Rightarrow> (exn \<Rightarrow> ('s, 'a) io) \<Rightarrow> ('s, 'a) io" where
  "catch_io m h s = (case m s of (Inl e, s') \<Rightarrow> h e s' | (Inr a, s') \<Rightarrow> (Inr a, s'))"

text \<open>\<open>try: m finally: f\<close>; an exception of the \<open>finally\<close> block replaces the one in flight.\<close>

definition finally_io :: "('s, 'a) io \<Rightarrow> ('s, unit) io \<Rightarrow> ('s, 'a) io" where
  "finally_io m f s =
     (case m s of (r, s') \<Rightarrow> (case f s' of (Inl e, s'') \<Rightarrow> (Inl e, s'') | (Inr _, s'') \<Rightarrow> (r, s'')))"

lemmas [io_simps] = ret_io_def raise_io_def bind_io_def catch_io_def finally_io_def

lemma bind_ret [simp]: "bind_io (ret_io a) k = k a"
  by (simp add: fun_eq_iff io_simps)

lemma bind_raise [simp]: "bind_io (raise_io e) k = raise_io e"
  by (simp add: fun_eq_iff io_simps)

lemma catch_ret [simp]: "catch_io (ret_io a) h = ret_io a"
  by (simp add: fun_eq_iff io_simps)

lemma catch_raise [simp]: "catch_io (raise_io e) h = h e"
  by (simp add: fun_eq_iff io_simps)

lemma bind_io_eq_Inr:
  "bind_io m k s = (Inr b, s') \<longleftrightarrow> (\<exists>a t. m s = (Inr a, t) \<and> k a t = (Inr b, s'))"
  by (auto simp: bind_io_def split: prod.splits sum.splits)

lemma bind_io_InrE:
  assumes "bind_io m k s = (Inr b, s')"
  obtains a t where "m s = (Inr a, t)" and "k a t = (Inr b, s')"
  using assms by (auto simp: bind_io_eq_Inr)

lemma finally_io_InrE:
  assumes "finally_io m f s = (Inr a, s')"
  obtains t u where "m s = (Inr a, t)" and "f t = (Inr u, s')"
  using assms by (auto simp: finally_io_def split: prod.splits sum.splits)

section \<open>Python strings\<close>

text \<open>
  A Python \<open>str\<close> is a \<open>string\<close>; the model's characters are the code points below 256.
  A character class of a regular expression is membership in an explicit list of characters.
\<close>

abbreviation newline :: char where "newline \<equiv> CHR 0x0A"

definition decimal_digits :: string where
  "decimal_digits = ''0123456789''"

definition ascii_letters :: string where
  "ascii_letters = ''ABCDEFGHIJKLMNOPQRSTUVWXYZabcdefghijklmnopqrstuvwxyz''"

text \<open>\<open>str(n)\<close> for a Python integer.\<close>

fun str_of_nat :: "nat \<Rightarrow> string" where
  "str_of_nat n =
     (if n < 10 then [decimal_digits ! n]
      else str_of_nat (n div 10) @ [decimal_digits ! (n mod 10)])"

declare str_of_nat.simps [simp del]

definition str_of_int :: "int \<Rightarrow> string" where
  "str_of_int i = (if i < 0 then ''-'' @ str_of_nat (nat (- i)) else str_of_nat (nat i))"

definition startswith :: "string \<Rightarrow> string \<Rightarrow> bool" where
  "startswith s p \<longleftrightarrow> take (length p) s = p"

definition endswith :: "string \<Rightarrow> string \<Rightarrow> bool" where
  "endswith s p \<longleftrightarrow> length p \<le> length s \<and> drop (length s - length p) s = p"

definition removeprefix :: "string \<Rightarrow> string \<Rightarrow> string" where
  "removeprefix s p = (if startswith s p then drop (length p) s else s)"

text \<open>\<open>s.replace(a, b)\<close> for single characters.\<close>

definition replace_char :: "char \<Rightarrow> char \<Rightarrow> string \<Rightarrow> string" where
  "replace_char a b s = map (\<lambda>c. if c = a then b else c) s"

text \<open>\<open>s.split(c, n)\<close> for a single character: at most \<open>n\<close> splits, from the left.\<close>

fun split_max :: "char \<Rightarrow> nat \<Rightarrow> string \<Rightarrow> string list" where
  "split_max c 0 s = [s]"
| "split_max c (Suc n) s =
     (if c \<in> set s
      then takeWhile (\<lambda>x. x \<noteq> c) s # split_max c n (tl (dropWhile (\<lambda>x. x \<noteq> c) s))
      else [s])"

text \<open>
  The anchor \<open>$\<close> of Python's \<open>re\<close> also matches just before a newline that ends the text:
  a pattern whose own characters exclude the newline accepts a text and the same text with
  one newline appended.
\<close>

definition dollar_stem :: "string \<Rightarrow> string" where
  "dollar_stem s = (if s \<noteq> [] \<and> last s = newline then butlast s else s)"

section \<open>Lemmas about strings\<close>

lemma str_of_nat_not_Nil [simp]: "str_of_nat n \<noteq> []"
  by (subst str_of_nat.simps) simp

lemma decimal_digit_inj:
  "i < 10 \<Longrightarrow> j < 10 \<Longrightarrow> decimal_digits ! i = decimal_digits ! j \<longleftrightarrow> i = j"
  by (subst nth_eq_iff_index_eq) (simp_all add: decimal_digits_def)

lemma set_str_of_nat: "set (str_of_nat n) \<subseteq> set decimal_digits"
proof (induction n rule: str_of_nat.induct)
  case (1 n)
  have digit: "decimal_digits ! (n mod 10) \<in> set decimal_digits"
    by (rule nth_mem) (simp add: decimal_digits_def)
  show ?case
  proof (cases "n < 10")
    case True
    with digit show ?thesis by (subst str_of_nat.simps) simp
  next
    case False
    with 1 digit show ?thesis by (subst str_of_nat.simps) auto
  qed
qed

lemma str_of_nat_inject: "str_of_nat m = str_of_nat n \<longleftrightarrow> m = n"
proof
  show "str_of_nat m = str_of_nat n \<Longrightarrow> m = n"
  proof (induction m arbitrary: n rule: str_of_nat.induct)
    case (1 m)
    show ?case
    proof (cases "m < 10"; cases "n < 10")
      assume "m < 10" "n < 10"
      with 1(2) show ?thesis
        by (simp add: str_of_nat.simps [of m] str_of_nat.simps [of n] decimal_digit_inj)
    next
      assume "m < 10" "\<not> n < 10"
      then have "str_of_nat m \<noteq> str_of_nat n"
        by (subst (1 2) str_of_nat.simps) (metis append1_eq_conv append_Nil str_of_nat_not_Nil)
      with 1(2) show ?thesis by simp
    next
      assume "\<not> m < 10" "n < 10"
      then have "str_of_nat m \<noteq> str_of_nat n"
        by (subst (1 2) str_of_nat.simps) (metis append1_eq_conv append_Nil str_of_nat_not_Nil)
      with 1(2) show ?thesis by simp
    next
      assume big: "\<not> m < 10" "\<not> n < 10"
      with 1(2) have "str_of_nat (m div 10) = str_of_nat (n div 10)"
        and "m mod 10 = n mod 10"
        by (simp_all add: str_of_nat.simps [of m] str_of_nat.simps [of n] decimal_digit_inj)
      with 1(1) big have "m div 10 = n div 10" and "m mod 10 = n mod 10" by blast+
      then show ?thesis by (metis div_mult_mod_eq)
    qed
  qed
qed simp

lemma startswith_append [simp]: "startswith (p @ s) p"
  by (simp add: startswith_def)

lemma startswith_iff: "startswith s p \<longleftrightarrow> (\<exists>t. s = p @ t)"
  by (metis append_take_drop_id startswith_append startswith_def)

lemma endswith_iff: "endswith s p \<longleftrightarrow> (\<exists>t. s = t @ p)"
proof
  show "endswith s p \<Longrightarrow> \<exists>t. s = t @ p"
    by (metis append_take_drop_id endswith_def)
qed (auto simp: endswith_def)

lemma removeprefix_append [simp]: "removeprefix (p @ s) p = s"
  by (simp add: removeprefix_def)

lemma split_max_append:
  assumes "c \<notin> set a"
  shows "split_max c (Suc n) (a @ c # s) = a # split_max c n s"
proof -
  have "takeWhile (\<lambda>x. x \<noteq> c) (a @ c # s) = a" "dropWhile (\<lambda>x. x \<noteq> c) (a @ c # s) = c # s"
    using assms by (induction a) auto
  then show ?thesis by simp
qed

lemma dollar_stem_id: "newline \<notin> set s \<Longrightarrow> dollar_stem s = s"
  by (auto simp: dollar_stem_def dest: last_in_set)

lemma dollar_stem_snoc [simp]: "dollar_stem (s @ [newline]) = s"
  by (simp add: dollar_stem_def)

lemma set_dollar_stem: "set (dollar_stem s) \<subseteq> set s"
  by (auto simp: dollar_stem_def dest: in_set_butlastD)

section \<open>Lemmas about lists and association lists\<close>

text \<open>Splitting at the last occurrence of a separator is unique.\<close>

lemma append_sep_inject:
  assumes "c \<notin> set a" and "c \<notin> set b" and "a @ c # x = b @ c # y"
  shows "a = b \<and> x = y"
  using assms
proof (induction a arbitrary: b)
  case Nil
  then show ?case by (cases b) auto
next
  case (Cons u a)
  then show ?case by (cases b) auto
qed

lemma map_fst_map_pair: "map fst (map (\<lambda>(k, v). (k, f k v)) xs) = map fst xs"
  by (induction xs) auto

end
