(* ===== verification/Py_Values.thy ===== *)
theory Py_Values
  imports Prelude
begin

text \<open>
  The Python values the services compute with. A parsed JSON document and a ClickHouse cell
  are both \<open>pyval\<close>; \<open>VTime\<close> is a timezone-aware UTC \<open>datetime\<close>, held as microseconds since
  1970. A \<open>float\<close> is IEEE double precision: a finite value is the rational it denotes, and the
  operations round to nearest, ties to even, on 53 bits.

  A dict is an association list in insertion order with distinct keys.
\<close>

section \<open>Double-precision floats\<close>

datatype pyfloat = Fin rat | PInf | NInf | NaN

text \<open>The bit length of an integer, \<open>n.bit_length()\<close> for a positive \<open>n\<close>.\<close>

function blen :: "int \<Rightarrow> nat" where
  "blen n = (if n \<le> 0 then 0 else Suc (blen (n div 2)))"
  by pat_completeness auto
termination by (relation "measure nat") auto

declare blen.simps [simp del]

definition pow2 :: "int \<Rightarrow> rat" where
  "pow2 e = (if 0 \<le> e then 2 ^ nat e else 1 / 2 ^ nat (- e))"

text \<open>\<open>\<lfloor>log 2 x\<rfloor>\<close> for a positive rational.\<close>

definition ilog2 :: "rat \<Rightarrow> int" where
  "ilog2 x = (if 1 \<le> x then int (blen \<lfloor>x\<rfloor>) - 1 else - int (blen (\<lceil>1 / x\<rceil> - 1)))"

text \<open>Round to the nearest integer, ties to the even one.\<close>

definition round_half_even :: "rat \<Rightarrow> int" where
  "round_half_even x =
     (let n = \<lfloor>x\<rfloor>; d = x - of_int n
      in if d < 1 / 2 then n else if 1 / 2 < d then n + 1 else if even n then n else n + 1)"

text \<open>
  The nearest double of a rational, with an unbounded exponent upwards: overflow is decided
  on the rounded value. Below \<open>2 ^ -1022\<close> the spacing stays at \<open>2 ^ -1074\<close>.
\<close>

definition fl :: "rat \<Rightarrow> rat" where
  "fl x =
     (if x = 0 then 0
      else let e = max (ilog2 \<bar>x\<bar> - 52) (- 1074)
           in of_int (round_half_even (x / pow2 e)) * pow2 e)"

definition overflows :: "rat \<Rightarrow> bool" where
  "overflows x \<longleftrightarrow> pow2 1024 \<le> \<bar>fl x\<bar>"

definition to_double :: "rat \<Rightarrow> pyfloat" where
  "to_double x = (if overflows x then (if 0 < x then PInf else NInf) else Fin (fl x))"

text \<open>\<open>float(n)\<close> of an integer raises when no finite double is near enough.\<close>

definition float_of_int :: "int \<Rightarrow> pyfloat result" where
  "float_of_int n =
     (if overflows (of_int n) then Inl (OverflowError ''int too large to convert to float'')
      else Inr (Fin (fl (of_int n))))"

text \<open>Division by a positive finite double.\<close>

fun float_div :: "pyfloat \<Rightarrow> rat \<Rightarrow> pyfloat" where
  "float_div (Fin x) c = to_double (x / c)"
| "float_div PInf c = PInf"
| "float_div NInf c = NInf"
| "float_div NaN c = NaN"

text \<open>Truncation towards zero.\<close>

definition trunc :: "rat \<Rightarrow> int" where
  "trunc x = (if 0 \<le> x then \<lfloor>x\<rfloor> else \<lceil>x\<rceil>)"

subsection \<open>\<open>float(s)\<close> of a string\<close>

definition py_space :: string where
  "py_space = [CHR 0x09, CHR 0x0A, CHR 0x0B, CHR 0x0C, CHR 0x0D, CHR 0x1C, CHR 0x1D, CHR 0x1E,
               CHR 0x1F, CHR 0x20, CHR 0x85, CHR 0xA0]"

definition strip :: "string \<Rightarrow> string" where
  "strip s = rev (dropWhile (\<lambda>c. c \<in> set py_space) (rev (dropWhile (\<lambda>c. c \<in> set py_space) s)))"

definition is_digit :: "char \<Rightarrow> bool" where
  "is_digit c \<longleftrightarrow> c \<in> set decimal_digits"

definition digit_value :: "char \<Rightarrow> nat" where
  "digit_value c = length (takeWhile (\<lambda>x. x \<noteq> c) decimal_digits)"

definition nat_of_digits :: "string \<Rightarrow> nat" where
  "nat_of_digits s = foldl (\<lambda>n c. 10 * n + digit_value c) 0 s"

definition lower_char :: "char \<Rightarrow> char" where
  "lower_char c =
     (case map_of (zip ''ABCDEFGHIJKLMNOPQRSTUVWXYZ'' ''abcdefghijklmnopqrstuvwxyz'') c of
        None \<Rightarrow> c | Some d \<Rightarrow> d)"

text \<open>An underscore stands between two digits.\<close>

fun underscores_ok :: "bool \<Rightarrow> string \<Rightarrow> bool" where
  "underscores_ok prev [] = True"
| "underscores_ok prev (c # cs) =
     (if c = CHR ''_'' then prev \<and> cs \<noteq> [] \<and> is_digit (hd cs) \<and> underscores_ok False cs
      else underscores_ok (is_digit c) cs)"

definition split_sign :: "string \<Rightarrow> bool \<times> string" where
  "split_sign s =
     (case s of [] \<Rightarrow> (False, [])
      | c # cs \<Rightarrow> if c = CHR ''-'' then (True, cs) else if c = CHR ''+'' then (False, cs)
                  else (False, s))"

text \<open>The exponent part: absent, or an \<open>e\<close>, a sign and digits up to the end.\<close>

definition parse_exponent :: "string \<Rightarrow> int option" where
  "parse_exponent s =
     (case s of [] \<Rightarrow> Some 0
      | c # cs \<Rightarrow>
          if lower_char c = CHR ''e''
          then (case split_sign cs of (neg, ds) \<Rightarrow>
                  if ds \<noteq> [] \<and> list_all is_digit ds
                  then Some ((if neg then - 1 else 1) * int (nat_of_digits ds)) else None)
          else None)"

definition parse_decimal :: "string \<Rightarrow> rat option" where
  "parse_decimal s =
     (let ip = takeWhile is_digit s; r1 = dropWhile is_digit s;
          dot = (r1 \<noteq> [] \<and> hd r1 = CHR ''.'');
          fp = (if dot then takeWhile is_digit (tl r1) else []);
          r2 = (if dot then dropWhile is_digit (tl r1) else r1)
      in if ip @ fp = [] then None
         else case parse_exponent r2 of None \<Rightarrow> None
              | Some e \<Rightarrow> let k = e - int (length fp); m = of_nat (nat_of_digits (ip @ fp))
                          in Some (if 0 \<le> k then m * 10 ^ nat k else m / 10 ^ nat (- k)))"

definition float_of_str :: "string \<Rightarrow> pyfloat result" where
  "float_of_str s0 =
     (let s1 = strip s0; s2 = filter (\<lambda>c. c \<noteq> CHR ''_'') s1 in
      case split_sign s2 of (neg, body) \<Rightarrow>
        let low = map lower_char body in
        if \<not> underscores_ok False s1 then Inl (ValueError ''could not convert string to float'')
        else if low = ''inf'' \<or> low = ''infinity'' then Inr (if neg then NInf else PInf)
        else if low = ''nan'' then Inr NaN
        else case parse_decimal body of
               None \<Rightarrow> Inl (ValueError ''could not convert string to float'')
             | Some x \<Rightarrow> Inr (to_double (if neg then - x else x)))"

section \<open>Values\<close>

datatype pyval =
    VNone
  | VBool bool
  | VInt int
  | VFloat pyfloat
  | VStr string
  | VTime int
  | VList "pyval list"
  | VDict "(string \<times> pyval) list"

text \<open>Truth value testing.\<close>

fun py_truthy :: "pyval \<Rightarrow> bool" where
  "py_truthy VNone = False"
| "py_truthy (VBool b) = b"
| "py_truthy (VInt n) = (n \<noteq> 0)"
| "py_truthy (VFloat f) = (f \<noteq> Fin 0)"
| "py_truthy (VStr s) = (s \<noteq> [])"
| "py_truthy (VTime _) = True"
| "py_truthy (VList xs) = (xs \<noteq> [])"
| "py_truthy (VDict d) = (d \<noteq> [])"

text \<open>
  \<open>str(v)\<close>. The text of a float, a datetime or a container is CPython's \<open>repr\<close>, which no
  branch of the services looks into: it is the argument \<open>rp\<close>.
\<close>

fun py_str :: "(pyval \<Rightarrow> string) \<Rightarrow> pyval \<Rightarrow> string" where
  "py_str rp VNone = ''None''"
| "py_str rp (VBool b) = (if b then ''True'' else ''False'')"
| "py_str rp (VInt n) = str_of_int n"
| "py_str rp (VStr s) = s"
| "py_str rp v = rp v"

text \<open>\<open>float(v)\<close>.\<close>

fun py_float :: "pyval \<Rightarrow> pyfloat result" where
  "py_float (VBool b) = Inr (Fin (if b then 1 else 0))"
| "py_float (VInt n) = float_of_int n"
| "py_float (VFloat f) = Inr f"
| "py_float (VStr s) = float_of_str s"
| "py_float v = Inl (TypeError ''float() argument must be a string or a real number'')"

section \<open>Dicts\<close>

definition dict_get :: "(string \<times> 'v) list \<Rightarrow> string \<Rightarrow> 'v option" where
  "dict_get d k = map_of d k"

text \<open>\<open>{**a, **b}\<close>: later entries replace the value and keep the place of the key.\<close>

definition dict_merge :: "(string \<times> 'v) list \<Rightarrow> (string \<times> 'v) list \<Rightarrow> (string \<times> 'v) list" where
  "dict_merge a b = fold (\<lambda>(k, v) d. AList.update k v d) b a"

lemma dict_get_merge:
  "distinct (map fst b) \<Longrightarrow>
     dict_get (dict_merge a b) k = (case dict_get b k of None \<Rightarrow> dict_get a k | Some v \<Rightarrow> Some v)"
  unfolding dict_merge_def dict_get_def
proof (induction b arbitrary: a)
  case (Cons p b)
  obtain k' v' where p: "p = (k', v')" by (cases p)
  with Cons.prems have "map_of b k' = None" by (simp add: map_of_eq_None_iff)
  with Cons p show ?case by (auto simp: update_conv' split: option.splits)
qed simp

section \<open>Lemmas about double rounding\<close>

lemma pow2_pos [simp]: "0 < pow2 e" "pow2 e \<noteq> 0" "0 \<le> pow2 e"
  by (auto simp: pow2_def)

lemma pow2_0 [simp]: "pow2 0 = 1"
  by (simp add: pow2_def)

lemma pow2_Suc: "pow2 (e + 1) = 2 * pow2 e"
proof (cases "0 \<le> e")
  case True
  then show ?thesis by (simp add: pow2_def nat_add_distrib)
next
  case False
  then have "nat (- e) = Suc (nat (- e - 1))" by simp
  with False show ?thesis by (simp add: pow2_def)
qed

lemma pow2_add_nat: "pow2 (e + int n) = pow2 e * 2 ^ n"
proof (induction n)
  case (Suc n)
  have "pow2 (e + int (Suc n)) = pow2 (e + int n + 1)" by (simp add: ac_simps)
  with Suc show ?case by (simp add: pow2_Suc)
qed simp

lemma pow2_add: "pow2 (a + b) = pow2 a * pow2 b"
proof (cases "0 \<le> b")
  case True
  then show ?thesis using pow2_add_nat [of a "nat b"] by (simp add: pow2_def)
next
  case False
  then have "pow2 a = pow2 (a + b) * 2 ^ nat (- b)"
    using pow2_add_nat [of "a + b" "nat (- b)"] by simp
  with False show ?thesis by (simp add: pow2_def)
qed

lemma pow2_mono: "a \<le> b \<Longrightarrow> pow2 a \<le> pow2 b"
proof -
  assume "a \<le> b"
  then have "pow2 b = pow2 a * 2 ^ nat (b - a)" using pow2_add_nat [of a "nat (b - a)"] by simp
  moreover have "pow2 a * 1 \<le> pow2 a * 2 ^ nat (b - a)" by (rule mult_left_mono) simp_all
  ultimately show ?thesis by simp
qed

lemma pow2_less_D: "pow2 a < pow2 b \<Longrightarrow> a < b"
  using pow2_mono [of b a] by (meson leI le_less_trans less_irrefl)

lemma pow2_minus: "pow2 (- e) = 1 / pow2 e"
  using pow2_add [of e "- e"] by (simp add: field_simps)

lemma blen_bounds: "0 < n \<Longrightarrow> 2 ^ (blen n - 1) \<le> n \<and> n < 2 ^ blen n"
proof (induction n rule: blen.induct)
  case (1 n)
  show ?case
  proof (cases "n div 2 = 0")
    case True
    with 1(2) have "n = 1" by simp
    then show ?thesis by (simp add: blen.simps)
  next
    case False
    with 1(2) have "0 < n div 2" by simp
    with 1 have IH: "2 ^ (blen (n div 2) - 1) \<le> n div 2" "n div 2 < 2 ^ blen (n div 2)"
      by simp_all
    from \<open>0 < n div 2\<close> have "blen (n div 2) = Suc (blen (n div 2) - 1)"
      by (subst (1 2) blen.simps) simp
    then have "2 ^ blen (n div 2) = 2 * (2 :: int) ^ (blen (n div 2) - 1)" by (metis power_Suc)
    with IH have "2 ^ blen (n div 2) \<le> 2 * (n div 2)" by linarith
    moreover have "n < 2 * 2 ^ blen (n div 2)" using IH(2) by linarith
    moreover have "blen n = Suc (blen (n div 2))" using 1(2) by (subst blen.simps) simp
    ultimately show ?thesis by auto
  qed
qed

lemma blen_pos: "0 < n \<Longrightarrow> 0 < blen n"
  by (subst blen.simps) simp

lemma pow2_blen: "0 < n \<Longrightarrow> pow2 (int (blen n) - 1) \<le> of_int n \<and> of_int n + 1 \<le> pow2 (int (blen n))"
proof -
  assume n: "0 < n"
  then have b: "2 ^ (blen n - 1) \<le> n" "n + 1 \<le> 2 ^ blen n" using blen_bounds [of n] by auto
  from b(1) have "(2::rat) ^ (blen n - 1) \<le> of_int n" by (metis of_int_le_iff of_int_numeral of_int_power)
  moreover from b(2) have "of_int (n + 1) \<le> (of_int (2 ^ blen n) :: rat)" by (simp only: of_int_le_iff)
  moreover have "nat (int (blen n) - 1) = blen n - 1" using blen_pos [OF n] by simp
  ultimately show ?thesis using blen_pos [OF n] by (simp add: pow2_def)
qed

lemma ilog2_bounds:
  assumes "0 < x"
  shows "pow2 (ilog2 x) \<le> x" and "x < pow2 (ilog2 x + 1)"
proof -
  have "pow2 (ilog2 x) \<le> x \<and> x < pow2 (ilog2 x + 1)"
  proof (cases "1 \<le> x")
    case True
    define n where "n = \<lfloor>x\<rfloor>"
    from True have "0 < n" "of_int n = (of_int \<lfloor>x\<rfloor> :: rat)" by (auto simp: n_def)
    moreover have "of_int \<lfloor>x\<rfloor> \<le> x" "x < of_int \<lfloor>x\<rfloor> + 1" by linarith+
    moreover have "ilog2 x = int (blen n) - 1" using True by (simp add: ilog2_def n_def)
    ultimately show ?thesis using pow2_blen [of n] by simp linarith
  next
    case False
    define n where "n = \<lceil>1 / x\<rceil> - 1"
    from False assms have "1 < 1 / x" by simp
    then have "2 \<le> \<lceil>1 / x\<rceil>" by linarith
    then have n: "0 < n" "of_int n = (of_int \<lceil>1 / x\<rceil> - 1 :: rat)" by (simp_all add: n_def)
    have "of_int \<lceil>1 / x\<rceil> - 1 < 1 / x" "1 / x \<le> of_int \<lceil>1 / x\<rceil>" by linarith+
    with pow2_blen [OF n(1)] n(2)
    have "pow2 (int (blen n) - 1) < 1 / x" "1 / x \<le> pow2 (int (blen n))" by linarith+
    then have "x < 1 / pow2 (int (blen n) - 1)" "1 / pow2 (int (blen n)) \<le> x"
      using assms by (simp_all add: field_simps)
    moreover have "pow2 (1 - int (blen n)) = 1 / pow2 (int (blen n) - 1)"
      using pow2_minus [of "int (blen n) - 1"] by simp
    ultimately show ?thesis using False by (simp add: ilog2_def n_def pow2_minus)
  qed
  then show "pow2 (ilog2 x) \<le> x" "x < pow2 (ilog2 x + 1)" by auto
qed

lemma round_half_even_err: "\<bar>of_int (round_half_even x) - x\<bar> \<le> 1 / 2"
proof -
  have "of_int \<lfloor>x\<rfloor> \<le> x" "x < of_int \<lfloor>x\<rfloor> + 1" by linarith+
  then show ?thesis unfolding round_half_even_def Let_def by (auto simp: abs_if) linarith
qed

lemma round_half_even_eq:
  assumes "\<bar>x - of_int n\<bar> < 1 / 2"
  shows "round_half_even x = n"
proof -
  have "\<bar>(of_int (round_half_even x) :: rat) - of_int n\<bar> < 1"
    using assms round_half_even_err [of x] by linarith
  then have "\<bar>round_half_even x - n\<bar> < 1" by (metis of_int_abs of_int_diff of_int_less_1_iff)
  then show ?thesis by simp
qed

lemma round_half_even_int [simp]: "round_half_even (of_int n) = n"
  by (rule round_half_even_eq) simp

lemma fl_0 [simp]: "fl 0 = 0"
  by (simp add: fl_def)

text \<open>The rounding error is at most half a unit in the last place.\<close>

lemma fl_err:
  assumes "\<bar>x\<bar> < pow2 k" and "- 1021 \<le> k"
  shows "\<bar>fl x - x\<bar> \<le> pow2 (k - 54)"
proof (cases "x = 0")
  case False
  define e where "e = max (ilog2 \<bar>x\<bar> - 52) (- 1074)"
  from False have "pow2 (ilog2 \<bar>x\<bar>) \<le> \<bar>x\<bar>" by (intro ilog2_bounds) simp
  with assms(1) have "ilog2 \<bar>x\<bar> < k" by (intro pow2_less_D) simp
  with assms(2) have "e \<le> k - 53" by (simp add: e_def)
  then have "pow2 e \<le> pow2 (k - 54 + 1)" using pow2_mono by simp
  then have half: "pow2 e / 2 \<le> pow2 (k - 54)" by (simp only: pow2_Suc)
  have "fl x - x = (of_int (round_half_even (x / pow2 e)) - x / pow2 e) * pow2 e"
    using False by (simp add: fl_def e_def Let_def field_simps)
  then have "\<bar>fl x - x\<bar> = \<bar>of_int (round_half_even (x / pow2 e)) - x / pow2 e\<bar> * pow2 e"
    by (simp add: abs_mult)
  also have "\<dots> \<le> 1 / 2 * pow2 e"
    by (rule mult_right_mono [OF round_half_even_err]) simp
  finally show ?thesis using half by simp
qed simp

text \<open>Integers of at most 53 bits are doubles.\<close>

lemma fl_of_int:
  assumes "\<bar>n\<bar> < 2 ^ 53"
  shows "fl (of_int n) = of_int n"
proof (cases "n = 0")
  case False
  define e where "e = ilog2 \<bar>of_int n\<bar> - 52"
  have lo: "pow2 (ilog2 \<bar>of_int n\<bar>) \<le> \<bar>of_int n\<bar>" and hi: "\<bar>of_int n\<bar> < pow2 (ilog2 \<bar>of_int n\<bar> + 1)"
    using False by (simp_all add: ilog2_bounds)
  have "\<bar>of_int n :: rat\<bar> < 2 ^ 53" using assms by (metis of_int_abs of_int_less_iff of_int_numeral of_int_power)
  then have "pow2 (ilog2 \<bar>of_int n\<bar>) < pow2 53" using lo by (simp add: pow2_def)
  then have up: "e \<le> 0" using pow2_less_D by (fastforce simp: e_def)
  have "1 \<le> \<bar>n\<bar>" using False by linarith
  then have "(1 :: rat) \<le> \<bar>of_int n\<bar>" by (metis of_int_1_le_iff of_int_abs)
  with hi have "pow2 0 < pow2 (ilog2 \<bar>of_int n\<bar> + 1)" by simp
  then have dn: "- 52 \<le> e" using pow2_less_D by (fastforce simp: e_def)
  have "of_int n / pow2 e = of_int (n * 2 ^ nat (- e))"
    using up by (cases "e = 0") (simp_all add: pow2_def)
  then have "of_int (round_half_even (of_int n / pow2 e)) = of_int n / pow2 e"
    by (simp only: round_half_even_int)
  then show ?thesis using False dn by (simp add: fl_def e_def [symmetric] Let_def)
qed simp

text \<open>From \<open>2 ^ 1024\<close> on no finite double is near enough.\<close>

lemma round_half_even_ge: "of_int n \<le> x \<Longrightarrow> n \<le> round_half_even x"
proof -
  assume "of_int n \<le> x"
  then have "n \<le> \<lfloor>x\<rfloor>" by (simp add: le_floor_iff)
  then show "n \<le> round_half_even x" by (auto simp: round_half_even_def Let_def)
qed

lemma overflows_large:
  assumes "pow2 1024 \<le> x"
  shows "overflows x"
proof -
  have x: "0 < x" using assms pow2_pos(1) [of 1024] by linarith
  define k where "k = ilog2 x"
  have k: "pow2 k \<le> x" "x < pow2 (k + 1)" using ilog2_bounds [OF x] by (simp_all add: k_def)
  then have "1024 < k + 1" using assms by (intro pow2_less_D) linarith
  then have e: "max (ilog2 \<bar>x\<bar> - 52) (- 1074) = k - 52" using x by (simp add: k_def)
  have p: "pow2 k = 2 ^ 52 * pow2 (k - 52)" using pow2_add_nat [of "k - 52" 52] by simp
  with k(1) have "of_int (2 ^ 52) \<le> x / pow2 (k - 52)" by (simp add: field_simps)
  then have "2 ^ 52 \<le> round_half_even (x / pow2 (k - 52))" by (rule round_half_even_ge)
  then have "of_int (2 ^ 52) \<le> (of_int (round_half_even (x / pow2 (k - 52))) :: rat)" by (simp only: of_int_le_iff)
  then have "of_int (2 ^ 52) * pow2 (k - 52) \<le> of_int (round_half_even (x / pow2 (k - 52))) * pow2 (k - 52)"
    by (intro mult_right_mono) simp_all
  then have "pow2 k \<le> fl x" using x e p by (simp add: fl_def Let_def)
  moreover have "pow2 1024 \<le> pow2 k" using \<open>1024 < k + 1\<close> by (intro pow2_mono) simp
  ultimately show ?thesis by (simp add: overflows_def)
qed
end
