(* ===== verification/Ch_Naming.thy ===== *)
theory Ch_Naming
  imports Py_Values
begin

text \<open>
  \<^verbatim>\<open>common/app_common/ch_naming.py\<close>: the ClickHouse table name of a pipeline,
  \<open>user_<user_id>_collection_<n>_<table_name>\<close>, with every check and early raise. The lemmas
  give the exact set of accepted inputs, the characters an accepted name can hold, and the
  inputs on which the composition is injective.
\<close>

section \<open>The identifier function\<close>

definition identifier_start :: string where
  "identifier_start = CHR ''_'' # ascii_letters"

definition identifier_chars :: string where
  "identifier_chars = identifier_start @ decimal_digits"

text \<open>\<open>re.compile(r"^[A-Za-z_][A-Za-z0-9_]*$").match(s)\<close>, with Python's \<open>$\<close>.\<close>

definition identifier_part :: "string \<Rightarrow> bool" where
  "identifier_part s \<longleftrightarrow>
     (case dollar_stem s of [] \<Rightarrow> False
      | c # cs \<Rightarrow> c \<in> set identifier_start \<and> (\<forall>x \<in> set cs. x \<in> set identifier_chars))"

definition MAX_IDENTIFIER_LENGTH :: nat where
  "MAX_IDENTIFIER_LENGTH = 128"

definition ch_unique_identifier ::
  "(pyval \<Rightarrow> string) \<Rightarrow> pyval \<Rightarrow> pyval \<Rightarrow> string option \<Rightarrow> string result" where
  "ch_unique_identifier rp user_id collection_number table_name =
     (let user_part = py_str rp user_id in
      if user_part = [] \<or> \<not> identifier_part (replace_char CHR ''-'' CHR ''_'' (''u'' @ user_part))
      then Inl (ValueError ''user_id cannot appear in a ClickHouse identifier'')
      else case collection_number of
        VInt n \<Rightarrow>
          if n < 1 then Inl (ValueError ''collection_number must be positive'')
          else let table = (case table_name of None \<Rightarrow> [] | Some t \<Rightarrow> t) in
            if \<not> identifier_part table
            then Inl (ValueError ''table_name is not a valid ClickHouse identifier'')
            else let identifier = ''user_'' @ user_part @ ''_collection_'' @ str_of_int n @ ''_'' @ table in
              if MAX_IDENTIFIER_LENGTH < length identifier
              then Inl (ValueError ''composed table name is over the limit'')
              else Inr identifier
      | _ \<Rightarrow> Inl (ValueError ''collection_number must be an integer''))"

text \<open>The composition alone, for the callers that hold a string and an integer.\<close>

definition compose_identifier :: "string \<Rightarrow> int \<Rightarrow> string \<Rightarrow> string" where
  "compose_identifier u n t = ''user_'' @ u @ ''_collection_'' @ str_of_int n @ ''_'' @ t"

section \<open>Which inputs are accepted\<close>

definition user_id_ok :: "string \<Rightarrow> bool" where
  "user_id_ok u \<longleftrightarrow> u \<noteq> [] \<and> identifier_part (replace_char CHR ''-'' CHR ''_'' (''u'' @ u))"

lemma ch_unique_identifier_Inr_iff:
  "ch_unique_identifier rp (VStr u) (VInt n) (Some t) = Inr s \<longleftrightarrow>
     user_id_ok u \<and> 1 \<le> n \<and> identifier_part t \<and> s = compose_identifier u n t \<and>
     length s \<le> MAX_IDENTIFIER_LENGTH"
  by (auto simp: ch_unique_identifier_def user_id_ok_def compose_identifier_def Let_def not_less)

lemma ch_unique_identifier_Inl:
  "ch_unique_identifier rp u n t = Inl e \<Longrightarrow> \<exists>m. e = ValueError m"
  by (auto simp: ch_unique_identifier_def Let_def split: if_splits pyval.splits)

lemma identifier_part_chars:
  assumes "identifier_part s" and "c \<in> set s"
  shows "c \<in> set identifier_chars \<or> c = newline"
proof -
  have "set s \<subseteq> insert newline (set (dollar_stem s))"
  proof (cases "s \<noteq> [] \<and> last s = newline")
    case True
    then have "s = butlast s @ [newline]" by (metis append_butlast_last_id)
    then show ?thesis by (metis dollar_stem_snoc list.set(1) list.simps(15) order_refl
          set_append sup_commute insert_is_Un)
  qed (auto simp: dollar_stem_def)
  with assms show ?thesis
    by (auto simp: identifier_part_def identifier_chars_def split: list.splits)
qed

lemma identifier_chars_no_quote:
  "set identifier_chars \<inter> {CHR 0x60, CHR 0x27, CHR 0x22, CHR '' '', CHR '';'', CHR ''.'', CHR ''('', CHR '')''} = {}"
  by (simp add: identifier_chars_def identifier_start_def ascii_letters_def decimal_digits_def)

lemma user_id_chars:
  assumes "user_id_ok u" and "c \<in> set u"
  shows "c \<in> set identifier_chars \<or> c = CHR ''-'' \<or> c = newline"
proof -
  have "(if c = CHR ''-'' then CHR ''_'' else c) \<in> set (replace_char CHR ''-'' CHR ''_'' (''u'' @ u))"
    using assms(2) by (auto simp: replace_char_def)
  with assms(1) have "(if c = CHR ''-'' then CHR ''_'' else c) \<in> set identifier_chars \<or>
      (if c = CHR ''-'' then CHR ''_'' else c) = newline"
    unfolding user_id_ok_def using identifier_part_chars by blast
  then show ?thesis by (auto split: if_splits)
qed

lemma set_str_of_int_pos: "0 \<le> n \<Longrightarrow> set (str_of_int n) \<subseteq> set decimal_digits"
  using set_str_of_nat by (simp add: str_of_int_def)

lemma str_of_int_pos_inject: "0 \<le> m \<Longrightarrow> 0 \<le> n \<Longrightarrow> str_of_int m = str_of_int n \<longleftrightarrow> m = n"
  by (simp add: str_of_int_def str_of_nat_inject eq_nat_nat_iff)

lemma no_underscore_in_digits: "CHR ''_'' \<notin> set decimal_digits"
  by (simp add: decimal_digits_def)

lemma compose_identifier_inject:
  assumes "CHR ''_'' \<notin> set u" and "CHR ''_'' \<notin> set u'" and "1 \<le> n" and "1 \<le> n'"
    and eq: "compose_identifier u n t = compose_identifier u' n' t'"
  shows "u = u' \<and> n = n' \<and> t = t'"
proof -
  from eq have "u @ CHR ''_'' # (''collection_'' @ str_of_int n @ ''_'' @ t)
      = u' @ CHR ''_'' # (''collection_'' @ str_of_int n' @ ''_'' @ t')"
    by (simp add: compose_identifier_def)
  from append_sep_inject [OF assms(1,2) this]
  have u: "u = u'" and "str_of_int n @ CHR ''_'' # t = str_of_int n' @ CHR ''_'' # t'"
    by simp_all
  moreover have "CHR ''_'' \<notin> set (str_of_int n)" "CHR ''_'' \<notin> set (str_of_int n')"
    using assms(3,4) set_str_of_int_pos [of n] set_str_of_int_pos [of n'] no_underscore_in_digits
    by auto
  ultimately have "str_of_int n = str_of_int n' \<and> t = t'"
    by (intro append_sep_inject)
  with u show ?thesis using str_of_int_pos_inject [of n n'] assms(3,4) by simp
qed

section \<open>Properties\<close>

text \<open>
  The exact behaviour on a user id, a number and a table name: a name composed of the
  three is returned when each part is an identifier part, the number is positive and the name
  has at most 128 characters; otherwise \<open>ValueError\<close> is raised.
\<close>

lemma ch_unique_identifier_spec:
  "case ch_unique_identifier rp (VStr u) (VInt n) (Some t) of
     Inr s \<Rightarrow> s = compose_identifier u n t \<and> user_id_ok u \<and> 1 \<le> n \<and> identifier_part t \<and>
              length s \<le> MAX_IDENTIFIER_LENGTH
   | Inl e \<Rightarrow> (\<exists>m. e = ValueError m) \<and>
              \<not> (user_id_ok u \<and> 1 \<le> n \<and> identifier_part t \<and>
                 length (compose_identifier u n t) \<le> MAX_IDENTIFIER_LENGTH)"
  using ch_unique_identifier_Inl [of rp "VStr u" "VInt n" "Some t"]
  by (auto simp: ch_unique_identifier_Inr_iff split: sum.splits)
    (metis ch_unique_identifier_Inr_iff sum.distinct(1))

text \<open>
  A name the function returns holds letters, digits, underscores, hyphens and newlines
  only, so no quote, backquote, blank, dot or parenthesis: the DDL that encloses it in
  backquotes cannot be left.
\<close>

lemma ch_unique_identifier_chars:
  assumes "ch_unique_identifier rp (VStr u) (VInt n) (Some t) = Inr s" and "c \<in> set s"
  shows "(c \<in> set identifier_chars \<or> c = CHR ''-'' \<or> c = newline) \<and>
    c \<notin> {CHR 0x60, CHR 0x27, CHR 0x22, CHR '' '', CHR '';'', CHR ''.'', CHR ''('', CHR '')''}"
proof -
  from assms(1) have ok: "user_id_ok u" "1 \<le> n" "identifier_part t" and s: "s = compose_identifier u n t"
    by (simp_all add: ch_unique_identifier_Inr_iff)
  have lit: "set ''user_'' \<subseteq> set identifier_chars" "set ''_collection_'' \<subseteq> set identifier_chars"
    "set ''_'' \<subseteq> set identifier_chars" by code_simp+
  have dig: "set decimal_digits \<subseteq> set identifier_chars" by (auto simp: identifier_chars_def)
  from assms(2) have "c \<in> set (''user_'' @ u @ ''_collection_'' @ str_of_int n @ ''_'' @ t)"
    by (simp only: s compose_identifier_def)
  then consider "c \<in> set identifier_chars" | "c \<in> set u" | "c \<in> set (str_of_int n)" | "c \<in> set t"
    unfolding set_append Un_iff using lit by (meson subsetD)
  then have "c \<in> set identifier_chars \<or> c = CHR ''-'' \<or> c = newline"
  proof cases
    case 1 then show ?thesis by blast
  next
    case 2 with user_id_chars [OF ok(1)] show ?thesis by blast
  next
    case 3 with set_str_of_int_pos [of n] ok(2) dig show ?thesis by (meson order_trans zero_le_one subsetD)
  next
    case 4 with identifier_part_chars [OF ok(3)] show ?thesis by blast
  qed
  then show ?thesis using identifier_chars_no_quote by auto
qed

text \<open>
  C37: two pipelines whose user ids hold no underscore share a table only when user, number and
  table name agree.
\<close>

theorem ch_unique_identifier_injective:
  assumes "ch_unique_identifier rp (VStr u) (VInt n) (Some t) = Inr s"
    and "ch_unique_identifier rp (VStr u') (VInt n') (Some t') = Inr s"
    and "CHR ''_'' \<notin> set u" and "CHR ''_'' \<notin> set u'"
  shows "u = u' \<and> n = n' \<and> t = t'"
  using assms by (intro compose_identifier_inject) (simp_all add: ch_unique_identifier_Inr_iff)

lemma ch_unique_identifier_injective_witness:
  "ch_unique_identifier (\<lambda>_. []) (VStr ''7'') (VInt 2) (Some ''events'') \<noteq>
   ch_unique_identifier (\<lambda>_. []) (VStr ''7'') (VInt 3) (Some ''events'')"
proof
  assume eq: "ch_unique_identifier (\<lambda>_. []) (VStr ''7'') (VInt 2) (Some ''events'') =
    ch_unique_identifier (\<lambda>_. []) (VStr ''7'') (VInt 3) (Some ''events'')"
  have l: "ch_unique_identifier (\<lambda>_. []) (VStr ''7'') (VInt 2) (Some ''events'') = Inr ''user_7_collection_2_events''"
    by code_simp
  from ch_unique_identifier_injective [OF l eq [symmetric, unfolded l]] show False by simp
qed

text \<open>
  The hypothesis on underscores is needed: users \<open>1\<close> and \<open>1_collection_2\<close> are both
  accepted and reach the same table.
\<close>

lemma ch_unique_identifier_collision:
  "ch_unique_identifier rp (VStr ''1'') (VInt 2) (Some ''collection_3_x'') = Inr ''user_1_collection_2_collection_3_x'' \<and>
   ch_unique_identifier rp (VStr ''1_collection_2'') (VInt 3) (Some ''x'') = Inr ''user_1_collection_2_collection_3_x''"
  by (simp add: ch_unique_identifier_Inr_iff) code_simp

text \<open>
  Python's \<open>$\<close> also matches before a final newline, so a table name, or a user id, that
  ends in a newline passes the check the documentation describes as \<open>[A-Za-z0-9_]\<close>.
\<close>

lemma ch_unique_identifier_newline:
  "ch_unique_identifier rp (VStr ''7'') (VInt 2) (Some (''events'' @ [newline])) =
     Inr (''user_7_collection_2_events'' @ [newline])"
  by (simp add: ch_unique_identifier_Inr_iff) code_simp

end
