(* ===== verification/Models.thy ===== *)
theory Models
  imports Ch_Naming
begin

text \<open>
  \<^verbatim>\<open>common/app_common/models.py\<close>, \<^verbatim>\<open>ch_schema.py\<close> and the option model of
  \<^verbatim>\<open>sources.py\<close>: the enumerations, the pydantic models as records with their declared
  defaults and validators, and the DDL texts built from a configuration.

  pydantic itself is not modelled: a record value is an instance that has passed the
  field types, and the checks the source adds (\<open>table_name\<close>, the field constraints) are
  functions.
\<close>

section \<open>Enumerations\<close>

datatype pipeline_type = NORMAL | LIVE

datatype pipeline_status = CREATED | STARTING | RUNNING | STOPPING | STOPPED | FAILED

datatype desired_state = DESIRED_RUNNING | DESIRED_STOPPED

datatype source_type = OPCUA

datatype event_type = EV_START | EV_STOP | EV_STATUS

fun pipeline_type_value :: "pipeline_type \<Rightarrow> string" where
  "pipeline_type_value NORMAL = ''normal''"
| "pipeline_type_value LIVE = ''live''"

fun source_type_value :: "source_type \<Rightarrow> string" where
  "source_type_value OPCUA = ''opcua''"

section \<open>Models\<close>

definition DEFAULT_TABLE_SCHEMA :: "(string \<times> string) list" where
  "DEFAULT_TABLE_SCHEMA =
    [(''event_time'', ''DateTime64(3)''),
     (''pipeline_id'', ''LowCardinality(String)''),
     (''source'', ''LowCardinality(String)''),
     (''sensor'', ''LowCardinality(String)''),
     (''quality'', ''LowCardinality(String)''),
     (''node_id'', ''String''),
     (''sequence'', ''Int64''),
     (''value'', ''Nullable(Float64)''),
     (''value_text'', ''Nullable(String)''),
     (''ingested_at'', ''DateTime64(3)'')]"

record opcua_options =
  staleness_threshold_s :: "pyfloat option"
  endpoint :: string
  node_ids :: "string list"
  node_names :: "(string \<times> string) list"
  publishing_interval_ms :: int
  connect_timeout_s :: "pyfloat option"

text \<open>The constraints declared on the fields of \<open>OpcUaOptions\<close>.\<close>

definition opcua_options_ok :: "opcua_options \<Rightarrow> bool" where
  "opcua_options_ok opts \<longleftrightarrow>
     1 \<le> length (endpoint opts) \<and> 1 \<le> length (node_ids opts) \<and> 1 \<le> publishing_interval_ms opts"

record pipeline_config =
  pipeline_id :: string
  pipeline_type :: pipeline_type
  airflow_dag_id :: "string option"
  user_id :: string
  collection_number :: int
  table_name :: string
  table_schema :: "(string \<times> string) list"
  source_type :: source_type
  topic :: string
  batch_size :: int
  flush_interval_seconds :: int
  source_options :: opcua_options
  created_at :: string
  config_updated_at :: string

record pipeline_state =
  st_pipeline_id :: string
  st_pipeline_type :: pipeline_type
  desired_state :: desired_state
  status :: pipeline_status
  st_topic :: string
  producer_container :: "string option"
  consumer_container :: "string option"
  last_heartbeat_at :: "string option"
  last_error :: "string option"
  updated_at :: string

record pipeline_state_event =
  ev_pipeline_id :: string
  ev_event_type :: event_type
  ev_desired_state :: desired_state
  ev_status :: pipeline_status
  ev_timestamp :: string

record pipeline_create_request =
  req_pipeline_id :: string
  req_pipeline_type :: pipeline_type
  req_airflow_dag_id :: "string option"
  req_user_id :: "string option"
  req_collection_number :: "int option"
  req_table_name :: "string option"
  req_table_schema :: "(string \<times> string) list"
  req_source_type :: source_type
  req_topic :: "string option"
  req_batch_size :: int
  req_flush_interval_seconds :: int
  req_source_options :: opcua_options

text \<open>
  The property \<open>PipelineConfig.ch_unique_identifier\<close>. Both arguments are already a string and
  an integer, so the \<open>repr\<close> argument of the naming function is never consulted.
\<close>

definition config_ch_unique_identifier :: "pipeline_config \<Rightarrow> string result" where
  "config_ch_unique_identifier c =
     ch_unique_identifier (\<lambda>_. []) (VStr (user_id c)) (VInt (collection_number c)) (Some (table_name c))"

text \<open>The constructor: the validator of \<open>table_name\<close>, whose \<open>ValueError\<close> pydantic wraps.\<close>

definition make_pipeline_config :: "pipeline_config \<Rightarrow> pipeline_config result" where
  "make_pipeline_config c =
     (case ch_unique_identifier (\<lambda>_. []) (VStr ''0'') (VInt 1) (Some (table_name c)) of
        Inl e \<Rightarrow> Inl (ValidationError (exn_str e))
      | Inr _ \<Rightarrow> Inr c)"

text \<open>
  \<open>_tag_source_options\<close>: the raw data before validation. \<open>dflt\<close> is the default of the
  model's \<open>source_type\<close> field.
\<close>

definition tag_source_options :: "string \<Rightarrow> pyval \<Rightarrow> pyval" where
  "tag_source_options dflt data =
     (case data of
        VDict d \<Rightarrow>
          (case dict_get d ''source_options'' of
             Some (VDict options) \<Rightarrow>
               if dict_get options ''source_type'' \<noteq> None then data
               else let st = (case dict_get d ''source_type'' of
                                Some v \<Rightarrow> if py_truthy v then v else VStr dflt
                              | None \<Rightarrow> VStr dflt)
                    in if \<not> py_truthy st then data
                       else VDict (AList.update ''source_options''
                              (VDict (AList.update ''source_type'' (VStr (py_str (\<lambda>_. []) st)) options)) d)
           | _ \<Rightarrow> data)
      | _ \<Rightarrow> data)"

section \<open>DDL\<close>

definition DLQ_TABLE :: string where
  "DLQ_TABLE = ''dead_letter_events''"

fun str_join :: "string \<Rightarrow> string list \<Rightarrow> string" where
  "str_join sep [] = []"
| "str_join sep [s] = s"
| "str_join sep (s # t # ss) = s @ sep @ str_join sep (t # ss)"

abbreviation backquote :: string where "backquote \<equiv> [CHR 0x60]"

definition create_database_ddl :: "string \<Rightarrow> string" where
  "create_database_ddl database = ''CREATE DATABASE IF NOT EXISTS '' @ database"

definition create_table_ddl :: "string \<Rightarrow> pipeline_config \<Rightarrow> string result" where
  "create_table_ddl database c =
     (let columns = str_join '', ''
            (map (\<lambda>(name, ch_type). backquote @ name @ backquote @ '' '' @ ch_type) (table_schema c));
          order_by = (if dict_get (table_schema c) ''event_time'' \<noteq> None then ''event_time'' else ''tuple()'')
      in case config_ch_unique_identifier c of
           Inl e \<Rightarrow> Inl e
         | Inr table \<Rightarrow>
             Inr (''CREATE TABLE IF NOT EXISTS '' @ database @ ''.'' @ backquote @ table @ backquote
                  @ '' ('' @ columns @ '') ENGINE = MergeTree ORDER BY '' @ order_by))"

definition create_dlq_table_ddl :: "string \<Rightarrow> string" where
  "create_dlq_table_ddl database =
     [newline] @ ''CREATE TABLE IF NOT EXISTS '' @ database @ ''.'' @ DLQ_TABLE @ '' ('' @ [newline]
     @ ''    failed_at     DateTime64(3) DEFAULT now64(3),'' @ [newline]
     @ ''    pipeline_id   LowCardinality(String),'' @ [newline]
     @ ''    topic         LowCardinality(String),'' @ [newline]
     @ ''    partition     Int32,'' @ [newline]
     @ ''    offset        Int64,'' @ [newline]
     @ ''    target_table  String,'' @ [newline]
     @ ''    error_message String,'' @ [newline]
     @ ''    payload       String'' @ [newline]
     @ '') ENGINE = MergeTree'' @ [newline]
     @ ''PARTITION BY toYYYYMM(failed_at)'' @ [newline]
     @ ''ORDER BY (pipeline_id, failed_at)'' @ [newline]
     @ ''-- The DLQ is a diagnosis and replay surface, not an archive, and `payload` can'' @ [newline]
     @ ''-- be 64KB per row. Replay happens within days of a failure, not months.'' @ [newline]
     @ ''TTL toDateTime(failed_at) + INTERVAL 30 DAY'' @ [newline]"

section \<open>Lemmas\<close>

lemma config_ch_unique_identifier_Inr_iff:
  "config_ch_unique_identifier c = Inr s \<longleftrightarrow>
     user_id_ok (user_id c) \<and> 1 \<le> collection_number c \<and> identifier_part (table_name c) \<and>
     s = compose_identifier (user_id c) (collection_number c) (table_name c) \<and>
     length s \<le> MAX_IDENTIFIER_LENGTH"
  by (simp add: config_ch_unique_identifier_def ch_unique_identifier_Inr_iff)

lemma config_ch_unique_identifier_Inl:
  "config_ch_unique_identifier c = Inl e \<Longrightarrow> \<exists>m. e = ValueError m"
  unfolding config_ch_unique_identifier_def by (rule ch_unique_identifier_Inl)

lemma make_pipeline_config_Inr:
  "make_pipeline_config c = Inr c' \<Longrightarrow> c' = c \<and> identifier_part (table_name c)"
  by (cases "ch_unique_identifier (\<lambda>_. []) (VStr ''0'') (VInt 1) (Some (table_name c))")
    (auto simp: make_pipeline_config_def ch_unique_identifier_Inr_iff)

lemma make_pipeline_config_Inl:
  "make_pipeline_config c = Inl e \<Longrightarrow> \<exists>m. e = ValidationError m"
  by (auto simp: make_pipeline_config_def split: sum.splits)

text \<open>
  A configuration that survives its JSON form: it passes the validators, and its floats are
  finite, since pydantic writes the others as \<open>null\<close>.
\<close>

fun finite_option :: "pyfloat option \<Rightarrow> bool" where
  "finite_option None = True"
| "finite_option (Some (Fin x)) = True"
| "finite_option (Some _) = False"

definition storable :: "pipeline_config \<Rightarrow> bool" where
  "storable c \<longleftrightarrow> make_pipeline_config c = Inr c \<and>
     finite_option (staleness_threshold_s (source_options c)) \<and>
     finite_option (connect_timeout_s (source_options c))"

section \<open>A sample pipeline\<close>

definition sample_config :: pipeline_config where
  "sample_config = \<lparr>pipeline_id = ''p1'', pipeline_type = LIVE, airflow_dag_id = None, user_id = ''7'',
     collection_number = 2, table_name = ''t'',
     table_schema = [(''event_time'', ''DateTime64(3)''), (''value'', ''Nullable(Float64)'')],
     source_type = OPCUA, topic = ''telemetry.p1'', batch_size = 500, flush_interval_seconds = 10,
     source_options = \<lparr>staleness_threshold_s = None, endpoint = ''opc.tcp://s'',
        node_ids = [''ns=2;s=T''], node_names = [], publishing_interval_ms = 1000, connect_timeout_s = None\<rparr>, created_at = '''', config_updated_at = ''''\<rparr>"

lemma sample_identifier: "config_ch_unique_identifier sample_config = Inr ''user_7_collection_2_t''"
  by code_simp

lemma sample_schema:
  "table_schema sample_config = [(''event_time'', ''DateTime64(3)''), (''value'', ''Nullable(Float64)'')]"
  by (simp add: sample_config_def)

lemma sample_storable: "storable sample_config"
  by code_simp

end
