(* ===== verification/Redis_Store.thy ===== *)
theory Redis_Store
  imports Models "HOL-Library.List_Lexorder" "HOL-Library.Char_ord"
begin

text \<open>
  The Redis keys of \<^verbatim>\<open>common/app_common/redis_keys.py\<close>, and Redis as the services use it:
  a record of the commands they issue, over an abstract server state \<open>'r\<close> and abstract stored
  values \<open>'v\<close> (the serialised models). The laws of the locale \<open>redis_store\<close> are the documented
  behaviour of those commands and of a model's JSON round trip; the in-memory \<open>_FakeRedis\<close> of
  the repository's own tests is an instance.

  A command that fails because the server is unreachable is not part of this interface.
\<close>

section \<open>Keys\<close>

definition PIPELINE_STATE_EVENTS_CHANNEL :: string where
  "PIPELINE_STATE_EVENTS_CHANNEL = ''pipeline_state_events''"

definition pipeline_config_key :: "string \<Rightarrow> string" where
  "pipeline_config_key pid = ''pipeline:'' @ pid @ '':config''"

definition pipeline_state_key :: "string \<Rightarrow> string" where
  "pipeline_state_key pid = ''pipeline:'' @ pid @ '':state''"

definition collection_counter_key :: "string \<Rightarrow> string" where
  "collection_counter_key uid = ''user:'' @ uid @ '':collection_counter''"

definition leader_lock_key :: "string \<Rightarrow> string" where
  "leader_lock_key service = ''leader_lock:'' @ service"

named_theorems key_simps \<open>the keys of different entities never coincide\<close>

lemma config_key_inject [key_simps]: "pipeline_config_key p = pipeline_config_key q \<longleftrightarrow> p = q"
  by (simp add: pipeline_config_key_def)

lemma state_key_inject [key_simps]: "pipeline_state_key p = pipeline_state_key q \<longleftrightarrow> p = q"
  by (simp add: pipeline_state_key_def)

lemma counter_key_inject [key_simps]: "collection_counter_key p = collection_counter_key q \<longleftrightarrow> p = q"
  by (simp add: collection_counter_key_def)

lemma config_key_neq_state_key [key_simps]: "pipeline_config_key p \<noteq> pipeline_state_key q"
proof
  assume "pipeline_config_key p = pipeline_state_key q"
  then have "last (pipeline_config_key p) = last (pipeline_state_key q)" by simp
  then show False by (simp add: pipeline_config_key_def pipeline_state_key_def)
qed

lemma counter_key_neq [key_simps]:
  "collection_counter_key u \<noteq> pipeline_config_key p" "collection_counter_key u \<noteq> pipeline_state_key p"
  by (simp_all add: collection_counter_key_def pipeline_config_key_def pipeline_state_key_def)

lemmas key_neq [key_simps] = config_key_neq_state_key [symmetric] counter_key_neq [symmetric]

section \<open>The client\<close>

text \<open>A glob pattern whose only special character is the star.\<close>

fun glob_match :: "string \<Rightarrow> string \<Rightarrow> bool" where
  "glob_match [] s = (s = [])"
| "glob_match (p # ps) [] = (p = CHR ''*'' \<and> glob_match ps [])"
| "glob_match (p # ps) (c # cs) =
     (if p = CHR ''*'' then glob_match ps (c # cs) \<or> glob_match (p # ps) cs
      else p = c \<and> glob_match ps cs)"

definition plain_glob :: "string \<Rightarrow> bool" where
  "plain_glob p \<longleftrightarrow> list_all (\<lambda>c. c \<noteq> CHR ''?'' \<and> c \<noteq> CHR ''['' \<and> c \<noteq> CHR 0x5C) p"

record ('r, 'v) redis_client =
  r_get :: "string \<Rightarrow> 'r \<Rightarrow> 'v option"
  r_set :: "string \<Rightarrow> 'v \<Rightarrow> 'r \<Rightarrow> 'r"
  r_setnx :: "string \<Rightarrow> 'v \<Rightarrow> 'r \<Rightarrow> 'r"
  r_delete :: "string \<Rightarrow> 'r \<Rightarrow> 'r"
  r_exists :: "string \<Rightarrow> 'r \<Rightarrow> bool"
  r_incr :: "string \<Rightarrow> ('r, int) io"
  r_keys :: "string \<Rightarrow> 'r \<Rightarrow> string list"
  r_publish :: "string \<Rightarrow> 'v \<Rightarrow> 'r \<Rightarrow> 'r"
  v_truthy :: "'v \<Rightarrow> bool"
  dump_config :: "pipeline_config \<Rightarrow> 'v"
  load_config :: "'v \<Rightarrow> pipeline_config result"
  dump_state :: "pipeline_state \<Rightarrow> 'v"
  load_state :: "'v \<Rightarrow> pipeline_state result"
  dump_event :: "pipeline_state_event \<Rightarrow> 'v"
  dump_int :: "int \<Rightarrow> 'v"
  utc_now_iso :: "'r \<Rightarrow> string"

text \<open>
  \<open>load_config\<close> runs the validators again, so the round trip holds for configurations that
  pass them, which the constructor guarantees of every instance, and hold finite floats.
\<close>

locale redis_store =
  fixes R :: "('r, 'v) redis_client"
  assumes get_set: "r_get R k (r_set R k' v w) = (if k = k' then Some v else r_get R k w)"
    and get_setnx: "r_get R k (r_setnx R k' v w) =
      (if k = k' \<and> r_get R k' w = None then Some v else r_get R k w)"
    and get_delete: "r_get R k (r_delete R k' w) = (if k = k' then None else r_get R k w)"
    and exists_iff: "r_exists R k w \<longleftrightarrow> r_get R k w \<noteq> None"
    and incr_absent: "r_get R k w = None \<Longrightarrow> \<exists>w'. r_incr R k w = (Inr 1, w') \<and>
      (\<forall>k'. r_get R k' w' = (if k' = k then Some (dump_int R 1) else r_get R k' w))"
    and incr_int: "r_get R k w = Some (dump_int R n) \<Longrightarrow> \<exists>w'. r_incr R k w = (Inr (n + 1), w') \<and>
      (\<forall>k'. r_get R k' w' = (if k' = k then Some (dump_int R (n + 1)) else r_get R k' w))"
    and set_keys: "plain_glob p \<Longrightarrow> set (r_keys R p w) = {k. r_get R k w \<noteq> None \<and> glob_match p k}"
    and distinct_keys: "distinct (r_keys R p w)"
    and get_publish: "r_get R k (r_publish R ch v w) = r_get R k w"
    and truthy_config: "v_truthy R (dump_config R c)"
    and truthy_state: "v_truthy R (dump_state R s)"
    and config_roundtrip: "storable c \<Longrightarrow> load_config R (dump_config R c) = Inr c"
    and state_roundtrip: "load_state R (dump_state R s) = Inr s"
begin

lemmas store_simps = get_set get_setnx get_delete get_publish exists_iff truthy_config truthy_state
  state_roundtrip

end

section \<open>The in-memory client of the tests\<close>

text \<open>
  \<open>_FakeRedis\<close>: one dict from keys to values. Serialised values are kept as the documents they
  are the text of; published events are logged.
\<close>

datatype doc =
    DocConfig pipeline_config
  | DocState pipeline_state
  | DocEvent pipeline_state_event
  | DocInt int

record fake_redis =
  fake_data :: "(string \<times> doc) list"
  fake_published :: "(string \<times> doc) list"

definition fake_get :: "string \<Rightarrow> fake_redis \<Rightarrow> doc option" where
  "fake_get k w = map_of (fake_data w) k"

definition fake_set :: "string \<Rightarrow> doc \<Rightarrow> fake_redis \<Rightarrow> fake_redis" where
  "fake_set k v w = w\<lparr>fake_data := AList.update k v (fake_data w)\<rparr>"

definition fake_setnx :: "string \<Rightarrow> doc \<Rightarrow> fake_redis \<Rightarrow> fake_redis" where
  "fake_setnx k v w = (if map_of (fake_data w) k \<noteq> None then w else fake_set k v w)"

definition fake_delete :: "string \<Rightarrow> fake_redis \<Rightarrow> fake_redis" where
  "fake_delete k w = w\<lparr>fake_data := AList.delete k (fake_data w)\<rparr>"

definition fake_exists :: "string \<Rightarrow> fake_redis \<Rightarrow> bool" where
  "fake_exists k w \<longleftrightarrow> map_of (fake_data w) k \<noteq> None"

definition fake_incr :: "string \<Rightarrow> (fake_redis, int) io" where
  "fake_incr k w =
     (case map_of (fake_data w) k of
        None \<Rightarrow> (Inr 1, fake_set k (DocInt 1) w)
      | Some (DocInt n) \<Rightarrow> (Inr (n + 1), fake_set k (DocInt (n + 1)) w)
      | Some _ \<Rightarrow> (Inl (ValueError ''invalid literal for int()''), w))"

definition fake_keys :: "string \<Rightarrow> fake_redis \<Rightarrow> string list" where
  "fake_keys p w = filter (glob_match p) (remdups (map fst (fake_data w)))"

definition fake_publish :: "string \<Rightarrow> doc \<Rightarrow> fake_redis \<Rightarrow> fake_redis" where
  "fake_publish ch v w = w\<lparr>fake_published := fake_published w @ [(ch, v)]\<rparr>"

fun doc_config :: "doc \<Rightarrow> pipeline_config result" where
  "doc_config (DocConfig c) = make_pipeline_config c"
| "doc_config _ = Inl (ValidationError ''PipelineConfig'')"

fun doc_state :: "doc \<Rightarrow> pipeline_state result" where
  "doc_state (DocState s) = Inr s"
| "doc_state _ = Inl (ValidationError ''PipelineState'')"

definition fake_client :: "(fake_redis, doc) redis_client" where
  "fake_client = \<lparr>r_get = fake_get, r_set = fake_set, r_setnx = fake_setnx, r_delete = fake_delete,
     r_exists = fake_exists, r_incr = fake_incr, r_keys = fake_keys, r_publish = fake_publish,
     v_truthy = (\<lambda>_. True), dump_config = DocConfig, load_config = doc_config,
     dump_state = DocState, load_state = doc_state, dump_event = DocEvent, dump_int = DocInt,
     utc_now_iso = (\<lambda>_. ''2026-10-02T00:00:00+00:00'')\<rparr>"

definition empty_redis :: fake_redis where
  "empty_redis = \<lparr>fake_data = [], fake_published = []\<rparr>"

lemmas fake_defs = fake_get_def fake_set_def fake_setnx_def fake_delete_def fake_exists_def
  fake_incr_def fake_keys_def fake_publish_def

interpretation fake: redis_store fake_client
proof unfold_locales
  show "set (r_keys fake_client p w) = {k. r_get fake_client k w \<noteq> None \<and> glob_match p k}" for p w
    by (force simp: fake_client_def fake_defs map_of_eq_None_iff)
qed (auto simp: fake_client_def fake_defs storable_def update_conv' delete_conv')

end
