(* ===== verification/Pipeline_Repo.thy ===== *)
theory Pipeline_Repo
  imports Redis_Store
begin

text \<open>
  \<^verbatim>\<open>common/app_common/redis_repo.py\<close>: \<open>PipelineRedisRepository\<close>. Each method is a call over the
  Redis state, with the commands in the order the method issues them. The locale lemmas are
  the contract the API, the controller, the watchdog, the watcher and the pool rely on: what
  a read returns after each write, for the pipeline written and for every other one.
\<close>

section \<open>Operations\<close>

definition get_config :: "('r, 'v) redis_client \<Rightarrow> string \<Rightarrow> ('r, pipeline_config option) io" where
  "get_config R pid w =
     (case r_get R (pipeline_config_key pid) w of
        None \<Rightarrow> (Inr None, w)
      | Some raw \<Rightarrow>
          if v_truthy R raw
          then (case load_config R raw of Inl e \<Rightarrow> (Inl e, w) | Inr c \<Rightarrow> (Inr (Some c), w))
          else (Inr None, w))"

definition get_state :: "('r, 'v) redis_client \<Rightarrow> string \<Rightarrow> ('r, pipeline_state option) io" where
  "get_state R pid w =
     (case r_get R (pipeline_state_key pid) w of
        None \<Rightarrow> (Inr None, w)
      | Some raw \<Rightarrow>
          if v_truthy R raw
          then (case load_state R raw of Inl e \<Rightarrow> (Inl e, w) | Inr s \<Rightarrow> (Inr (Some s), w))
          else (Inr None, w))"

definition put_config :: "('r, 'v) redis_client \<Rightarrow> pipeline_config \<Rightarrow> ('r, unit) io" where
  "put_config R c w = (Inr (), r_set R (pipeline_config_key (pipeline_id c)) (dump_config R c) w)"

definition put_state :: "('r, 'v) redis_client \<Rightarrow> pipeline_state \<Rightarrow> ('r, unit) io" where
  "put_state R s w = (Inr (), r_set R (pipeline_state_key (st_pipeline_id s)) (dump_state R s) w)"

definition initial_state :: "string \<Rightarrow> pipeline_config \<Rightarrow> pipeline_state" where
  "initial_state now c =
     \<lparr>st_pipeline_id = pipeline_id c, st_pipeline_type = pipeline_type c,
      desired_state = DESIRED_STOPPED, status = CREATED, st_topic = topic c,
      producer_container = None, consumer_container = None, last_heartbeat_at = None,
      last_error = None, updated_at = now\<rparr>"

definition repo_create_pipeline :: "('r, 'v) redis_client \<Rightarrow> pipeline_config \<Rightarrow> ('r, pipeline_state) io" where
  "repo_create_pipeline R c =
     bind_io (get_config R (pipeline_id c)) (\<lambda>existing.
       if existing \<noteq> None then raise_io (ValueError (''Pipeline already exists: '' @ pipeline_id c))
       else (\<lambda>w. let s = initial_state (utc_now_iso R w) c in
              bind_io (put_config R c) (\<lambda>_. bind_io (put_state R s) (\<lambda>_. ret_io s)) w))"

text \<open>\<open>sorted(key.split(":", 2)[1] for key in keys)\<close>; every matching key holds a colon.\<close>

definition list_pipeline_ids :: "('r, 'v) redis_client \<Rightarrow> 'r \<Rightarrow> string list" where
  "list_pipeline_ids R w = sort (map (\<lambda>k. split_max CHR '':'' 2 k ! 1) (r_keys R ''pipeline:*:config'' w))"

fun map_io :: "('a \<Rightarrow> ('s, 'b) io) \<Rightarrow> 'a list \<Rightarrow> ('s, 'b list) io" where
  "map_io f [] = ret_io []"
| "map_io f (x # xs) = bind_io (f x) (\<lambda>y. bind_io (map_io f xs) (\<lambda>ys. ret_io (y # ys)))"

definition used_collections :: "string \<Rightarrow> pipeline_config option list \<Rightarrow> int list" where
  "used_collections uid cs =
     map collection_number (filter (\<lambda>c. user_id c = uid) (map the (filter (\<lambda>c. c \<noteq> None) cs)))"

text \<open>\<open>max(used, default=0)\<close>.\<close>

definition max_default :: "int list \<Rightarrow> int" where
  "max_default xs = (case xs of [] \<Rightarrow> 0 | x # ys \<Rightarrow> fold max ys x)"

definition next_collection_number :: "('r, 'v) redis_client \<Rightarrow> string \<Rightarrow> ('r, int) io" where
  "next_collection_number R uid w =
     (let key = collection_counter_key uid in
      bind_io
        (if r_exists R key w then ret_io ()
         else bind_io (map_io (get_config R) (list_pipeline_ids R w)) (\<lambda>cs w.
                (Inr (), r_setnx R key (dump_int R (max_default (used_collections uid cs))) w)))
        (\<lambda>_. r_incr R key) w)"

definition save_state :: "('r, 'v) redis_client \<Rightarrow> pipeline_state \<Rightarrow> ('r, pipeline_state) io" where
  "save_state R s w =
     (let s' = s\<lparr>updated_at := utc_now_iso R w\<rparr> in bind_io (put_state R s') (\<lambda>_. ret_io s') w)"

text \<open>
  The keyword arguments of \<open>update_state\<close>. For the first three, \<open>None\<close> leaves the field alone;
  for the containers \<open>None\<close> is the sentinel \<open>_UNSET\<close> and \<open>Some None\<close> clears the field.
\<close>

record state_update =
  set_desired :: "desired_state option"
  set_status :: "pipeline_status option"
  set_error :: "string option"
  set_producer :: "string option option"
  set_consumer :: "string option option"

definition no_update :: state_update where
  "no_update = \<lparr>set_desired = None, set_status = None, set_error = None,
     set_producer = None, set_consumer = None\<rparr>"

definition apply_update :: "state_update \<Rightarrow> pipeline_state \<Rightarrow> pipeline_state" where
  "apply_update u s =
     (let s1 = (case set_desired u of None \<Rightarrow> s | Some d \<Rightarrow> s\<lparr>desired_state := d\<rparr>);
          s2 = (case set_status u of None \<Rightarrow> s1 | Some st \<Rightarrow> s1\<lparr>status := st\<rparr>);
          s3 = (case set_error u of None \<Rightarrow> s2 | Some e \<Rightarrow> s2\<lparr>last_error := Some e\<rparr>);
          s4 = (case set_producer u of None \<Rightarrow> s3 | Some p \<Rightarrow> s3\<lparr>producer_container := p\<rparr>)
      in (case set_consumer u of None \<Rightarrow> s4 | Some p \<Rightarrow> s4\<lparr>consumer_container := p\<rparr>))"

definition update_state :: "('r, 'v) redis_client \<Rightarrow> string \<Rightarrow> state_update \<Rightarrow> ('r, pipeline_state) io" where
  "update_state R pid u =
     bind_io (get_state R pid) (\<lambda>found.
       case found of
         None \<Rightarrow> raise_io (KeyError (''Pipeline state not found: '' @ pid))
       | Some s \<Rightarrow> save_state R (apply_update u s))"

definition repo_delete_pipeline :: "('r, 'v) redis_client \<Rightarrow> string \<Rightarrow> ('r, unit) io" where
  "repo_delete_pipeline R pid w =
     (Inr (), r_delete R (pipeline_state_key pid) (r_delete R (pipeline_config_key pid) w))"

definition publish_state_event ::
  "('r, 'v) redis_client \<Rightarrow> pipeline_state \<Rightarrow> event_type \<Rightarrow> ('r, unit) io" where
  "publish_state_event R s ty w =
     (let event = \<lparr>ev_pipeline_id = st_pipeline_id s, ev_event_type = ty,
                   ev_desired_state = desired_state s, ev_status = status s,
                   ev_timestamp = utc_now_iso R w\<rparr>
      in (Inr (), r_publish R PIPELINE_STATE_EVENTS_CHANNEL (dump_event R event) w))"

section \<open>Contract\<close>

lemma max_default_ge: "x \<in> set xs \<Longrightarrow> x \<le> max_default xs"
proof -
  assume x: "x \<in> set xs"
  then obtain a ys where xs: "xs = a # ys" by (cases xs) auto
  then have "max_default xs = Max (set xs)"
    by (simp add: max_default_def Max.set_eq_fold del: list.set(2))
  with x show ?thesis by simp
qed

lemma apply_update_simps [simp]:
  "desired_state (apply_update u s) = (case set_desired u of None \<Rightarrow> desired_state s | Some d \<Rightarrow> d)"
  "status (apply_update u s) = (case set_status u of None \<Rightarrow> status s | Some d \<Rightarrow> d)"
  "last_error (apply_update u s) = (case set_error u of None \<Rightarrow> last_error s | Some d \<Rightarrow> Some d)"
  "producer_container (apply_update u s) = (case set_producer u of None \<Rightarrow> producer_container s | Some d \<Rightarrow> d)"
  "consumer_container (apply_update u s) = (case set_consumer u of None \<Rightarrow> consumer_container s | Some d \<Rightarrow> d)"
  "st_pipeline_id (apply_update u s) = st_pipeline_id s"
  "st_pipeline_type (apply_update u s) = st_pipeline_type s"
  "st_topic (apply_update u s) = st_topic s"
  "last_heartbeat_at (apply_update u s) = last_heartbeat_at s"
  by (simp_all add: apply_update_def Let_def split: option.splits)

text \<open>What the repository holds for a pipeline, as a value.\<close>

definition stored_config :: "('r, 'v) redis_client \<Rightarrow> 'r \<Rightarrow> string \<Rightarrow> pipeline_config option result" where
  "stored_config R w pid =
     (case r_get R (pipeline_config_key pid) w of
        None \<Rightarrow> Inr None
      | Some raw \<Rightarrow> if v_truthy R raw then map_sum id Some (load_config R raw) else Inr None)"

definition stored_state :: "('r, 'v) redis_client \<Rightarrow> 'r \<Rightarrow> string \<Rightarrow> pipeline_state option result" where
  "stored_state R w pid =
     (case r_get R (pipeline_state_key pid) w of
        None \<Rightarrow> Inr None
      | Some raw \<Rightarrow> if v_truthy R raw then map_sum id Some (load_state R raw) else Inr None)"

lemma get_config_eq: "get_config R pid w = (stored_config R w pid, w)"
  by (simp add: stored_config_def get_config_def split: option.splits sum.splits)

lemma get_state_eq: "get_state R pid w = (stored_state R w pid, w)"
  by (simp add: stored_state_def get_state_def split: option.splits sum.splits)

lemma map_io_get_config:
  "map_io (get_config R) pids w = (Inr cs, w') \<Longrightarrow>
     w' = w \<and> length cs = length pids \<and> (\<forall>i < length pids. stored_config R w (pids ! i) = Inr (cs ! i))"
proof (induction pids arbitrary: cs w')
  case Nil
  then show ?case by (simp add: ret_io_def)
next
  case (Cons p ps)
  from Cons.prems obtain c w1 cs' where c: "get_config R p w = (Inr c, w1)"
    and cs': "map_io (get_config R) ps w1 = (Inr cs', w')" "cs = c # cs'"
    by (auto simp: bind_io_eq_Inr ret_io_def)
  from c have "w1 = w" "stored_config R w p = Inr c" by (auto simp: get_config_eq)
  with cs' Cons.IH show ?case by (auto simp: nth_Cons')
qed

context redis_store
begin

lemma stored_config_frame:
  "r_get R (pipeline_config_key p) w' = r_get R (pipeline_config_key p) w \<Longrightarrow>
     stored_config R w' p = stored_config R w p"
  by (simp add: stored_config_def split: option.splits sum.splits)

lemma stored_state_frame:
  "r_get R (pipeline_state_key p) w' = r_get R (pipeline_state_key p) w \<Longrightarrow>
     stored_state R w' p = stored_state R w p"
  by (simp add: stored_state_def split: option.splits sum.splits)

lemma stored_after_put_config:
  assumes "storable c"
  shows "stored_config R (r_set R (pipeline_config_key (pipeline_id c)) (dump_config R c) w) p =
    (if p = pipeline_id c then Inr (Some c) else stored_config R w p)"
  using assms by (simp add: stored_config_def store_simps config_roundtrip key_simps)

lemma stored_state_after_set_config [simp]:
  "stored_state R (r_set R (pipeline_config_key q) v w) p = stored_state R w p"
  by (simp add: stored_state_def store_simps key_simps)

lemma stored_config_after_set_state [simp]:
  "stored_config R (r_set R (pipeline_state_key q) v w) p = stored_config R w p"
  by (simp add: stored_config_def store_simps key_simps)

lemma stored_after_put_state [simp]:
  "stored_state R (r_set R (pipeline_state_key q) (dump_state R s) w) p =
    (if p = q then Inr (Some s) else stored_state R w p)"
  by (simp add: stored_state_def store_simps key_simps)

lemma stored_after_publish [simp]:
  "stored_config R (r_publish R ch v w) p = stored_config R w p"
  "stored_state R (r_publish R ch v w) p = stored_state R w p"
  by (simp_all add: stored_config_def stored_state_def store_simps)

lemma stored_after_delete [simp]:
  "stored_config R (r_delete R (pipeline_config_key q) w) p = (if p = q then Inr None else stored_config R w p)"
  "stored_state R (r_delete R (pipeline_config_key q) w) p = stored_state R w p"
  "stored_config R (r_delete R (pipeline_state_key q) w) p = stored_config R w p"
  "stored_state R (r_delete R (pipeline_state_key q) w) p = (if p = q then Inr None else stored_state R w p)"
  by (simp_all add: stored_config_def stored_state_def store_simps key_simps)

lemma repo_create_pipeline_new:
  assumes "storable c" and "stored_config R w (pipeline_id c) = Inr None"
  shows "\<exists>s w'. repo_create_pipeline R c w = (Inr s, w') \<and> s = initial_state (updated_at s) c \<and>
    (\<forall>p. stored_config R w' p = (if p = pipeline_id c then Inr (Some c) else stored_config R w p)) \<and>
    (\<forall>p. stored_state R w' p = (if p = pipeline_id c then Inr (Some s) else stored_state R w p))"
  using assms
  by (auto simp: repo_create_pipeline_def io_simps get_config_eq put_config_def put_state_def Let_def
      stored_after_put_config initial_state_def)

lemma repo_create_pipeline_exists:
  assumes "stored_config R w (pipeline_id c) = Inr (Some c')"
  shows "repo_create_pipeline R c w = (Inl (ValueError (''Pipeline already exists: '' @ pipeline_id c)), w)"
  using assms by (simp add: repo_create_pipeline_def io_simps get_config_eq)

lemma update_state_missing:
  assumes "stored_state R w pid = Inr None"
  shows "update_state R pid u w = (Inl (KeyError (''Pipeline state not found: '' @ pid)), w)"
  using assms by (simp add: update_state_def io_simps get_state_eq)

lemma update_state_found:
  assumes "stored_state R w pid = Inr (Some s)" and "st_pipeline_id s = pid"
  obtains w' s' where "update_state R pid u w = (Inr s', w')"
    and "s' = (apply_update u s)\<lparr>updated_at := updated_at s'\<rparr>"
    and "\<And>p. stored_config R w' p = stored_config R w p"
    and "\<And>p. stored_state R w' p = (if p = pid then Inr (Some s') else stored_state R w p)"
proof -
  define s' where "s' = (apply_update u s)\<lparr>updated_at := utc_now_iso R w\<rparr>"
  define w' where "w' = r_set R (pipeline_state_key pid) (dump_state R s') w"
  have "update_state R pid u w = (Inr s', w')"
    using assms by (simp add: update_state_def save_state_def put_state_def io_simps get_state_eq
        Let_def s'_def w'_def)
  moreover have "s' = (apply_update u s)\<lparr>updated_at := updated_at s'\<rparr>" by (simp add: s'_def)
  ultimately show ?thesis by (rule that) (simp_all add: w'_def)
qed

lemma repo_delete_pipeline_gone:
  "\<exists>w'. repo_delete_pipeline R pid w = (Inr (), w') \<and>
    (\<forall>p. stored_config R w' p = (if p = pid then Inr None else stored_config R w p)) \<and>
    (\<forall>p. stored_state R w' p = (if p = pid then Inr None else stored_state R w p))"
  by (simp add: repo_delete_pipeline_def)

end

section \<open>Enumerating the pipelines\<close>

lemma glob_match_literal:
  "CHR ''*'' \<notin> set l \<Longrightarrow> glob_match l s \<longleftrightarrow> s = l"
proof (induction l arbitrary: s)
  case (Cons p l)
  then show ?case by (cases s) auto
qed simp

lemma glob_match_literal_append:
  "CHR ''*'' \<notin> set l \<Longrightarrow> glob_match (l @ ps) s \<longleftrightarrow> (\<exists>t. s = l @ t \<and> glob_match ps t)"
proof (induction l arbitrary: s)
  case (Cons p l)
  then show ?case by (cases s) auto
qed simp

lemma glob_match_star: "glob_match (CHR ''*'' # ps) s \<longleftrightarrow> (\<exists>a t. s = a @ t \<and> glob_match ps t)"
proof (induction s)
  case (Cons c s)
  have "(\<exists>a t. c # s = a @ t \<and> glob_match ps t) \<longleftrightarrow>
      glob_match ps (c # s) \<or> (\<exists>a t. s = a @ t \<and> glob_match ps t)"
    by (metis append_Cons append_Nil append_eq_Cons_conv)
  with Cons show ?case by simp
qed simp

lemma glob_config_key:
  "glob_match ''pipeline:*:config'' k \<longleftrightarrow> (\<exists>p. k = pipeline_config_key p)"
proof -
  have "glob_match ''pipeline:*:config'' k \<longleftrightarrow>
      (\<exists>s. k = ''pipeline:'' @ s \<and> glob_match (CHR ''*'' # '':config'') s)"
    using glob_match_literal_append [of "''pipeline:''" "CHR ''*'' # '':config''" k] by simp
  also have "\<dots> \<longleftrightarrow> (\<exists>p. k = pipeline_config_key p)"
    by (auto simp: glob_match_star glob_match_literal pipeline_config_key_def)
  finally show ?thesis .
qed

lemma split_config_key:
  assumes "CHR '':'' \<notin> set p"
  shows "split_max CHR '':'' 2 (pipeline_config_key p) ! 1 = p"
proof -
  let ?rest = "p @ CHR '':'' # ''config''"
  have key: "pipeline_config_key p = ''pipeline'' @ CHR '':'' # ?rest"
    by (simp add: pipeline_config_key_def)
  have "split_max CHR '':'' (Suc (Suc 0)) (''pipeline'' @ CHR '':'' # ?rest)
      = ''pipeline'' # split_max CHR '':'' (Suc 0) ?rest"
    by (rule split_max_append) simp
  moreover have "split_max CHR '':'' (Suc 0) ?rest = p # split_max CHR '':'' 0 ''config''"
    by (rule split_max_append) (rule assms)
  ultimately show ?thesis unfolding key numeral_2_eq_2 by (simp only: nth_Cons_Suc nth_Cons_0 One_nat_def)
qed

text \<open>The identifiers the API and the watcher accept: \<open>^[a-zA-Z0-9_.-]+$\<close> of pydantic.\<close>

definition pipeline_id_ok :: "string \<Rightarrow> bool" where
  "pipeline_id_ok p \<longleftrightarrow>
     p \<noteq> [] \<and> list_all (\<lambda>c. c \<in> set ascii_letters \<or> c \<in> set decimal_digits \<or> c \<in> set ''_.-'') p"

lemma pipeline_id_ok_no_colon: "pipeline_id_ok p \<Longrightarrow> CHR '':'' \<notin> set p"
proof -
  have "CHR '':'' \<notin> set ascii_letters" "CHR '':'' \<notin> set decimal_digits"
    by (simp_all add: ascii_letters_def decimal_digits_def)
  then show "pipeline_id_ok p \<Longrightarrow> CHR '':'' \<notin> set p"
    by (auto simp: pipeline_id_ok_def list_all_iff)
qed

definition ids_ok :: "('r, 'v) redis_client \<Rightarrow> 'r \<Rightarrow> bool" where
  "ids_ok R w \<longleftrightarrow> (\<forall>p. r_get R (pipeline_config_key p) w \<noteq> None \<longrightarrow> pipeline_id_ok p)"

context redis_store
begin

lemma keys_of_configs:
  "set (r_keys R ''pipeline:*:config'' w) = {pipeline_config_key p | p. r_get R (pipeline_config_key p) w \<noteq> None}"
proof -
  have "plain_glob ''pipeline:*:config''" by (simp add: plain_glob_def)
  then show ?thesis by (auto simp: set_keys glob_config_key)
qed

lemma list_pipeline_ids_spec:
  assumes "ids_ok R w"
  shows "set (list_pipeline_ids R w) = {p. r_get R (pipeline_config_key p) w \<noteq> None}"
    and "distinct (list_pipeline_ids R w)" and "sorted (list_pipeline_ids R w)"
proof -
  let ?f = "\<lambda>k. split_max CHR '':'' 2 k ! 1"
  let ?ks = "r_keys R ''pipeline:*:config'' w"
  have f: "?f (pipeline_config_key p) = p" if "r_get R (pipeline_config_key p) w \<noteq> None" for p
    using assms that pipeline_id_ok_no_colon split_config_key by (simp add: ids_ok_def)
  then have "?f ` set ?ks = {p. r_get R (pipeline_config_key p) w \<noteq> None}"
    by (force simp: keys_of_configs)
  then show "set (list_pipeline_ids R w) = {p. r_get R (pipeline_config_key p) w \<noteq> None}"
    by (simp add: list_pipeline_ids_def)
  have "inj_on ?f (set ?ks)"
    using f by (auto simp: keys_of_configs inj_on_def)
  then show "distinct (list_pipeline_ids R w)"
    by (simp add: list_pipeline_ids_def distinct_map distinct_keys)
  show "sorted (list_pipeline_ids R w)" by (simp add: list_pipeline_ids_def)
qed

lemma next_collection_number_seeded:
  assumes "r_get R (collection_counter_key uid) w = Some (dump_int R m)"
  shows "\<exists>w'. next_collection_number R uid w = (Inr (m + 1), w') \<and>
    (\<forall>k. r_get R k w' = (if k = collection_counter_key uid then Some (dump_int R (m + 1)) else r_get R k w))"
proof -
  have "next_collection_number R uid w = r_incr R (collection_counter_key uid) w"
    using assms by (simp add: next_collection_number_def exists_iff Let_def)
  with incr_int [OF assms] show ?thesis by simp
qed

lemma next_collection_number_first:
  assumes "r_get R (collection_counter_key uid) w = None"
    and cs: "map_io (get_config R) (list_pipeline_ids R w) w = (Inr cs, w)"
  defines "m \<equiv> max_default (used_collections uid cs)"
  shows "\<exists>w'. next_collection_number R uid w = (Inr (m + 1), w') \<and>
    (\<forall>k. r_get R k w' = (if k = collection_counter_key uid then Some (dump_int R (m + 1)) else r_get R k w))"
proof -
  let ?k = "collection_counter_key uid"
  let ?w1 = "r_setnx R ?k (dump_int R m) w"
  have g: "r_get R k ?w1 = (if k = ?k then Some (dump_int R m) else r_get R k w)" for k
    using assms(1) by (simp add: get_setnx)
  then obtain w' where "r_incr R ?k ?w1 = (Inr (m + 1), w')"
    and "\<And>k'. r_get R k' w' = (if k' = ?k then Some (dump_int R (m + 1)) else r_get R k' ?w1)"
    using incr_int [of ?k ?w1 m] by auto
  then show ?thesis
    using assms(1) by (simp add: next_collection_number_def exists_iff Let_def bind_io_def cs m_def [symmetric] g)
qed

text \<open>Every collection number the user's readable configurations hold is below the first number.\<close>

lemma used_collections_covers:
  assumes "ids_ok R w" and cs: "map_io (get_config R) (list_pipeline_ids R w) w = (Inr cs, w')"
    and c: "stored_config R w p = Inr (Some c)" and "user_id c = uid"
  shows "collection_number c \<le> max_default (used_collections uid cs)"
proof -
  from c have "r_get R (pipeline_config_key p) w \<noteq> None"
    by (cases "r_get R (pipeline_config_key p) w") (auto simp: stored_config_def)
  then have "p \<in> set (list_pipeline_ids R w)" using list_pipeline_ids_spec [OF assms(1)] by simp
  then obtain i where "i < length (list_pipeline_ids R w)" "list_pipeline_ids R w ! i = p"
    by (auto simp: in_set_conv_nth)
  with map_io_get_config [OF cs] c have "Some c \<in> set cs" by (metis Inr_inject nth_mem)
  then have "collection_number c \<in> set (used_collections uid cs)"
    using assms(4) by (force simp: used_collections_def)
  then show ?thesis by (rule max_default_ge)
qed

end

section \<open>Runs of the repository\<close>

text \<open>
  Any sequence of calls, with the collection numbers handed out on the way. Calls that raise
  are steps too.
\<close>

inductive repo_run :: "('r, 'v) redis_client \<Rightarrow> 'r \<Rightarrow> (string \<times> int) list \<Rightarrow> 'r \<Rightarrow> bool" for R where
  run_done: "repo_run R w [] w"
| run_create: "repo_create_pipeline R c w = (r, w1) \<Longrightarrow> repo_run R w1 tr w2 \<Longrightarrow> repo_run R w tr w2"
| run_update: "update_state R pid u w = (r', w1) \<Longrightarrow> repo_run R w1 tr w2 \<Longrightarrow> repo_run R w tr w2"
| run_delete: "repo_delete_pipeline R pid w = (r'', w1) \<Longrightarrow> repo_run R w1 tr w2 \<Longrightarrow> repo_run R w tr w2"
| run_publish: "publish_state_event R s ty w = (r'', w1) \<Longrightarrow> repo_run R w1 tr w2 \<Longrightarrow> repo_run R w tr w2"
| run_allocate: "next_collection_number R uid w = (Inr n, w1) \<Longrightarrow> repo_run R w1 tr w2 \<Longrightarrow>
    repo_run R w ((uid, n) # tr) w2"
| run_allocate_error: "next_collection_number R uid w = (Inl e, w1) \<Longrightarrow> repo_run R w1 tr w2 \<Longrightarrow>
    repo_run R w tr w2"

definition counters_ok :: "('r, 'v) redis_client \<Rightarrow> 'r \<Rightarrow> bool" where
  "counters_ok R w \<longleftrightarrow> (\<forall>u. r_get R (collection_counter_key u) w = None \<or>
     (\<exists>m. r_get R (collection_counter_key u) w = Some (dump_int R m)))"

lemma map_io_get_config_state: "map_io (get_config R) pids w = (r, w') \<Longrightarrow> w' = w"
proof (induction pids arbitrary: r w')
  case (Cons p ps)
  obtain r1 w1 where m: "map_io (get_config R) ps w = (r1, w1)" by fastforce
  with Cons.IH have "w1 = w" by blast
  with m Cons.prems show ?case
    by (auto simp: bind_io_def get_config_eq [of R p w] ret_io_def split: sum.splits)
qed (simp add: ret_io_def)

context redis_store
begin

lemma counter_frame:
  "repo_create_pipeline R c w = (r, w1) \<Longrightarrow> r_get R (collection_counter_key u) w1 = r_get R (collection_counter_key u) w"
  "update_state R pid up w = (r', w1) \<Longrightarrow> r_get R (collection_counter_key u) w1 = r_get R (collection_counter_key u) w"
  "repo_delete_pipeline R pid w = (r'', w1) \<Longrightarrow> r_get R (collection_counter_key u) w1 = r_get R (collection_counter_key u) w"
  "publish_state_event R s ty w = (r'', w1) \<Longrightarrow> r_get R (collection_counter_key u) w1 = r_get R (collection_counter_key u) w"
  by (auto simp: repo_create_pipeline_def update_state_def repo_delete_pipeline_def publish_state_event_def
      save_state_def put_config_def put_state_def io_simps get_config_eq get_state_eq Let_def store_simps key_simps
      split: sum.splits option.splits if_splits prod.splits)

text \<open>An allocation writes no key but the counter, and the counter keeps an integer.\<close>

lemma next_collection_number_writes:
  assumes ok: "counters_ok R w" and n: "next_collection_number R uid w = (r, w1)"
  shows "w1 = w \<or> (\<exists>k. \<forall>x. r_get R x w1 = (if x = collection_counter_key uid then Some (dump_int R k) else r_get R x w))"
proof (cases "r_get R (collection_counter_key uid) w")
  case None
  obtain q w' where q: "map_io (get_config R) (list_pipeline_ids R w) w = (q, w')" by fastforce
  have w': "w' = w" by (rule map_io_get_config_state [OF q])
  show ?thesis
  proof (cases q)
    case (Inl e)
    with q w' n None have "w1 = w" by (simp add: next_collection_number_def exists_iff Let_def bind_io_def)
    then show ?thesis by blast
  next
    case (Inr cs)
    with q w' have "map_io (get_config R) (list_pipeline_ids R w) w = (Inr cs, w)" by simp
    from next_collection_number_first [OF None this] n show ?thesis by auto
  qed
next
  case (Some v)
  with ok [unfolded counters_ok_def, THEN spec, of uid]
  obtain k where "r_get R (collection_counter_key uid) w = Some (dump_int R k)" by auto
  from next_collection_number_seeded [OF this] n show ?thesis by auto
qed

lemma next_collection_number_frame:
  assumes "counters_ok R w" and "next_collection_number R uid w = (r, w1)"
  shows "stored_config R w1 p = stored_config R w p" and "stored_state R w1 p = stored_state R w p"
  using next_collection_number_writes [OF assms]
  by (auto intro!: stored_config_frame stored_state_frame simp: key_simps)

text \<open>The effect of an allocation on every counter.\<close>

lemma next_collection_number_step:
  assumes ok: "counters_ok R w" and n: "next_collection_number R uid w = (r, w1)"
  shows "counters_ok R w1" and "u \<noteq> uid \<Longrightarrow> r_get R (collection_counter_key u) w1 = r_get R (collection_counter_key u) w"
    and "r_get R (collection_counter_key uid) w = Some (dump_int R m) \<Longrightarrow>
      r = Inr (m + 1) \<and> r_get R (collection_counter_key uid) w1 = Some (dump_int R (m + 1))"
proof -
  show "counters_ok R w1" and "u \<noteq> uid \<Longrightarrow> r_get R (collection_counter_key u) w1 = r_get R (collection_counter_key u) w"
    using next_collection_number_writes [OF ok n] ok unfolding counters_ok_def by (metis, metis counter_key_inject)
  show "r_get R (collection_counter_key uid) w = Some (dump_int R m) \<Longrightarrow>
      r = Inr (m + 1) \<and> r_get R (collection_counter_key uid) w1 = Some (dump_int R (m + 1))"
    using next_collection_number_seeded [of uid w m] n by auto
qed

lemma counters_ok_frame:
  "counters_ok R w \<Longrightarrow> (\<And>u. r_get R (collection_counter_key u) w1 = r_get R (collection_counter_key u) w) \<Longrightarrow>
     counters_ok R w1"
  by (simp add: counters_ok_def)

lemma repo_run_numbers:
  "repo_run R w tr w' \<Longrightarrow> counters_ok R w \<Longrightarrow> r_get R (collection_counter_key uid) w = Some (dump_int R m) \<Longrightarrow>
    map snd (filter (\<lambda>x. fst x = uid) tr) =
      map (\<lambda>i. m + 1 + int i) [0..<length (filter (\<lambda>x. fst x = uid) tr)] \<and>
    r_get R (collection_counter_key uid) w' =
      Some (dump_int R (m + int (length (filter (\<lambda>x. fst x = uid) tr))))"
proof (induction arbitrary: m rule: repo_run.induct)
  case (run_allocate u w n w1 tr w2)
  note step = next_collection_number_step [OF run_allocate.prems(1) run_allocate.hyps(1)]
  show ?case
  proof (cases "u = uid")
    case True
    with step(3) run_allocate.prems(2) have n: "n = m + 1"
      and c: "r_get R (collection_counter_key uid) w1 = Some (dump_int R (m + 1))" by auto
    have shift: "map f [0..<Suc k] = f 0 # map (\<lambda>i. f (Suc i)) [0..<k]" for f :: "nat \<Rightarrow> int" and k
      by (simp only: map_upt_Suc)
    show ?thesis using run_allocate.IH [OF step(1) c] True n
      by (simp add: shift algebra_simps del: upt_Suc)
  next
    case False
    with step(2) [of uid] run_allocate.prems(2) run_allocate.IH [OF step(1)] show ?thesis by simp
  qed
next
  case (run_allocate_error u w e w1 tr w2)
  note step = next_collection_number_step [OF run_allocate_error.prems(1) run_allocate_error.hyps(1)]
  have "u \<noteq> uid" using step(3) run_allocate_error.prems(2) by auto
  with step(2) [of uid] run_allocate_error.prems(2) run_allocate_error.IH [OF step(1)] show ?case by simp
next
  case (run_create c w r w1 tr w2)
  note frame = counter_frame(1) [OF run_create.hyps(1)]
  from run_create.IH [OF counters_ok_frame [OF run_create.prems(1) frame]] run_create.prems(2) show ?case by (simp add: frame)
next
  case (run_update pid u w r w1 tr w2)
  note frame = counter_frame(2) [OF run_update.hyps(1)]
  from run_update.IH [OF counters_ok_frame [OF run_update.prems(1) frame]] run_update.prems(2) show ?case by (simp add: frame)
next
  case (run_delete pid w r w1 tr w2)
  note frame = counter_frame(3) [OF run_delete.hyps(1)]
  from run_delete.IH [OF counters_ok_frame [OF run_delete.prems(1) frame]] run_delete.prems(2) show ?case by (simp add: frame)
next
  case (run_publish s ty w r w1 tr w2)
  note frame = counter_frame(4) [OF run_publish.hyps(1)]
  from run_publish.IH [OF counters_ok_frame [OF run_publish.prems(1) frame]] run_publish.prems(2) show ?case by (simp add: frame)
qed simp

end

section \<open>Properties\<close>

lemma distinct_singleton_list: "set xs = {a} \<Longrightarrow> distinct xs \<Longrightarrow> xs = [a]"
  by (cases xs; cases "tl xs") auto

lemma fake_empty: "stored_config fake_client empty_redis p = Inr None" "stored_state fake_client empty_redis p = Inr None"
  "r_get fake_client k empty_redis = None"
  by (simp_all add: stored_config_def stored_state_def fake_client_def fake_get_def empty_redis_def)

text \<open>
  C35: a created pipeline reads back as it was written, stopped and \<open>created\<close>, with its topic;
  every other pipeline reads as before; and creating the same id again raises and changes nothing.
\<close>

theorem create_pipeline_reads_back:
  assumes "redis_store R" and "storable c" and "get_config R (pipeline_id c) w = (Inr None, w)"
  shows "\<exists>s w'. repo_create_pipeline R c w = (Inr s, w') \<and>
    desired_state s = DESIRED_STOPPED \<and> status s = CREATED \<and> st_topic s = topic c \<and>
    (\<forall>p. get_config R p w' = (if p = pipeline_id c then (Inr (Some c), w') else (fst (get_config R p w), w'))) \<and>
    (\<forall>p. get_state R p w' = (if p = pipeline_id c then (Inr (Some s), w') else (fst (get_state R p w), w'))) \<and>
    (\<forall>c'. pipeline_id c' = pipeline_id c \<longrightarrow>
       repo_create_pipeline R c' w' = (Inl (ValueError (''Pipeline already exists: '' @ pipeline_id c)), w'))"
proof -
  from assms(3) have "stored_config R w (pipeline_id c) = Inr None" by (simp add: get_config_eq)
  from redis_store.repo_create_pipeline_new [OF assms(1,2) this] obtain s w'
    where n: "repo_create_pipeline R c w = (Inr s, w')" "s = initial_state (updated_at s) c"
      "\<And>p. stored_config R w' p = (if p = pipeline_id c then Inr (Some c) else stored_config R w p)"
      "\<And>p. stored_state R w' p = (if p = pipeline_id c then Inr (Some s) else stored_state R w p)" by blast
  have "desired_state s = DESIRED_STOPPED \<and> status s = CREATED \<and> st_topic s = topic c"
    by (subst (1 2 3) n(2)) (simp add: initial_state_def)
  moreover have "repo_create_pipeline R c' w' = (Inl (ValueError (''Pipeline already exists: '' @ pipeline_id c)), w')"
    if "pipeline_id c' = pipeline_id c" for c'
    using redis_store.repo_create_pipeline_exists [OF assms(1), of w' c' c] n(3) that by simp
  ultimately show ?thesis using n(1,3,4) by (intro exI [of _ s] exI [of _ w']) (simp add: get_config_eq get_state_eq)
qed

lemma create_pipeline_reads_back_witness:
  "\<exists>s w'. repo_create_pipeline fake_client sample_config empty_redis = (Inr s, w') \<and> status s = CREATED \<and>
     get_config fake_client ''p1'' w' = (Inr (Some sample_config), w')"
proof -
  have id: "pipeline_id sample_config = ''p1''" by (simp add: sample_config_def)
  have "get_config fake_client (pipeline_id sample_config) empty_redis = (Inr None, empty_redis)"
    by (simp add: get_config_eq fake_empty)
  from create_pipeline_reads_back [OF fake.redis_store_axioms sample_storable this] show ?thesis
    unfolding id by metis
qed

text \<open>
  \<open>update_state\<close> changes the fields it is given and the time stamp, of the pipeline it is
  given; it raises \<open>KeyError\<close> and writes nothing when the pipeline has no state.
\<close>

lemma update_state_contract:
  assumes "redis_store R" and "get_state R pid w = (Inr found, w)"
    and "\<And>s. found = Some s \<Longrightarrow> st_pipeline_id s = pid"
  shows "case found of
      None \<Rightarrow> update_state R pid u w = (Inl (KeyError (''Pipeline state not found: '' @ pid)), w)
    | Some s \<Rightarrow> (\<exists>s' w'. update_state R pid u w = (Inr s', w') \<and>
        s' = (apply_update u s)\<lparr>updated_at := updated_at s'\<rparr> \<and>
        (\<forall>p. get_state R p w' = (if p = pid then (Inr (Some s'), w') else (fst (get_state R p w), w'))) \<and>
        (\<forall>p. get_config R p w' = (fst (get_config R p w), w')))"
proof (cases found)
  case None
  with assms(2) have "stored_state R w pid = Inr None" by (simp add: get_state_eq)
  from redis_store.update_state_missing [OF assms(1) this] None show ?thesis by simp
next
  case (Some s)
  with assms(2) have "stored_state R w pid = Inr (Some s)" by (simp add: get_state_eq)
  from redis_store.update_state_found [OF assms(1) this assms(3) [OF Some]] obtain w' s'
    where "update_state R pid u w = (Inr s', w')" "s' = (apply_update u s)\<lparr>updated_at := updated_at s'\<rparr>"
      "\<And>p. stored_config R w' p = stored_config R w p"
      "\<And>p. stored_state R w' p = (if p = pid then Inr (Some s') else stored_state R w p)" by metis
  with Some show ?thesis by (auto simp: get_state_eq get_config_eq intro!: exI)
qed

text \<open>
  \<open>list_pipeline_ids\<close> returns exactly the pipelines that have a configuration, each once,
  in order, whatever else is stored.
\<close>

lemma list_pipeline_ids_complete:
  assumes "redis_store R" and "ids_ok R w"
  shows "set (list_pipeline_ids R w) = {p. r_get R (pipeline_config_key p) w \<noteq> None} \<and>
    distinct (list_pipeline_ids R w) \<and> sorted (list_pipeline_ids R w)"
  using redis_store.list_pipeline_ids_spec [OF assms] by blast



text \<open>
  The first number a user is given lies above every collection number the stored
  configurations of that user hold, so that pipelines older than the counter keep their tables.
\<close>

lemma first_collection_number_fresh:
  assumes "redis_store R" and "ids_ok R w" and "r_get R (collection_counter_key uid) w = None"
    and "next_collection_number R uid w = (Inr n, w')"
    and "get_config R p w = (Inr (Some c), w)" and "user_id c = uid"
  shows "collection_number c < n"
proof -
  obtain q w1 where q: "map_io (get_config R) (list_pipeline_ids R w) w = (q, w1)" by fastforce
  have w1: "w1 = w" by (rule map_io_get_config_state [OF q])
  have ex: "\<not> r_exists R (collection_counter_key uid) w"
    using assms(1,3) by (simp add: redis_store.exists_iff)
  have "\<exists>cs. q = Inr cs"
    using assms(4) q w1 ex by (cases q) (auto simp: next_collection_number_def Let_def bind_io_def)
  with q w1 obtain cs where cs: "map_io (get_config R) (list_pipeline_ids R w) w = (Inr cs, w)" by blast
  from redis_store.next_collection_number_first [OF assms(1,3) cs] assms(4)
  have "n = max_default (used_collections uid cs) + 1" by auto
  moreover from assms(5) have "stored_config R w p = Inr (Some c)" by (simp add: get_config_eq)
  ultimately show ?thesis using redis_store.used_collections_covers [OF assms(1,2) cs _ assms(6)] by fastforce
qed

text \<open>
  A deleted pipeline is gone, both its configuration and its state; every other pipeline
  and every collection counter reads as before.
\<close>

lemma delete_pipeline_forgets:
  assumes "redis_store R"
  shows "\<exists>w'. repo_delete_pipeline R pid w = (Inr (), w') \<and>
    (\<forall>p. get_config R p w' = (if p = pid then Inr None else fst (get_config R p w), w')) \<and>
    (\<forall>p. get_state R p w' = (if p = pid then Inr None else fst (get_state R p w), w')) \<and>
    (\<forall>u. r_get R (collection_counter_key u) w' = r_get R (collection_counter_key u) w)"
proof -
  from redis_store.repo_delete_pipeline_gone [OF assms] obtain w' where d: "repo_delete_pipeline R pid w = (Inr (), w')"
    "\<And>p. stored_config R w' p = (if p = pid then Inr None else stored_config R w p)"
    "\<And>p. stored_state R w' p = (if p = pid then Inr None else stored_state R w p)" by blast
  with redis_store.counter_frame(3) [OF assms d(1)] show ?thesis
    by (intro exI [of _ w']) (simp add: get_config_eq get_state_eq)
qed

end
