(* ===== verification/ClickHouse_Manager.thy ===== *)
theory ClickHouse_Manager
  imports Models
begin

text \<open>
  \<^verbatim>\<open>consumer_pool/app/clickhouse_manager.py\<close>: the connection manager, its reconnect-and-retry
  loop and its back-off. The ClickHouse server with its client library is the argument \<open>S\<close>: a
  record of calls over an abstract server state. The locale \<open>executor\<close> is what the sink uses of
  \<open>execute\<close>: a normal return is the normal return of the callback, run last, and whatever both
  connecting and the callback preserve survives any number of retries.
\<close>

section \<open>The server and the manager\<close>

record 'c clickhouse =
  ch_connect :: "('c, unit) io"
  ch_command :: "string \<Rightarrow> ('c, unit) io"
  ch_insert :: "string \<Rightarrow> string list \<Rightarrow> pyval list list \<Rightarrow> ('c, unit) io"
  ch_ping :: "('c, unit) io"
  ch_close :: "('c, unit) io"
  ch_now :: "'c \<Rightarrow> int"

record manager_config =
  max_retries :: nat
  base_backoff_s :: rat
  max_backoff_s :: rat

definition default_manager_config :: manager_config where
  "default_manager_config = \<lparr>max_retries = 6, base_backoff_s = 1, max_backoff_s = 60\<rparr>"

text \<open>\<open>slept\<close> records the arguments of \<open>asyncio.sleep\<close>, in order.\<close>

record 'c manager =
  server :: 'c
  connected :: bool
  slept :: "rat list"

text \<open>\<open>ConnectionError\<close>, \<open>TimeoutError\<close> and \<open>FileNotFoundError\<close> are subclasses of \<open>OSError\<close>.\<close>

fun retryable :: "exn \<Rightarrow> bool" where
  "retryable (ClickHouseError _) = True"
| "retryable (ConnectionError _) = True"
| "retryable (OSError _) = True"
| "retryable (TimeoutError _) = True"
| "retryable (FileNotFoundError _) = True"
| "retryable _ = False"

definition on_server :: "('c, 'a) io \<Rightarrow> ('c manager, 'a) io" where
  "on_server fn w = (case fn (server w) of (r, s) \<Rightarrow> (r, w\<lparr>server := s\<rparr>))"

definition do_connect :: "'c clickhouse \<Rightarrow> ('c manager, unit) io" where
  "do_connect S = on_server (ch_connect S)"

definition manager_connect :: "'c clickhouse \<Rightarrow> ('c manager, unit) io" where
  "manager_connect S = bind_io (do_connect S) (\<lambda>_ w. (Inr (), w\<lparr>connected := True\<rparr>))"

definition get_client :: "'c clickhouse \<Rightarrow> ('c manager, unit) io" where
  "get_client S w = (if connected w then (Inr (), w) else manager_connect S w)"

text \<open>
  The loop over \<open>range(max_retries + 1)\<close>, by the number of attempts left; \<open>last_exc\<close> is raised
  when none is left.
\<close>

fun execute_loop ::
  "'c clickhouse \<Rightarrow> manager_config \<Rightarrow> ('c, 'a) io \<Rightarrow> nat \<Rightarrow> rat \<Rightarrow> exn \<Rightarrow> ('c manager, 'a) io" where
  "execute_loop S cfg fn 0 backoff last_exc w = (Inl last_exc, w)"
| "execute_loop S cfg fn (Suc n) backoff last_exc w =
     (case bind_io (get_client S) (\<lambda>_. on_server fn) w of
        (Inr a, w') \<Rightarrow> (Inr a, w')
      | (Inl e, w') \<Rightarrow>
          if retryable e
          then let w1 = w'\<lparr>connected := False\<rparr>
               in if 0 < n
                  then execute_loop S cfg fn n (min (backoff * 2) (max_backoff_s cfg)) e
                         (w1\<lparr>slept := slept w1 @ [backoff]\<rparr>)
                  else execute_loop S cfg fn n backoff e w1
          else (Inl e, w'))"

definition execute :: "'c clickhouse \<Rightarrow> manager_config \<Rightarrow> ('c, 'a) io \<Rightarrow> ('c manager, 'a) io" where
  "execute S cfg fn =
     execute_loop S cfg fn (Suc (max_retries cfg)) (base_backoff_s cfg)
       (TypeError ''exceptions must derive from BaseException'')"

definition manager_ping :: "'c clickhouse \<Rightarrow> manager_config \<Rightarrow> ('c manager, bool) io" where
  "manager_ping S cfg w =
     (case execute S cfg (ch_ping S) w of (Inr _, w') \<Rightarrow> (Inr True, w') | (Inl _, w') \<Rightarrow> (Inr False, w'))"

definition manager_close :: "'c clickhouse \<Rightarrow> ('c manager, unit) io" where
  "manager_close S w =
     (if connected w
      then (case on_server (ch_close S) w of (_, w') \<Rightarrow> (Inr (), w'\<lparr>connected := False\<rparr>))
      else (Inr (), w))"

section \<open>Invariants across retries\<close>

definition keeps :: "('s \<Rightarrow> bool) \<Rightarrow> ('s, 'a) io \<Rightarrow> bool" where
  "keeps P m \<longleftrightarrow> (\<forall>s r s'. P s \<longrightarrow> m s = (r, s') \<longrightarrow> P s')"

lemma keepsI: "(\<And>s r s'. P s \<Longrightarrow> m s = (r, s') \<Longrightarrow> P s') \<Longrightarrow> keeps P m"
  by (simp add: keeps_def)

lemma keepsD: "keeps P m \<Longrightarrow> P s \<Longrightarrow> m s = (r, s') \<Longrightarrow> P s'"
  by (simp add: keeps_def)

lemma keeps_bind: "keeps P m \<Longrightarrow> (\<And>a. keeps P (k a)) \<Longrightarrow> keeps P (bind_io m k)"
proof (rule keepsI)
  fix s r s'
  assume m: "keeps P m" and k: "\<And>a. keeps P (k a)" and s: "P s" and eq: "bind_io m k s = (r, s')"
  obtain x t where x: "m s = (x, t)" by fastforce
  with m s have "P t" by (rule keepsD)
  with x eq k show "P s'" by (cases x) (auto simp: bind_io_def dest: keepsD)
qed

lemma keeps_on_server: "keeps P fn \<Longrightarrow> keeps (\<lambda>w. P (server w)) (on_server fn)"
  by (auto simp: keeps_def on_server_def split: prod.splits)

lemma keeps_get_client: "keeps P (ch_connect S) \<Longrightarrow> keeps (\<lambda>w. P (server w)) (get_client S)"
proof -
  assume "keeps P (ch_connect S)"
  then have "keeps (\<lambda>w. P (server w)) (manager_connect S)"
    unfolding manager_connect_def do_connect_def
    by (intro keeps_bind keeps_on_server) (auto simp: keeps_def)
  then show ?thesis by (auto simp: keeps_def get_client_def split: if_splits)
qed

lemma keeps_attempt:
  "keeps P (ch_connect S) \<Longrightarrow> keeps P fn \<Longrightarrow>
     keeps (\<lambda>w. P (server w)) (bind_io (get_client S) (\<lambda>_. on_server fn))"
  by (intro keeps_bind keeps_get_client keeps_on_server)

lemma keeps_execute_loop:
  assumes "keeps P (ch_connect S)" and "keeps P fn"
  shows "P (server w) \<Longrightarrow> execute_loop S cfg fn n b e w = (r, w') \<Longrightarrow> P (server w')"
proof (induction n arbitrary: b e w)
  case (Suc n)
  obtain r1 w1 where m: "bind_io (get_client S) (\<lambda>_. on_server fn) w = (r1, w1)" by fastforce
  with Suc.prems(1) keeps_attempt [OF assms] have P1: "P (server w1)" by (auto dest: keepsD)
  consider (again) x b' w2 where "execute_loop S cfg fn n b' x w2 = (r, w')" "server w2 = server w1"
    | (stop) "w' = w1"
    using Suc.prems(2) m by (cases r1) (force simp: Let_def split: if_splits)+
  then show ?case
  proof cases
    case again
    with P1 show ?thesis by (intro Suc.IH [of w2]) simp_all
  qed (simp add: P1)
qed simp

lemma execute_loop_Inr:
  assumes "keeps P (ch_connect S)" and "keeps P fn"
  shows "P (server w) \<Longrightarrow> execute_loop S cfg fn n b e w = (Inr a, w') \<Longrightarrow>
    (\<exists>s. P s \<and> fn s = (Inr a, server w')) \<and> connected w'"
proof (induction n arbitrary: b e w)
  case (Suc n)
  obtain r1 w1 where m: "bind_io (get_client S) (\<lambda>_. on_server fn) w = (r1, w1)" by fastforce
  with Suc.prems(1) keeps_attempt [OF assms] have P1: "P (server w1)" by (auto dest: keepsD)
  show ?case
  proof (cases r1)
    case (Inl x)
    with m Suc.prems(2) obtain x' b' w2
      where "execute_loop S cfg fn n b' x' w2 = (Inr a, w')" "server w2 = server w1"
      by (force simp: Let_def split: if_splits)
    with P1 show ?thesis by (intro Suc.IH [of w2]) simp_all
  next
    case (Inr x)
    with m Suc.prems have "x = a" "w1 = w'" by simp_all
    with m Inr obtain w0 where g: "get_client S w = (Inr (), w0)" and f: "on_server fn w0 = (Inr a, w')"
      by (auto simp: bind_io_eq_Inr)
    from g Suc.prems(1) keeps_get_client [OF assms(1)] have "P (server w0)" by (auto dest: keepsD)
    moreover from g have "connected w0"
      by (auto simp: get_client_def manager_connect_def bind_io_eq_Inr split: if_splits)
    ultimately show ?thesis using f by (auto simp: on_server_def split: prod.splits)
  qed
qed simp

section \<open>The interface of the sink\<close>

locale executor =
  fixes exec :: "('c, unit) io \<Rightarrow> ('w, unit) io"
    and conn :: "('c, unit) io"
    and srv :: "'w \<Rightarrow> 'c"
  assumes exec_Inr: "keeps P conn \<Longrightarrow> keeps P fn \<Longrightarrow> P (srv w) \<Longrightarrow> exec fn w = (Inr u, w') \<Longrightarrow>
      \<exists>s. P s \<and> fn s = (Inr u, srv w')"
    and exec_keeps: "keeps P conn \<Longrightarrow> keeps P fn \<Longrightarrow> P (srv w) \<Longrightarrow> exec fn w = (r, w') \<Longrightarrow> P (srv w')"
begin

text \<open>A monotone fact and the effect of a successful call, together.\<close>

lemma exec_establishes:
  assumes "keeps P conn" and "keeps P fn" and "P (srv w)" and "exec fn w = (Inr (), w')"
    and "\<And>s s'. P s \<Longrightarrow> fn s = (Inr (), s') \<Longrightarrow> Q s'"
  shows "P (srv w') \<and> Q (srv w')"
  using exec_Inr [OF assms(1-4)] exec_keeps [OF assms(1-4)] assms(5) by blast

end

interpretation mgr: executor "execute S cfg" "ch_connect S" server for S :: "'c clickhouse" and cfg
proof unfold_locales
  show "\<exists>s. P s \<and> fn s = (Inr u, server w')"
    if "keeps P (ch_connect S)" "keeps P fn" "P (server w)" "execute S cfg fn w = (Inr u, w')"
    for P fn w u w'
    using execute_loop_Inr [OF that(1,2) _ that(4) [unfolded execute_def]] that(3) by blast
  show "P (server w')"
    if "keeps P (ch_connect S)" "keeps P fn" "P (server w)" "execute S cfg fn w = (r, w')"
    for P fn w r w'
    using keeps_execute_loop [OF that(1,2) _ that(4) [unfolded execute_def]] that(3) by blast
qed

section \<open>How often, and how long\<close>

text \<open>The back-off before the \<open>i\<close>-th retry.\<close>

fun backoffs :: "manager_config \<Rightarrow> nat \<Rightarrow> rat \<Rightarrow> rat list" where
  "backoffs cfg 0 b = []"
| "backoffs cfg (Suc n) b = b # backoffs cfg n (min (b * 2) (max_backoff_s cfg))"

lemma length_backoffs [simp]: "length (backoffs cfg n b) = n"
  by (induction n arbitrary: b) auto

lemma slept_attempt:
  "bind_io (get_client S) (\<lambda>_. on_server fn) w = (r, w') \<Longrightarrow> slept w' = slept w"
  by (auto simp: bind_io_def get_client_def manager_connect_def do_connect_def on_server_def
      split: prod.splits sum.splits if_splits)

lemma execute_loop_slept:
  "execute_loop S cfg fn (Suc n) b e w = (r, w') \<Longrightarrow>
     \<exists>k \<le> n. slept w' = slept w @ take k (backoffs cfg n b) \<and>
       (\<forall>x. r = Inl x \<longrightarrow> retryable x \<longrightarrow> k = n \<and> \<not> connected w') \<and> ((\<exists>x. r = Inl x \<and> \<not> retryable x) \<or> k = n \<or> (\<exists>a. r = Inr a))"
proof (induction n arbitrary: b e w)
  case 0
  obtain r1 w1 where m: "bind_io (get_client S) (\<lambda>_. on_server fn) w = (r1, w1)" by fastforce
  with 0 slept_attempt [OF m] show ?case by (auto simp: Let_def split: sum.splits if_splits)
next
  case (Suc n)
  obtain r1 w1 where m: "bind_io (get_client S) (\<lambda>_. on_server fn) w = (r1, w1)" by fastforce
  show ?case
  proof (cases "\<exists>x. r1 = Inl x \<and> retryable x")
    case True
    then obtain x where x: "r1 = Inl x" "retryable x" by blast
    let ?b = "min (b * 2) (max_backoff_s cfg)"
    let ?w = "w1\<lparr>connected := False, slept := slept w1 @ [b]\<rparr>"
    from Suc.prems x m have "execute_loop S cfg fn (Suc n) ?b x ?w = (r, w')"
      by (simp add: Let_def)
    from Suc.IH [OF this] obtain k where k: "k \<le> n" "slept w' = slept ?w @ take k (backoffs cfg n ?b)"
      "\<forall>x. r = Inl x \<longrightarrow> retryable x \<longrightarrow> k = n \<and> \<not> connected w'"
      "(\<exists>x. r = Inl x \<and> \<not> retryable x) \<or> k = n \<or> (\<exists>a. r = Inr a)"
      by blast
    then show ?thesis using slept_attempt [OF m] by (intro exI [of _ "Suc k"]) auto
  next
    case False
    then have "(r, w') = (r1, w1)" using Suc.prems m by (cases r1) auto
    with False slept_attempt [OF m] show ?thesis by (cases r1) (auto intro!: exI [of _ 0])
  qed
qed

lemma execute_slept:
  assumes "execute S cfg fn w = (r, w')"
  shows "\<exists>k \<le> max_retries cfg. slept w' = slept w @ take k (backoffs cfg (max_retries cfg) (base_backoff_s cfg)) \<and>
    (\<forall>x. r = Inl x \<longrightarrow> retryable x \<longrightarrow> k = max_retries cfg \<and> \<not> connected w')"
  using execute_loop_slept [OF assms [unfolded execute_def]]
  by blast

lemma sum_list_take_le: "(\<forall>x \<in> set xs. 0 \<le> x) \<Longrightarrow> sum_list (take k xs) \<le> (sum_list xs :: rat)"
proof -
  assume "\<forall>x \<in> set xs. 0 \<le> x"
  then have "0 \<le> sum_list (drop k xs)" by (intro sum_list_nonneg) (auto dest: in_set_dropD)
  moreover have "sum_list xs = sum_list (take k xs) + sum_list (drop k xs)"
    by (metis append_take_drop_id sum_list_append)
  ultimately show ?thesis by simp
qed

section \<open>Properties\<close>

text \<open>
  C34: with the default settings a call waits at most 63 seconds over at most six retries. A
  connection error is raised only after all six, with the waits 1, 2, 4, 8, 16 and 32 seconds,
  and leaves the manager disconnected, so that the next call reconnects.
\<close>

theorem execute_retry_budget:
  assumes "execute S default_manager_config fn w = (r, w')"
  shows "\<exists>ks. slept w' = slept w @ ks \<and> length ks \<le> 6 \<and> sum_list ks \<le> 63 \<and>
    (\<forall>x. r = Inl x \<longrightarrow> retryable x \<longrightarrow> ks = [1, 2, 4, 8, 16, 32] \<and> \<not> connected w')"
proof -
  have b: "backoffs default_manager_config 6 1 = [1, 2, 4, 8, 16, 32]"
    by (simp add: default_manager_config_def eval_nat_numeral)
  from execute_slept [OF assms] obtain k where "k \<le> 6" "slept w' = slept w @ take k [1, 2, 4, 8, 16, 32]"
    "\<forall>x. r = Inl x \<longrightarrow> retryable x \<longrightarrow> k = 6 \<and> \<not> connected w'"
    by (auto simp: default_manager_config_def b [unfolded default_manager_config_def])
  moreover have "sum_list (take k [1, 2, 4, 8, 16, 32]) \<le> (63 :: rat)"
    using sum_list_take_le [of "[1, 2, 4, 8, 16, 32]" k] by simp
  ultimately show ?thesis by (intro exI [of _ "take k [1, 2, 4, 8, 16, 32]"]) auto
qed

text \<open>A server that refuses every connection, counting the attempts.\<close>

definition refusing_server :: "nat clickhouse" where
  "refusing_server = \<lparr>ch_connect = (\<lambda>n. (Inl (ConnectionError ''refused''), Suc n)),
     ch_command = (\<lambda>_. ret_io ()), ch_insert = (\<lambda>_ _ _. ret_io ()), ch_ping = ret_io (),
     ch_close = ret_io (), ch_now = int\<rparr>"

lemma execute_retry_budget_witness:
  "\<exists>w'. execute refusing_server default_manager_config (ret_io ()) \<lparr>server = 0, connected = False, slept = []\<rparr>
      = (Inl (ConnectionError ''refused''), w') \<and> server w' = 7 \<and> slept w' = [1, 2, 4, 8, 16, 32]"
proof -
  obtain w' where w: "execute refusing_server default_manager_config (ret_io ()) \<lparr>server = 0, connected = False, slept = []\<rparr>
      = (Inl (ConnectionError ''refused''), w')" and "server w' = 7"
    by (simp add: execute_def default_manager_config_def refusing_server_def bind_io_def get_client_def
        manager_connect_def do_connect_def on_server_def Let_def eval_nat_numeral)
  with execute_retry_budget [OF w] show ?thesis by auto
qed

text \<open>
  A call that returns did what was asked: its result is that of the callback, run last on
  a live connection, with the server in the state the callback left.
\<close>

lemma execute_success:
  assumes "execute S cfg fn w = (Inr a, w')"
  shows "(\<exists>s. fn s = (Inr a, server w')) \<and> connected w'"
  using execute_loop_Inr [where P = "\<lambda>_. True", OF _ _ TrueI assms [unfolded execute_def]]
  by (simp add: keeps_def)

end
