(* ===== verification/Rows.thy ===== *)
theory Rows
  imports Models
begin

text \<open>
  \<^verbatim>\<open>consumer_pool/app/rows.py\<close>: a Telegraf message becomes a ClickHouse row against the
  declared schema, or raises. The lemmas fix the columns of a row, the range of its event
  time down to the rounding of the double division, the types of its two value cells, and
  which exceptions the conversion can raise.
\<close>

section \<open>The conversion\<close>

definition EARLIEST_PLAUSIBLE :: int where
  "EARLIEST_PLAUSIBLE = 978307200 * 10 ^ 6"

definition FUTURE_TOLERANCE_S :: int where
  "FUTURE_TOLERANCE_S = 86400"

text \<open>
  \<open>datetime.fromtimestamp(t, tz=timezone.utc)\<close> in microseconds: the fraction of a second is
  scaled in double precision and rounded half to even; years outside 1 to 9999 raise.
\<close>

definition fromtimestamp :: "pyfloat \<Rightarrow> int result" where
  "fromtimestamp f =
     (case f of
        NaN \<Rightarrow> Inl (ValueError ''cannot convert float NaN to integer'')
      | PInf \<Rightarrow> Inl (OverflowError ''cannot convert float infinity to integer'')
      | NInf \<Rightarrow> Inl (OverflowError ''cannot convert float infinity to integer'')
      | Fin t \<Rightarrow>
          let i = trunc t;
              us = i * 10 ^ 6 + round_half_even (fl ((t - of_int i) * 10 ^ 6));
              secs = us div 10 ^ 6
          in if secs < - 62135596800 \<or> 253402300799 < secs
             then Inl (ValueError ''year is out of range'') else Inr us)"

fun timestamp_error :: "exn \<Rightarrow> bool" where
  "timestamp_error (TypeError _) = True"
| "timestamp_error (ValueError _) = True"
| "timestamp_error (OSError _) = True"
| "timestamp_error (OverflowError _) = True"
| "timestamp_error _ = False"

definition wrap_timestamp_error :: "exn \<Rightarrow> exn" where
  "wrap_timestamp_error e =
     (if timestamp_error e then RecordError (''unusable timestamp: '' @ exn_str e) else e)"

definition event_time :: "int \<Rightarrow> (string \<times> pyval) list \<Rightarrow> int result" where
  "event_time now message =
     (case dict_get message ''timestamp'' of
        None \<Rightarrow> Inl (RecordError ''message has no timestamp'')
      | Some VNone \<Rightarrow> Inl (RecordError ''message has no timestamp'')
      | Some raw \<Rightarrow>
          (case py_float raw of
             Inl e \<Rightarrow> Inl (wrap_timestamp_error e)
           | Inr f \<Rightarrow>
               (case fromtimestamp (float_div f 1000) of
                  Inl e \<Rightarrow> Inl (wrap_timestamp_error e)
                | Inr t \<Rightarrow>
                    if t < EARLIEST_PLAUSIBLE
                    then Inl (RecordError ''timestamp resolves to an implausibly old time: expects milliseconds (json_timestamp_units)'')
                    else if FUTURE_TOLERANCE_S * 10 ^ 6 < t - now
                    then Inl (RecordError ''timestamp resolves to more than a day in the future'')
                    else Inr t)))"

definition split_value :: "(pyval \<Rightarrow> string) \<Rightarrow> pyval \<Rightarrow> (pyval \<times> pyval) result" where
  "split_value rp v =
     (case v of
        VNone \<Rightarrow> Inr (VNone, VNone)
      | VBool b \<Rightarrow> Inr (VNone, VStr (py_str rp v))
      | VInt n \<Rightarrow> (case float_of_int n of Inl e \<Rightarrow> Inl e | Inr f \<Rightarrow> Inr (VFloat f, VNone))
      | VFloat f \<Rightarrow> Inr (VFloat f, VNone)
      | _ \<Rightarrow> Inr (VNone, VStr (py_str rp v)))"

definition DEFAULTS :: "(string \<times> pyval) list" where
  "DEFAULTS = [(''Int64'', VInt 0), (''String'', VStr ''''), (''LowCardinality(String)'', VStr '''')]"

text \<open>\<open>message.get(k) or {}\<close>.\<close>

definition get_or_empty :: "(string \<times> pyval) list \<Rightarrow> string \<Rightarrow> pyval" where
  "get_or_empty d k =
     (case dict_get d k of None \<Rightarrow> VDict [] | Some v \<Rightarrow> if py_truthy v then v else VDict [])"

definition row_source ::
  "int \<Rightarrow> int \<Rightarrow> pyval \<times> pyval \<Rightarrow> (string \<times> pyval) list \<Rightarrow> (string \<times> pyval) list \<Rightarrow> pipeline_config
     \<Rightarrow> (string \<times> pyval) list" where
  "row_source ingested t vs tags fds c =
     dict_merge (dict_merge tags fds)
       [(''event_time'', VTime t), (''value'', fst vs), (''value_text'', snd vs),
        (''ingested_at'', VTime ingested),
        (''pipeline_id'', (case dict_get tags ''pipeline_id'' of None \<Rightarrow> VStr (pipeline_id c) | Some v \<Rightarrow> v))]"

definition fill_column :: "(string \<times> pyval) list \<Rightarrow> string \<Rightarrow> string \<Rightarrow> pyval" where
  "fill_column source column ch_type =
     (case dict_get source column of
        Some v \<Rightarrow> v
      | None \<Rightarrow>
          if startswith ch_type ''Nullable'' then VNone
          else (case dict_get DEFAULTS ch_type of Some v \<Rightarrow> v | None \<Rightarrow> VStr ''''))"

definition build_row :: "(string \<times> pyval) list \<Rightarrow> (string \<times> string) list \<Rightarrow> (string \<times> pyval) list" where
  "build_row source schema = map (\<lambda>(column, ch_type). (column, fill_column source column ch_type)) schema"

text \<open>
  The two readings of the clock, \<open>now\<close> in the future check and \<open>ingested\<close> for the row, are
  arguments.
\<close>

definition to_row ::
  "(pyval \<Rightarrow> string) \<Rightarrow> int \<Rightarrow> int \<Rightarrow> pyval \<Rightarrow> pipeline_config \<Rightarrow> (string \<times> pyval) list result" where
  "to_row rp now ingested message c =
     (case message of
        VDict d \<Rightarrow>
          (case (get_or_empty d ''tags'', get_or_empty d ''fields'') of
             (VDict tags, VDict fds) \<Rightarrow>
               (case event_time now d of
                  Inl e \<Rightarrow> Inl e
                | Inr t \<Rightarrow>
                    (case split_value rp (case dict_get fds ''value'' of None \<Rightarrow> VNone | Some v \<Rightarrow> v) of
                       Inl e \<Rightarrow> Inl e
                     | Inr vs \<Rightarrow>
                         Inr (build_row (row_source ingested t vs tags fds c) (table_schema c))))
           | _ \<Rightarrow> Inl (RecordError ''tags and fields must both be objects''))
      | _ \<Rightarrow> Inl (RecordError ''expected a JSON object''))"

section \<open>Which columns, which cells\<close>

lemma to_row_InrE:
  assumes "to_row rp now ing message c = Inr row"
  obtains d tags fds t vs where "message = VDict d"
    and "event_time now d = Inr t"
    and "split_value rp (case dict_get fds ''value'' of None \<Rightarrow> VNone | Some v \<Rightarrow> v) = Inr vs"
    and "row = build_row (row_source ing t vs tags fds c) (table_schema c)"
  using assms by (auto simp: to_row_def Let_def split: pyval.splits sum.splits)

lemma to_row_columns:
  "to_row rp now ing message c = Inr row \<Longrightarrow> map fst row = map fst (table_schema c)"
  by (erule to_row_InrE) (auto simp: build_row_def case_prod_beta)

lemma split_value_cells:
  "split_value rp v = Inr (a, b) \<Longrightarrow>
     (a = VNone \<or> b = VNone) \<and> (a = VNone \<or> (\<exists>f. a = VFloat f)) \<and> (b = VNone \<or> (\<exists>s. b = VStr s))"
  by (auto simp: split_value_def split: pyval.splits sum.splits)

lemma dict_get_row_source:
  "dict_get (row_source ing t vs tags fds c) ''event_time'' = Some (VTime t)"
  "dict_get (row_source ing t vs tags fds c) ''value'' = Some (fst vs)"
  "dict_get (row_source ing t vs tags fds c) ''value_text'' = Some (snd vs)"
  "dict_get (row_source ing t vs tags fds c) ''ingested_at'' = Some (VTime ing)"
  by (simp_all add: row_source_def dict_get_merge) (simp_all add: dict_get_def)

lemma map_of_build_row:
  "map_of (build_row source schema) k = map_option (fill_column source k) (map_of schema k)"
  unfolding build_row_def by (induction schema) auto

lemma to_row_cells:
  assumes "to_row rp now ing message c = Inr row"
  obtains d t a b where "message = VDict d" and "event_time now d = Inr t"
    and "\<And>ty. map_of (table_schema c) ''event_time'' = Some ty \<Longrightarrow> map_of row ''event_time'' = Some (VTime t)"
    and "\<And>ty. map_of (table_schema c) ''value'' = Some ty \<Longrightarrow> map_of row ''value'' = Some a"
    and "\<And>ty. map_of (table_schema c) ''value_text'' = Some ty \<Longrightarrow> map_of row ''value_text'' = Some b"
    and "(a = VNone \<or> b = VNone) \<and> (a = VNone \<or> (\<exists>f. a = VFloat f)) \<and> (b = VNone \<or> (\<exists>s. b = VStr s))"
proof -
  from assms obtain d tags fds t vs where d: "message = VDict d" "event_time now d = Inr t"
    and vs: "split_value rp (case dict_get fds ''value'' of None \<Rightarrow> VNone | Some v \<Rightarrow> v) = Inr vs"
    and row: "row = build_row (row_source ing t vs tags fds c) (table_schema c)"
    by (rule to_row_InrE)
  from vs have "(fst vs = VNone \<or> snd vs = VNone) \<and> (fst vs = VNone \<or> (\<exists>f. fst vs = VFloat f)) \<and>
      (snd vs = VNone \<or> (\<exists>s. snd vs = VStr s))"
    by (intro split_value_cells) simp
  then show ?thesis
    by (intro that [of d t "fst vs" "snd vs"])
      (simp_all add: d row map_of_build_row fill_column_def dict_get_row_source)
qed

section \<open>Which exceptions\<close>

lemma split_value_Inl:
  "split_value rp v = Inl e \<longleftrightarrow> (\<exists>n. v = VInt n \<and> float_of_int n = Inl e)"
  by (auto simp: split_value_def split: pyval.splits sum.splits)

lemma float_of_str_Inl: "float_of_str s = Inl e \<Longrightarrow> timestamp_error e"
  by (auto simp: float_of_str_def Let_def split: prod.splits if_splits option.splits)

lemma float_of_int_Inl: "float_of_int n = Inl e \<Longrightarrow> timestamp_error e"
  by (auto simp: float_of_int_def split: if_splits)

lemma py_float_Inl: "py_float v = Inl e \<Longrightarrow> timestamp_error e"
  by (cases v) (auto simp: float_of_int_Inl float_of_str_Inl)

lemma fromtimestamp_Inl: "fromtimestamp f = Inl e \<Longrightarrow> timestamp_error e"
  by (auto simp: fromtimestamp_def Let_def split: pyfloat.splits if_splits)

lemma event_time_Inl: "event_time now d = Inl e \<Longrightarrow> \<exists>m. e = RecordError m"
  by (auto simp: event_time_def wrap_timestamp_error_def dest: float_of_int_Inl float_of_str_Inl fromtimestamp_Inl
      split: option.splits pyval.splits sum.splits if_splits)

lemma event_time_Inr:
  "event_time now d = Inr t \<Longrightarrow> EARLIEST_PLAUSIBLE \<le> t \<and> t \<le> now + FUTURE_TOLERANCE_S * 10 ^ 6"
  by (auto simp: event_time_def split: option.splits pyval.splits sum.splits if_splits)

lemma to_row_Inl:
  assumes "to_row rp now ing message c = Inl e"
  shows "(\<exists>m. e = RecordError m) \<or>
    (\<exists>d fds n. message = VDict d \<and> get_or_empty d ''fields'' = VDict fds \<and>
       dict_get fds ''value'' = Some (VInt n) \<and> overflows (of_int n))"
proof -
  have ov: "overflows (of_int n)" if "float_of_int n = Inl e" for n e
    using that by (auto simp: float_of_int_def split: if_splits)
  from assms show ?thesis
    by (auto simp: to_row_def Let_def split_value_Inl dest: event_time_Inl ov
        split: pyval.splits sum.splits option.splits)
qed

section \<open>Millisecond timestamps are exact\<close>

text \<open>
  Below \<open>2 ^ 33\<close> seconds (the year 2242) the rounding of \<open>n / 1000\<close> to a double and of its
  fraction to microseconds loses nothing.
\<close>

definition MS_EXACT :: int where
  "MS_EXACT = 1000 * 2 ^ 33"

lemma overflows_small: "\<bar>x\<bar> < pow2 k \<Longrightarrow> - 1021 \<le> k \<Longrightarrow> k \<le> 1000 \<Longrightarrow> \<not> overflows x"
proof -
  assume x: "\<bar>x\<bar> < pow2 k" and k: "- 1021 \<le> k" "k \<le> 1000"
  have "\<bar>fl x\<bar> \<le> \<bar>x\<bar> + pow2 (k - 54)" using fl_err [OF x k(1)] by linarith
  also have "pow2 (k - 54) \<le> pow2 k" by (rule pow2_mono) simp
  finally have "\<bar>fl x\<bar> < pow2 k + pow2 k" using x by linarith
  also have "\<dots> = pow2 (k + 1)" by (simp add: pow2_Suc)
  also have "\<dots> \<le> pow2 1024" using k by (intro pow2_mono) simp
  finally show ?thesis by (simp add: overflows_def)
qed

lemma trunc_eq: "0 \<le> i \<Longrightarrow> of_int i \<le> x \<Longrightarrow> x < of_int i + 1 \<Longrightarrow> trunc x = i"
proof -
  assume i: "0 \<le> i" and x: "of_int i \<le> x" "x < of_int i + 1"
  from i have "(0 :: rat) \<le> of_int i" by simp
  with x have "0 \<le> x" by linarith
  with x show "trunc x = i" by (simp add: trunc_def floor_eq_iff)
qed

text \<open>The fraction: an error of \<open>2 ^ -21\<close> seconds stays below half a microsecond.\<close>

lemma fraction_rounds:
  assumes r: "0 \<le> r" "r < 1000" and f: "\<bar>f - of_int r / 1000\<bar> \<le> pow2 (- 21)"
  shows "round_half_even (fl (f * 10 ^ 6)) = r * 1000"
proof (rule round_half_even_eq)
  have p: "pow2 (- 21) * 10 ^ 6 \<le> (12 / 25 :: rat)" "pow2 (20 - 54) \<le> (1 / 100 :: rat)"
    by (simp_all add: pow2_def)
  have "f * 10 ^ 6 - of_int (r * 1000) = (f - of_int r / 1000) * 10 ^ 6" by (simp add: field_simps)
  then have "\<bar>f * 10 ^ 6 - of_int (r * 1000)\<bar> = \<bar>f - of_int r / 1000\<bar> * 10 ^ 6"
    by (simp only: abs_mult) simp
  also have "\<dots> \<le> pow2 (- 21) * 10 ^ 6" using f by (intro mult_right_mono) simp_all
  finally have a: "\<bar>f * 10 ^ 6 - of_int (r * 1000)\<bar> \<le> 12 / 25" using p(1) by linarith
  have "(of_int (r * 1000) :: rat) \<le> of_int 999000" "(0 :: rat) \<le> of_int (r * 1000)"
    using r by (simp_all only: of_int_le_iff of_int_0_le_iff)
  with a have "\<bar>f * 10 ^ 6\<bar> \<le> 1000000" unfolding of_int_numeral by linarith
  then have "\<bar>f * 10 ^ 6\<bar> < pow2 20" by (simp add: pow2_def)
  then have "\<bar>fl (f * 10 ^ 6) - f * 10 ^ 6\<bar> \<le> pow2 (20 - 54)" by (rule fl_err) simp
  with a p(2) show "\<bar>fl (f * 10 ^ 6) - of_int (r * 1000)\<bar> < 1 / 2" by linarith
qed

lemma seconds_of_ms:
  assumes n: "0 \<le> n" "n < MS_EXACT"
  defines "d \<equiv> fl (of_int n / 1000)"
  shows "trunc d = n div 1000" and "\<bar>d - of_int (n div 1000) - of_int (n mod 1000) / 1000\<bar> \<le> pow2 (- 21)"
proof -
  define i where "i = n div 1000"
  define r where "r = n mod 1000"
  have nir: "n = i * 1000 + r" and r: "0 \<le> r" "r < 1000" and i: "0 \<le> i"
    using n by (simp_all add: i_def r_def)
  have x: "of_int n / 1000 = (of_int i + of_int r / 1000 :: rat)" by (simp add: nir field_simps)
  have "i < 2 ^ 33" using n nir r by (simp add: MS_EXACT_def)
  then have "(of_int i :: rat) \<le> of_int (2 ^ 33 - 1)" by (simp only: of_int_le_iff)
  moreover have r': "(of_int r :: rat) \<le> of_int 999" "(0 :: rat) \<le> of_int r"
    using r by (simp_all only: of_int_le_iff of_int_0_le_iff)
  moreover have "(0 :: rat) \<le> of_int i" using i by simp
  ultimately have "\<bar>of_int n / 1000\<bar> < pow2 33" by (simp add: x pow2_def)
  then have err: "\<bar>d - of_int n / 1000\<bar> \<le> pow2 (33 - 54)" unfolding d_def by (rule fl_err) simp
  then show "\<bar>d - of_int (n div 1000) - of_int (n mod 1000) / 1000\<bar> \<le> pow2 (- 21)"
    by (simp add: x i_def [symmetric] r_def [symmetric] algebra_simps)
  have "of_int i \<le> d \<and> d < of_int i + 1"
  proof (cases "r = 0")
    case True
    then have "of_int n / 1000 = (of_int i :: rat)" using x by simp
    moreover have "fl (of_int i) = of_int i" using i \<open>i < 2 ^ 33\<close> by (intro fl_of_int) simp
    ultimately show ?thesis by (simp add: d_def)
  next
    case False
    then have "(of_int 1 :: rat) \<le> of_int r" using r by (simp only: of_int_le_iff)
    with r' have "1 / 1000 \<le> (of_int r / 1000 :: rat)" "(of_int r / 1000 :: rat) \<le> 999 / 1000"
      by simp_all
    moreover have "pow2 (33 - 54) < 1 / 1000" by (simp add: pow2_def)
    ultimately show ?thesis using err x by linarith
  qed
  then show "trunc d = n div 1000" using i trunc_eq by (simp add: i_def)
qed

lemma fromtimestamp_ms:
  assumes n: "0 \<le> n" "n < MS_EXACT"
  shows "fromtimestamp (float_div (Fin (of_int n)) 1000) = Inr (n * 1000)"
proof -
  have "(of_int n :: rat) < of_int MS_EXACT" "(0 :: rat) \<le> of_int n" using n by simp_all
  then have "\<bar>of_int n / 1000\<bar> < pow2 34" by (simp add: pow2_def MS_EXACT_def)
  then have "\<not> overflows (of_int n / 1000)" by (rule overflows_small) simp_all
  moreover have "round_half_even (fl ((fl (of_int n / 1000) - of_int (n div 1000)) * 10 ^ 6)) = n mod 1000 * 1000"
    using seconds_of_ms(2) [OF n] by (intro fraction_rounds) simp_all
  moreover have "n div 1000 * 10 ^ 6 + n mod 1000 * 1000 = n * 1000"
    by simp presburger
  moreover have "0 \<le> n * 1000 div 10 ^ 6" "n * 1000 div 10 ^ 6 \<le> 2 ^ 33"
    using n by (simp_all add: MS_EXACT_def)
  ultimately show ?thesis
    by (simp add: fromtimestamp_def to_double_def Let_def seconds_of_ms(1) [OF n])
qed

lemma float_of_int_ms: "0 \<le> n \<Longrightarrow> n < MS_EXACT \<Longrightarrow> float_of_int n = Inr (Fin (of_int n))"
proof -
  assume n: "0 \<le> n" "n < MS_EXACT"
  then have "(of_int n :: rat) < of_int MS_EXACT" by simp
  then have "\<bar>of_int n :: rat\<bar> < pow2 43" using n by (simp add: pow2_def MS_EXACT_def)
  then have "\<not> overflows (of_int n)" by (rule overflows_small) simp_all
  moreover have "fl (of_int n) = of_int n" using n by (intro fl_of_int) (simp add: MS_EXACT_def)
  ultimately show ?thesis by (simp add: float_of_int_def)
qed

lemma event_time_ms:
  assumes "dict_get d ''timestamp'' = Some (VInt n)" and "0 \<le> n" and "n < MS_EXACT"
  shows "event_time now d =
    (if n * 1000 < EARLIEST_PLAUSIBLE
     then Inl (RecordError ''timestamp resolves to an implausibly old time: expects milliseconds (json_timestamp_units)'')
     else if FUTURE_TOLERANCE_S * 10 ^ 6 < n * 1000 - now
     then Inl (RecordError ''timestamp resolves to more than a day in the future'')
     else Inr (n * 1000))"
  using assms by (simp add: event_time_def float_of_int_ms fromtimestamp_ms del: float_div.simps)

section \<open>A sample message\<close>

definition sample_time :: int where
  "sample_time = 1700000000000000"

definition sample_message :: "pyval \<Rightarrow> pyval" where
  "sample_message v = VDict [(''timestamp'', VInt 1700000000000), (''fields'', VDict [(''value'', v)])]"

lemma event_time_sample:
  "sample_time \<le> now \<Longrightarrow>
     event_time now [(''timestamp'', VInt 1700000000000), (''fields'', fds)] = Inr sample_time"
  by (subst event_time_ms [where n = 1700000000000])
    (simp_all add: MS_EXACT_def sample_time_def dict_get_def EARLIEST_PLAUSIBLE_def FUTURE_TOLERANCE_S_def)

lemma to_row_sample:
  "sample_time \<le> now \<Longrightarrow> to_row rp now ing (sample_message v) sample_config =
     (case split_value rp v of Inl e \<Rightarrow> Inl e
      | Inr vs \<Rightarrow> Inr [(''event_time'', VTime sample_time), (''value'', fst vs)])"
  by (simp add: to_row_def sample_message_def sample_schema get_or_empty_def dict_get_def
      event_time_sample build_row_def row_source_def dict_merge_def fill_column_def split: sum.splits)

section \<open>Properties\<close>

text \<open>
  C32: a row that is built holds one value for each column of the declared schema, in its
  order. The event time lies between 2001 and one day after the clock; a numeric value is in
  \<open>value\<close>, any other in \<open>value_text\<close>, and at least one of the two cells is NULL.
\<close>

theorem to_row_matches_schema:
  assumes "to_row rp now ing message c = Inr row"
    and "set [''event_time'', ''value'', ''value_text''] \<subseteq> set (map fst (table_schema c))"
  shows "map fst row = map fst (table_schema c) \<and>
    (\<exists>t a b. map_of row ''event_time'' = Some (VTime t) \<and>
       map_of row ''value'' = Some a \<and> map_of row ''value_text'' = Some b \<and>
       EARLIEST_PLAUSIBLE \<le> t \<and> t \<le> now + FUTURE_TOLERANCE_S * 10 ^ 6 \<and>
       (a = VNone \<or> (\<exists>f. a = VFloat f) \<and> b = VNone) \<and> (b = VNone \<or> (\<exists>s. b = VStr s)))"
proof -
  have k: "\<exists>ty. map_of (table_schema c) x = Some ty" if "x \<in> set [''event_time'', ''value'', ''value_text'']" for x
  proof -
    have "x \<in> fst ` set (table_schema c)" using assms(2) that unfolding set_map by blast
    then show ?thesis by (metis map_of_eq_None_iff not_None_eq)
  qed
  then obtain ty1 ty2 ty3 where ty: "map_of (table_schema c) ''event_time'' = Some ty1"
    "map_of (table_schema c) ''value'' = Some ty2" "map_of (table_schema c) ''value_text'' = Some ty3"
    by (meson list.set_intros)
  obtain d t a b where e: "event_time now d = Inr t"
    and r: "map_of row ''event_time'' = Some (VTime t)" "map_of row ''value'' = Some a" "map_of row ''value_text'' = Some b"
    and ab: "(a = VNone \<or> b = VNone) \<and> (a = VNone \<or> (\<exists>f. a = VFloat f)) \<and> (b = VNone \<or> (\<exists>s. b = VStr s))"
    using ty by (rule_tac to_row_cells [OF assms(1)]) blast
  from ab have "(a = VNone \<or> (\<exists>f. a = VFloat f) \<and> b = VNone) \<and> (b = VNone \<or> (\<exists>s. b = VStr s))" by blast
  with e r event_time_Inr [OF e] to_row_columns [OF assms(1)] show ?thesis by blast
qed

lemma to_row_matches_schema_witness:
  "\<exists>row. to_row (\<lambda>_. []) sample_time 0 (sample_message (VInt 5)) (sample_config\<lparr>table_schema := DEFAULT_TABLE_SCHEMA\<rparr>) = Inr row \<and>
     map fst row = map fst DEFAULT_TABLE_SCHEMA"
proof -
  have "event_time sample_time [(''timestamp'', VInt 1700000000000), (''fields'', VDict [(''value'', VInt 5)])] = Inr sample_time"
    by (rule event_time_sample) simp
  then obtain row where r: "to_row (\<lambda>_. []) sample_time 0 (sample_message (VInt 5))
      (sample_config\<lparr>table_schema := DEFAULT_TABLE_SCHEMA\<rparr>) = Inr row"
    by (simp add: to_row_def sample_message_def get_or_empty_def dict_get_def split_value_def
        float_of_int_ms MS_EXACT_def)
  from to_row_matches_schema [OF r] r show ?thesis by (simp add: DEFAULT_TABLE_SCHEMA_def)
qed

text \<open>
  The only exception of the conversion is \<open>RecordError\<close>, which the sink dead-letters, but
  for one input: an integer value too large for a double, on which \<open>OverflowError\<close> escapes.
\<close>

lemma to_row_errors:
  assumes "to_row rp now ing message c = Inl e"
  shows "(\<exists>m. e = RecordError m) \<or>
    (\<exists>d fds n. message = VDict d \<and> get_or_empty d ''fields'' = VDict fds \<and>
       dict_get fds ''value'' = Some (VInt n) \<and> overflows (of_int n))"
  by (rule to_row_Inl [OF assms])

text \<open>
  C33: a millisecond timestamp from 2001 up to a day ahead of the clock becomes exactly its
  instant, although the code divides a double by 1000 and rounds twice.
\<close>

theorem event_time_exact:
  assumes "dict_get d ''timestamp'' = Some (VInt n)" and "EARLIEST_PLAUSIBLE \<le> n * 1000"
    and "n * 1000 \<le> now + FUTURE_TOLERANCE_S * 10 ^ 6" and "n < MS_EXACT"
  shows "event_time now d = Inr (n * 1000)"
  using assms by (subst event_time_ms [OF assms(1)]) (simp_all add: EARLIEST_PLAUSIBLE_def)

lemma event_time_exact_witness:
  "event_time 1759363200000000 [(''timestamp'', VInt 1759363199123)] = Inr 1759363199123000"
  using event_time_exact [of "[(''timestamp'', VInt 1759363199123)]" 1759363199123 1759363200000000]
  by (simp add: dict_get_def EARLIEST_PLAUSIBLE_def FUTURE_TOLERANCE_S_def MS_EXACT_def)

text \<open>
  A timestamp in seconds instead of milliseconds is rejected for every second of the
  years 1970 to 32970: Telegraf's default unit never reaches a table as a date in 1970.
\<close>

lemma event_time_seconds_rejected:
  assumes "dict_get d ''timestamp'' = Some (VInt n)" and "0 \<le> n" and "n < 978307200000"
  shows "\<exists>m. event_time now d = Inl (RecordError m)"
  using assms by (subst event_time_ms [OF assms(1,2)]) (simp_all add: EARLIEST_PLAUSIBLE_def MS_EXACT_def)

end
