(* ===== verification/Sink.thy ===== *)
theory Sink
  imports ClickHouse_Manager Rows
begin

text \<open>
  \<^verbatim>\<open>consumer_pool/app/sink.py\<close>: the write path of the shared pool. A batch is mapped
  record by record, inserted as a whole, on failure inserted record by record, and whatever
  could be neither mapped nor inserted is dead-lettered. The lemmas account for every record
  of a batch, say which exceptions leave the write path, and track the metrics.
\<close>

section \<open>State\<close>

record incoming_record =
  rec_value :: pyval
  rec_topic :: string
  rec_partition :: int
  rec_offset :: int
  rec_raw :: string

record write_result =
  written :: nat
  dead_lettered :: nat
  errors :: "string list"

text \<open>
  What a sink is built from: the server, the retry settings, the database name, and the text
  of Python values whose \<open>repr\<close> is not modelled.
\<close>

record 'c sink_env =
  clickhouse :: "'c clickhouse"
  mgr_config :: manager_config
  database :: string
  py_repr :: "pyval \<Rightarrow> string"

text \<open>The Prometheus gauges hold microseconds since 1970.\<close>

record 'c sink =
  sink_mgr :: "'c manager"
  known_tables :: "string list"
  rows_written_total :: "string \<Rightarrow> nat"
  dlq_rows_total :: "string \<Rightarrow> nat"
  last_event_timestamp :: "string \<Rightarrow> int option"
  last_write_timestamp :: "string \<Rightarrow> int option"

definition DLQ_COLUMNS :: "string list" where
  "DLQ_COLUMNS = [''pipeline_id'', ''topic'', ''partition'', ''offset'',
                  ''target_table'', ''error_message'', ''payload'']"

abbreviation sink_server :: "'c sink \<Rightarrow> 'c" where
  "sink_server w \<equiv> server (sink_mgr w)"

definition sink_now :: "'c sink_env \<Rightarrow> 'c sink \<Rightarrow> int" where
  "sink_now E w = ch_now (clickhouse E) (sink_server w)"

section \<open>Operations\<close>

definition sink_execute :: "'c sink_env \<Rightarrow> ('c, unit) io \<Rightarrow> ('c sink, unit) io" where
  "sink_execute E fn w =
     (case execute (clickhouse E) (mgr_config E) fn (sink_mgr w) of (r, m) \<Rightarrow> (r, w\<lparr>sink_mgr := m\<rparr>))"

definition ensure_dlq_table :: "'c sink_env \<Rightarrow> ('c sink, unit) io" where
  "ensure_dlq_table E =
     bind_io (sink_execute E (ch_command (clickhouse E) (create_database_ddl (database E)))) (\<lambda>_.
       sink_execute E (ch_command (clickhouse E) (create_dlq_table_ddl (database E))))"

definition ensure_table :: "'c sink_env \<Rightarrow> pipeline_config \<Rightarrow> ('c sink, string) io" where
  "ensure_table E c w =
     (case config_ch_unique_identifier c of
        Inl e \<Rightarrow> (Inl e, w)
      | Inr table \<Rightarrow>
          if table \<in> set (known_tables w) then (Inr table, w)
          else bind_io (sink_execute E (ch_command (clickhouse E) (create_database_ddl (database E)))) (\<lambda>_.
               bind_io (sink_execute E (case create_table_ddl (database E) c of
                          Inl e \<Rightarrow> raise_io e | Inr ddl \<Rightarrow> ch_command (clickhouse E) ddl)) (\<lambda>_ w.
               (Inr table, w\<lparr>known_tables := table # known_tables w\<rparr>))) w)"

text \<open>\<open>[row[c] for c in columns]\<close>.\<close>

fun row_values :: "(string \<times> pyval) list \<Rightarrow> string list \<Rightarrow> pyval list result" where
  "row_values row [] = Inr []"
| "row_values row (c # cs) =
     (case dict_get row c of
        None \<Rightarrow> Inl (KeyError c)
      | Some v \<Rightarrow> map_sum id (\<lambda>vs. v # vs) (row_values row cs))"

text \<open>One record against the schema: its values in column order.\<close>

definition record_values :: "'c sink_env \<Rightarrow> int \<Rightarrow> pipeline_config \<Rightarrow> incoming_record \<Rightarrow> pyval list result" where
  "record_values E now c r =
     (case to_row (py_repr E) now now (rec_value r) c of
        Inl e \<Rightarrow> Inl e | Inr row \<Rightarrow> row_values row (map fst (table_schema c)))"

text \<open>
  The first loop of \<open>write\<close>: rows and the records they came from, and the records that raised
  \<open>RecordError\<close>. Any other exception leaves the loop.
\<close>

fun map_records ::
  "'c sink_env \<Rightarrow> int \<Rightarrow> pipeline_config \<Rightarrow> incoming_record list \<Rightarrow>
     (pyval list list \<times> incoming_record list \<times> (incoming_record \<times> string) list) result" where
  "map_records E now c [] = Inr ([], [], [])"
| "map_records E now c (r # rs) =
     (case record_values E now c r of
        Inl (RecordError m) \<Rightarrow>
          map_sum id (\<lambda>(rows, keep, dead). (rows, keep, (r, ''map: '' @ m) # dead)) (map_records E now c rs)
      | Inl e \<Rightarrow> Inl e
      | Inr vs \<Rightarrow>
          map_sum id (\<lambda>(rows, keep, dead). (vs # rows, r # keep, dead)) (map_records E now c rs))"

definition sink_insert :: "'c sink_env \<Rightarrow> string \<Rightarrow> string list \<Rightarrow> pyval list list \<Rightarrow> ('c sink, unit) io" where
  "sink_insert E table columns rows =
     sink_execute E (ch_insert (clickhouse E) (database E @ ''.'' @ table) columns rows)"

definition insert_one :: "'c sink_env \<Rightarrow> string \<Rightarrow> pipeline_config \<Rightarrow> incoming_record \<Rightarrow> ('c sink, unit) io" where
  "insert_one E table c r w =
     (case record_values E (sink_now E w) c r of
        Inl e \<Rightarrow> (Inl e, w)
      | Inr vs \<Rightarrow> sink_insert E table (map fst (table_schema c)) [vs] w)"

fun insert_individually ::
  "'c sink_env \<Rightarrow> string \<Rightarrow> pipeline_config \<Rightarrow> incoming_record list \<Rightarrow> 'c sink \<Rightarrow>
     (nat \<times> (incoming_record \<times> string) list) \<times> 'c sink" where
  "insert_individually E table c [] w = ((0, []), w)"
| "insert_individually E table c (r # rs) w =
     (case insert_one E table c r w of
        (res, w1) \<Rightarrow>
          (case insert_individually E table c rs w1 of
             ((n, failed), w2) \<Rightarrow>
               (case res of
                  Inr _ \<Rightarrow> ((n + 1, failed), w2)
                | Inl e \<Rightarrow> ((n, (r, ''insert: '' @ exn_class e @ '': '' @ exn_str e) # failed), w2))))"

definition dlq_row :: "pipeline_config \<Rightarrow> string \<Rightarrow> incoming_record \<times> string \<Rightarrow> pyval list" where
  "dlq_row c table d =
     (case d of (r, reason) \<Rightarrow>
       [VStr (pipeline_id c), VStr (rec_topic r), VInt (rec_partition r), VInt (rec_offset r),
        VStr table, VStr (take 2000 reason), VStr (take 64000 (rec_raw r))])"

definition dead_letter ::
  "'c sink_env \<Rightarrow> string \<Rightarrow> (incoming_record \<times> string) list \<Rightarrow> pipeline_config \<Rightarrow> ('c sink, unit) io" where
  "dead_letter E table dead c =
     (let rows = map (dlq_row c table) dead in
      bind_io (sink_insert E DLQ_TABLE DLQ_COLUMNS rows) (\<lambda>_ w.
        (Inr (), w\<lparr>dlq_rows_total := (dlq_rows_total w)
           (pipeline_id c := dlq_rows_total w (pipeline_id c) + length rows)\<rparr>)))"

text \<open>The index of a name in a list, and the newest datetime of a column.\<close>

definition index_of :: "string \<Rightarrow> string list \<Rightarrow> nat" where
  "index_of x xs = length (takeWhile (\<lambda>y. y \<noteq> x) xs)"

fun cell_times :: "pyval list \<Rightarrow> int list" where
  "cell_times [] = []"
| "cell_times (VTime t # vs) = t # cell_times vs"
| "cell_times (_ # vs) = cell_times vs"

definition newest :: "nat \<Rightarrow> pyval list list \<Rightarrow> int option" where
  "newest i rows =
     (case cell_times (map (\<lambda>row. row ! i) rows) of [] \<Rightarrow> None | t # ts \<Rightarrow> Some (fold max ts t))"

definition record_freshness ::
  "'c sink_env \<Rightarrow> string \<Rightarrow> pyval list list \<Rightarrow> string list \<Rightarrow> 'c sink \<Rightarrow> 'c sink" where
  "record_freshness E pid rows columns w =
     (let w1 = w\<lparr>last_write_timestamp := (last_write_timestamp w)(pid := Some (sink_now E w))\<rparr>
      in if ''event_time'' \<notin> set columns then w1
         else case newest (index_of ''event_time'' columns) rows of
                None \<Rightarrow> w1
              | Some t \<Rightarrow> w1\<lparr>last_event_timestamp := (last_event_timestamp w1)(pid := Some t)\<rparr>)"

text \<open>The second block of \<open>write\<close>: the batch, or each record on its own.\<close>

definition insert_batch ::
  "'c sink_env \<Rightarrow> string \<Rightarrow> pipeline_config \<Rightarrow> pyval list list \<Rightarrow> incoming_record list \<Rightarrow> 'c sink \<Rightarrow>
     (nat \<times> (incoming_record \<times> string) list) \<times> 'c sink" where
  "insert_batch E table c rows keep w =
     (if rows = [] then ((0, []), w)
      else case sink_insert E table (map fst (table_schema c)) rows w of
             (Inr _, w1) \<Rightarrow> ((length rows, []), w1)
           | (Inl _, w1) \<Rightarrow> insert_individually E table c keep w1)"

definition finish_write ::
  "'c sink_env \<Rightarrow> string \<Rightarrow> pipeline_config \<Rightarrow> pyval list list \<Rightarrow> nat \<Rightarrow> (incoming_record \<times> string) list \<Rightarrow>
     ('c sink, write_result) io" where
  "finish_write E table c rows n dead =
     bind_io (if dead = [] then ret_io () else dead_letter E table dead c) (\<lambda>_ w.
       (Inr \<lparr>written = n, dead_lettered = length dead, errors = map snd (take 5 dead)\<rparr>,
        if n = 0 then w
        else record_freshness E (pipeline_id c) rows (map fst (table_schema c))
               (w\<lparr>rows_written_total := (rows_written_total w)
                   (pipeline_id c := rows_written_total w (pipeline_id c) + n)\<rparr>)))"

definition sink_write :: "'c sink_env \<Rightarrow> pipeline_config \<Rightarrow> incoming_record list \<Rightarrow> ('c sink, write_result) io" where
  "sink_write E c records =
     bind_io (ensure_table E c) (\<lambda>table w.
       case map_records E (sink_now E w) c records of
         Inl e \<Rightarrow> (Inl e, w)
       | Inr (rows, keep, dead) \<Rightarrow>
           (case insert_batch E table c rows keep w of
              ((n, failed), w1) \<Rightarrow> finish_write E table c rows n (dead @ failed) w1))"

section \<open>Counting\<close>

lemma row_values_of_to_row:
  assumes "to_row rp now ing m c = Inr row"
  shows "\<exists>vs. row_values row (map fst (table_schema c)) = Inr vs"
proof -
  have "\<exists>vs. row_values row cols = Inr vs" if "set cols \<subseteq> fst ` set row" for cols
    using that
  proof (induction cols)
    case (Cons x cols)
    then obtain vs v where "row_values row cols = Inr vs" "map_of row x = Some v"
      by (metis domIff dom_map_of_conv_image_fst insert_subset list.set(2) not_None_eq)
    then show ?case by (simp add: dict_get_def)
  qed simp
  moreover have "set (map fst (table_schema c)) \<subseteq> fst ` set row"
    using to_row_columns [OF assms] by (metis list.set_map order_refl)
  ultimately show ?thesis by blast
qed

lemma record_values_Inl:
  "record_values E now c r = Inl e \<longleftrightarrow> to_row (py_repr E) now now (rec_value r) c = Inl e"
  by (auto simp: record_values_def dest: row_values_of_to_row split: sum.splits)

definition mappable :: "'c sink_env \<Rightarrow> int \<Rightarrow> pipeline_config \<Rightarrow> incoming_record \<Rightarrow> bool" where
  "mappable E now c r \<longleftrightarrow> (case record_values E now c r of Inl _ \<Rightarrow> False | Inr _ \<Rightarrow> True)"

lemma map_records_Inr:
  "map_records E now c rs = Inr (rows, keep, dead) \<Longrightarrow>
     keep = filter (mappable E now c) rs \<and> map fst dead = filter (\<lambda>r. \<not> mappable E now c r) rs \<and>
     list_all2 (\<lambda>r vs. record_values E now c r = Inr vs) keep rows"
proof (induction rs arbitrary: rows keep dead)
  case (Cons r rs)
  then show ?case
    by (cases "map_records E now c rs"; cases "record_values E now c r")
      (auto simp: mappable_def split: exn.splits)
qed simp

lemma map_records_Inl:
  "map_records E now c rs = Inl e \<Longrightarrow>
     \<exists>r \<in> set rs. record_values E now c r = Inl e \<and> (\<forall>m. e \<noteq> RecordError m)"
proof (induction rs)
  case (Cons r rs)
  then show ?case
    by (cases "map_records E now c rs"; cases "record_values E now c r")
      (auto split: exn.splits)
qed simp

lemma map_records_raises:
  assumes "r \<in> set rs" and "record_values E now c r = Inl e" and "\<forall>m. e \<noteq> RecordError m"
  shows "\<exists>e'. map_records E now c rs = Inl e' \<and> (\<forall>m. e' \<noteq> RecordError m)"
  using assms(1)
proof (induction rs)
  case (Cons x xs)
  show ?case
  proof (cases "x = r")
    case True
    with assms(2,3) show ?thesis by (cases e) auto
  next
    case False
    with Cons obtain e' where "map_records E now c xs = Inl e'" "\<forall>m. e' \<noteq> RecordError m" by auto
    then show ?thesis by (cases "record_values E now c x") (auto split: exn.splits)
  qed
qed simp

lemma insert_individually_length:
  "insert_individually E table c rs w = ((n, failed), w') \<Longrightarrow> n + length failed = length rs"
proof (induction rs arbitrary: n failed w)
  case (Cons r rs)
  then show ?case by (auto split: prod.splits sum.splits)
qed simp

lemma insert_batch_length:
  assumes "insert_batch E table c rows keep w = ((n, failed), w')" and "length rows = length keep"
  shows "n + length failed = length keep"
  using assms by (auto simp: insert_batch_def dest: insert_individually_length
      split: if_splits prod.splits sum.splits)

lemma finish_write_Inr:
  "finish_write E table c rows n dead w = (Inr res, w') \<Longrightarrow>
     written res = n \<and> dead_lettered res = length dead \<and> errors res = map snd (take 5 dead)"
  by (auto simp: finish_write_def bind_io_eq_Inr)

lemma sink_write_InrE:
  assumes "sink_write E c records w = (Inr res, w')"
  obtains table w1 rows keep dead n failed w2
  where "ensure_table E c w = (Inr table, w1)"
    and "map_records E (sink_now E w1) c records = Inr (rows, keep, dead)"
    and "insert_batch E table c rows keep w1 = ((n, failed), w2)"
    and "finish_write E table c rows n (dead @ failed) w2 = (Inr res, w')"
proof -
  from assms obtain table w1 where t: "ensure_table E c w = (Inr table, w1)"
    and k: "(case map_records E (sink_now E w1) c records of Inl e \<Rightarrow> (Inl e, w1)
      | Inr (rows, keep, dead) \<Rightarrow> (case insert_batch E table c rows keep w1 of
          ((n, failed), w2) \<Rightarrow> finish_write E table c rows n (dead @ failed) w2)) = (Inr res, w')"
    unfolding sink_write_def by (rule bind_io_InrE)
  from k obtain rows keep dead where m: "map_records E (sink_now E w1) c records = Inr (rows, keep, dead)"
    by (cases "map_records E (sink_now E w1) c records") auto
  obtain n failed w2 where i: "insert_batch E table c rows keep w1 = ((n, failed), w2)"
    by (metis prod.exhaust)
  from k m i have "finish_write E table c rows n (dead @ failed) w2 = (Inr res, w')" by simp
  with t m i show ?thesis by (rule that)
qed

lemma length_filter_neg: "length (filter P xs) + length (filter (\<lambda>x. \<not> P x) xs) = length xs"
  by (induction xs) auto

lemma sink_write_count:
  assumes "sink_write E c records w = (Inr res, w')"
  shows "written res + dead_lettered res = length records"
proof -
  from assms obtain table w1 rows keep dead n failed w2
    where m: "map_records E (sink_now E w1) c records = Inr (rows, keep, dead)"
      and i: "insert_batch E table c rows keep w1 = ((n, failed), w2)"
      and f: "finish_write E table c rows n (dead @ failed) w2 = (Inr res, w')"
    by (rule sink_write_InrE)
  note k = map_records_Inr [OF m]
  then have "length rows = length keep" by (auto dest: list_all2_lengthD)
  with i have "n + length failed = length keep" by (rule insert_batch_length)
  moreover have "length keep + length dead = length records"
    using k length_filter_neg by (metis length_map)
  ultimately show ?thesis using finish_write_Inr [OF f] by simp
qed

section \<open>What every operation keeps\<close>

text \<open>
  \<open>P\<close> is a fact about the server that connecting, any command and an insert into a table of
  \<open>T\<close> keep, whatever they return.
\<close>

definition server_keeps :: "('c \<Rightarrow> bool) \<Rightarrow> 'c clickhouse \<Rightarrow> string set \<Rightarrow> bool" where
  "server_keeps P S T \<longleftrightarrow>
     keeps P (ch_connect S) \<and> (\<forall>q. keeps P (ch_command S q)) \<and>
     (\<forall>t \<in> T. \<forall>columns rows. keeps P (ch_insert S t columns rows))"

abbreviation sink_keeps :: "('c \<Rightarrow> bool) \<Rightarrow> ('c sink, 'a) io \<Rightarrow> bool" where
  "sink_keeps P \<equiv> keeps (\<lambda>w. P (sink_server w))"

lemma sink_execute_keeps:
  "keeps P (ch_connect (clickhouse E)) \<Longrightarrow> keeps P fn \<Longrightarrow> sink_keeps P (sink_execute E fn)"
  by (rule keepsI) (auto simp: sink_execute_def dest: mgr.exec_keeps split: prod.splits)

lemma sink_execute_establishes:
  assumes "keeps P (ch_connect (clickhouse E))" and "keeps P fn" and "P (sink_server w)"
    and "sink_execute E fn w = (Inr (), w')" and "\<And>s s'. P s \<Longrightarrow> fn s = (Inr (), s') \<Longrightarrow> Q s'"
  shows "P (sink_server w') \<and> Q (sink_server w')"
proof -
  from assms(4) obtain m where "execute (clickhouse E) (mgr_config E) fn (sink_mgr w) = (Inr (), m)"
    "w' = w\<lparr>sink_mgr := m\<rparr>"
    by (auto simp: sink_execute_def split: prod.splits)
  with mgr.exec_establishes [where Q = Q, OF assms(1,2,3) _ assms(5)] show ?thesis by simp
qed

lemma keeps_ret: "keeps P (ret_io a)" and keeps_raise: "keeps P (raise_io e)"
  by (simp_all add: keeps_def ret_io_def raise_io_def)

definition pool_keeps :: "('c \<Rightarrow> bool) \<Rightarrow> 'c sink_env \<Rightarrow> string \<Rightarrow> bool" where
  "pool_keeps P E table \<longleftrightarrow>
     server_keeps P (clickhouse E) {database E @ ''.'' @ table, database E @ ''.'' @ DLQ_TABLE}"

lemma pool_keepsD:
  assumes "pool_keeps P E table"
  shows "keeps P (ch_connect (clickhouse E))" and "keeps P (ch_command (clickhouse E) q)"
    and "keeps P (ch_insert (clickhouse E) (database E @ ''.'' @ table) cols rows)"
    and "keeps P (ch_insert (clickhouse E) (database E @ ''.'' @ DLQ_TABLE) cols rows)"
  using assms by (auto simp: pool_keeps_def server_keeps_def)

lemma keeps_command: "pool_keeps P E table \<Longrightarrow> sink_keeps P (sink_execute E (ch_command (clickhouse E) q))"
  by (intro sink_execute_keeps pool_keepsD)

lemma keeps_ensure_table:
  assumes k: "pool_keeps P E table"
  shows "sink_keeps P (ensure_table E c)"
proof -
  have ddl: "sink_keeps P (sink_execute E (case x of Inl e \<Rightarrow> raise_io e | Inr d \<Rightarrow> ch_command (clickhouse E) d))"
    for x :: "string result"
    by (cases x) (auto intro!: sink_execute_keeps pool_keepsD [OF k] keeps_raise)
  have "sink_keeps P (bind_io (sink_execute E (ch_command (clickhouse E) (create_database_ddl (database E)))) (\<lambda>_.
      bind_io (sink_execute E (case create_table_ddl (database E) c of
          Inl e \<Rightarrow> raise_io e | Inr ddl \<Rightarrow> ch_command (clickhouse E) ddl)) (\<lambda>_ w.
        (Inr t, w\<lparr>known_tables := t # known_tables w\<rparr>))))" for t
    by (intro keeps_bind keeps_command [OF k] ddl) (simp add: keeps_def)
  then show ?thesis by (auto simp: keeps_def ensure_table_def split: sum.splits if_splits)
qed

lemma keeps_insert:
  assumes k: "pool_keeps P E table"
  shows "sink_keeps P (sink_insert E table cols rows)" and "sink_keeps P (sink_insert E DLQ_TABLE cols rows)"
  unfolding sink_insert_def by (intro sink_execute_keeps pool_keepsD [OF k])+

lemma keeps_insert_one: "pool_keeps P E table \<Longrightarrow> sink_keeps P (insert_one E table c r)"
  using keeps_insert(1) [of P E table] by (auto simp: keeps_def insert_one_def split: sum.splits)

lemma keeps_insert_individually:
  assumes k: "pool_keeps P E table"
  shows "P (sink_server w) \<Longrightarrow> insert_individually E table c rs w = (x, w') \<Longrightarrow> P (sink_server w')"
proof (induction rs arbitrary: w x)
  case (Cons r rs)
  obtain res w1 where o1: "insert_one E table c r w = (res, w1)" by fastforce
  with keeps_insert_one [OF k] Cons.prems(1) have P1: "P (sink_server w1)" by (auto dest: keepsD)
  obtain n failed where "insert_individually E table c rs w1 = ((n, failed), w')"
    using Cons.prems(2) o1 by (auto split: prod.splits sum.splits)
  with P1 show ?case by (rule Cons.IH)
qed simp

lemma keeps_insert_batch:
  assumes k: "pool_keeps P E table"
    and "P (sink_server w)" and "insert_batch E table c rows keep w = (x, w')"
  shows "P (sink_server w')"
proof (cases "rows = []")
  case False
  obtain r w1 where i: "sink_insert E table (map fst (table_schema c)) rows w = (r, w1)" by fastforce
  with keeps_insert(1) [OF k] assms(2) have "P (sink_server w1)" by (auto dest: keepsD)
  with False assms(3) i show ?thesis
    by (cases r) (auto simp: insert_batch_def dest: keeps_insert_individually [OF k])
qed (use assms in \<open>simp add: insert_batch_def\<close>)

lemma keeps_dead_letter: "pool_keeps P E table \<Longrightarrow> sink_keeps P (dead_letter E table dead c)"
  unfolding dead_letter_def Let_def by (intro keeps_bind keeps_insert(2)) (auto simp: keeps_def)

lemma record_freshness_server: "sink_server (record_freshness E pid rows cols w) = sink_server w"
  by (simp add: record_freshness_def Let_def split: option.splits)

lemma keeps_finish_write: "pool_keeps P E table \<Longrightarrow> sink_keeps P (finish_write E table c rows n dead)"
  unfolding finish_write_def
proof (intro keeps_bind)
  show "pool_keeps P E table \<Longrightarrow> sink_keeps P (if dead = [] then ret_io () else dead_letter E table dead c)"
    by (simp add: keeps_ret keeps_dead_letter)
qed (auto simp: keeps_def record_freshness_server)

text \<open>A whole write keeps \<open>P\<close>, on the raising branches too.\<close>

lemma keeps_sink_write:
  assumes k: "\<And>table. config_ch_unique_identifier c = Inr table \<Longrightarrow>
      pool_keeps P E table"
    and P: "P (sink_server w)" and w: "sink_write E c records w = (r, w')"
  shows "P (sink_server w')"
proof (cases "config_ch_unique_identifier c")
  case (Inl e)
  with P w show ?thesis by (simp add: sink_write_def bind_io_def ensure_table_def)
next
  case (Inr table)
  note k = k [OF Inr]
  obtain t w1 where t: "ensure_table E c w = (t, w1)" by fastforce
  with P keeps_ensure_table [OF k] have P1: "P (sink_server w1)" by (auto dest: keepsD)
  have "table' = table" if "t = Inr table'" for table'
    using t Inr that by (auto simp: ensure_table_def bind_io_eq_Inr split: if_splits)
  then consider (raise) e where "t = Inl e" | (go) "t = Inr table" by (cases t) auto
  then show ?thesis
  proof cases
    case raise
    with t w P1 show ?thesis by (simp add: sink_write_def bind_io_def)
  next
    case go
    show ?thesis
    proof (cases "map_records E (sink_now E w1) c records")
      case (Inl e)
      with go t w P1 show ?thesis by (simp add: sink_write_def bind_io_def)
    next
      case (Inr x)
      obtain rows keep dead where x: "x = (rows, keep, dead)" by (cases x)
      obtain n failed w2 where i: "insert_batch E table c rows keep w1 = ((n, failed), w2)"
        by (metis prod.exhaust)
      with P1 have "P (sink_server w2)" by (rule keeps_insert_batch [OF k])
      moreover from go t w Inr x i have "finish_write E table c rows n (dead @ failed) w2 = (r, w')"
        by (simp add: sink_write_def bind_io_def)
      ultimately show ?thesis using keepsD [OF keeps_finish_write [OF k]] by blast
    qed
  qed
qed

section \<open>Every record ends somewhere\<close>

text \<open>
  What the code relies on ClickHouse for: an insert that returns has stored its rows, and no
  call removes a stored row. \<open>rows_of s t\<close> observes the rows of table \<open>t\<close>.
\<close>

definition durable :: "('c \<Rightarrow> string \<Rightarrow> pyval list list) \<Rightarrow> 'c clickhouse \<Rightarrow> bool" where
  "durable rows_of S \<longleftrightarrow>
     (\<forall>t columns rows s s'. ch_insert S t columns rows s = (Inr (), s') \<longrightarrow> set rows \<subseteq> set (rows_of s' t)) \<and>
     (\<forall>t v. server_keeps (\<lambda>s. v \<in> set (rows_of s t)) S UNIV)"

definition stored :: "('c \<Rightarrow> string \<Rightarrow> pyval list list) \<Rightarrow> 'c sink_env \<Rightarrow> string \<Rightarrow> 'c sink \<Rightarrow> pyval list \<Rightarrow> bool" where
  "stored rows_of E table w vs \<longleftrightarrow> vs \<in> set (rows_of (sink_server w) (database E @ ''.'' @ table))"

lemma server_keeps_mono: "server_keeps P S T \<Longrightarrow> U \<subseteq> T \<Longrightarrow> server_keeps P S U"
  by (auto simp: server_keeps_def)

lemma durable_pool_keeps:
  "durable rows_of (clickhouse E) \<Longrightarrow> pool_keeps (\<lambda>s. v \<in> set (rows_of s t)) E table"
  unfolding durable_def pool_keeps_def by (blast intro: server_keeps_mono)

lemma sink_insert_stores:
  assumes d: "durable rows_of (clickhouse E)" and i: "sink_insert E table columns rows w = (Inr (), w')"
    and v: "v \<in> set rows"
  shows "stored rows_of E table w' v"
proof -
  have "keeps (\<lambda>_. True) m" for m by (simp add: keeps_def)
  from sink_execute_establishes [where P = "\<lambda>_. True" and Q = "\<lambda>s. set rows \<subseteq> set (rows_of s (database E @ ''.'' @ table))",
      OF this this TrueI i [unfolded sink_insert_def]] d
  show ?thesis using v by (auto simp: durable_def stored_def)
qed

text \<open>A record whose row, at some reading of the clock, is stored in the pipeline's table.\<close>

definition landed :: "('c \<Rightarrow> string \<Rightarrow> pyval list list) \<Rightarrow> 'c sink_env \<Rightarrow> pipeline_config \<Rightarrow> string \<Rightarrow> 'c sink \<Rightarrow> incoming_record \<Rightarrow> bool" where
  "landed rows_of E c table w r \<longleftrightarrow>
     (\<exists>now vs. record_values E now c r = Inr vs \<and> stored rows_of E table w vs)"

definition in_dlq :: "('c \<Rightarrow> string \<Rightarrow> pyval list list) \<Rightarrow> 'c sink_env \<Rightarrow> pipeline_config \<Rightarrow> string \<Rightarrow> 'c sink \<Rightarrow> incoming_record \<Rightarrow> bool" where
  "in_dlq rows_of E c table w r \<longleftrightarrow> (\<exists>reason. stored rows_of E DLQ_TABLE w (dlq_row c table (r, reason)))"

lemma insert_individually_lands:
  assumes d: "durable rows_of (clickhouse E)"
  shows "insert_individually E table c rs w = ((n, failed), w') \<Longrightarrow> r \<in> set rs \<Longrightarrow>
    landed rows_of E c table w' r \<or> r \<in> fst ` set failed"
proof (induction rs arbitrary: n failed w)
  case (Cons x xs)
  obtain res w1 where o1: "insert_one E table c x w = (res, w1)" by fastforce
  obtain n1 f1 where rest: "insert_individually E table c xs w1 = ((n1, f1), w')"
    and f: "set f1 \<subseteq> set failed" "\<forall>e. res = Inl e \<longrightarrow> x \<in> fst ` set failed"
    using Cons.prems(1) o1
    by (cases "insert_individually E table c xs w1"; cases res) (force split: prod.splits)+
  show ?case
  proof (cases "r = x")
    case False
    with Cons.IH [OF rest] Cons.prems(2) f(1) show ?thesis by auto
  next
    case True
    show ?thesis
    proof (cases res)
      case (Inl e)
      with f(2) True show ?thesis by simp
    next
      case (Inr u)
      with o1 obtain vs where vs: "record_values E (sink_now E w) c x = Inr vs"
        and i: "sink_insert E table (map fst (table_schema c)) [vs] w = (Inr (), w1)"
        by (auto simp: insert_one_def split: sum.splits)
      from sink_insert_stores [OF d i] have "stored rows_of E table w1 vs" by simp
      then have "stored rows_of E table w' vs"
        unfolding stored_def by (rule keeps_insert_individually [OF durable_pool_keeps [OF d] _ rest])
      with vs True show ?thesis by (auto simp: landed_def)
    qed
  qed
qed simp

lemma insert_batch_lands:
  assumes d: "durable rows_of (clickhouse E)"
    and all: "list_all2 (\<lambda>r vs. record_values E now c r = Inr vs) keep rows"
    and i: "insert_batch E table c rows keep w = ((n, failed), w')" and r: "r \<in> set keep"
  shows "landed rows_of E c table w' r \<or> r \<in> fst ` set failed"
proof -
  from r obtain k where k: "k < length keep" "keep ! k = r" by (auto simp: in_set_conv_nth)
  have vs: "rows ! k \<in> set rows" "record_values E now c r = Inr (rows ! k)"
    using list_all2_nthD [OF all k(1)] list_all2_lengthD [OF all] k by simp_all
  then have "rows \<noteq> []" by auto
  obtain x w1 where s: "sink_insert E table (map fst (table_schema c)) rows w = (x, w1)" by fastforce
  show ?thesis
  proof (cases x)
    case (Inl e)
    with s i \<open>rows \<noteq> []\<close> have "insert_individually E table c keep w1 = ((n, failed), w')"
      by (simp add: insert_batch_def)
    then show ?thesis using r by (rule insert_individually_lands [OF d])
  next
    case (Inr u)
    with s i \<open>rows \<noteq> []\<close> have "w1 = w'" by (simp add: insert_batch_def)
    with s Inr have "sink_insert E table (map fst (table_schema c)) rows w = (Inr (), w')" by simp
    then have "stored rows_of E table w' (rows ! k)" using vs(1) by (rule sink_insert_stores [OF d])
    with vs(2) show ?thesis unfolding landed_def by blast
  qed
qed

lemma finish_write_dead_letters:
  assumes d: "durable rows_of (clickhouse E)"
    and f: "finish_write E table c rows n dead w = (Inr res, w')" and r: "r \<in> fst ` set dead"
  shows "in_dlq rows_of E c table w' r"
proof -
  from r obtain reason where x: "(r, reason) \<in> set dead" by auto
  then have "dead \<noteq> []" by auto
  with f obtain w1 where dl: "dead_letter E table dead c w = (Inr (), w1)"
    and s1: "sink_server w' = sink_server w1"
    by (auto simp: finish_write_def bind_io_eq_Inr record_freshness_server split: if_splits)
  from dl obtain w0 where i: "sink_insert E DLQ_TABLE DLQ_COLUMNS (map (dlq_row c table) dead) w = (Inr (), w0)"
    and s0: "sink_server w1 = sink_server w0"
    by (auto simp: dead_letter_def Let_def bind_io_eq_Inr)
  from sink_insert_stores [OF d i] x s0 s1 show ?thesis
    by (force simp: in_dlq_def stored_def)
qed

lemma ensure_table_name:
  assumes "ensure_table E c w = (Inr table, w1)"
  shows "config_ch_unique_identifier c = Inr table"
  using assms by (auto simp: ensure_table_def bind_io_eq_Inr split: sum.splits if_splits)

lemma sink_write_places:
  assumes d: "durable rows_of (clickhouse E)" and w: "sink_write E c records w = (Inr res, w')"
  shows "\<exists>table. config_ch_unique_identifier c = Inr table \<and>
    (\<forall>r \<in> set records. landed rows_of E c table w' r \<or> in_dlq rows_of E c table w' r)"
proof -
  from w obtain table w1 rows keep dead n failed w2
    where t: "ensure_table E c w = (Inr table, w1)"
      and m: "map_records E (sink_now E w1) c records = Inr (rows, keep, dead)"
      and i: "insert_batch E table c rows keep w1 = ((n, failed), w2)"
      and f: "finish_write E table c rows n (dead @ failed) w2 = (Inr res, w')"
    by (rule sink_write_InrE)
  have "landed rows_of E c table w' r \<or> in_dlq rows_of E c table w' r" if r: "r \<in> set records" for r
  proof -
    have dlq: "r \<in> fst ` set (dead @ failed) \<Longrightarrow> in_dlq rows_of E c table w' r"
      by (rule finish_write_dead_letters [OF d f])
    have "set keep = {x \<in> set records. mappable E (sink_now E w1) c x}"
      and "fst ` set dead = {x \<in> set records. \<not> mappable E (sink_now E w1) c x}"
      using map_records_Inr [OF m] by (metis set_filter, metis list.set_map set_filter)
    then consider "r \<in> fst ` set dead" | "r \<in> set keep" using r by auto
    then show ?thesis
    proof cases
      case 1
      with dlq show ?thesis by auto
    next
      case 2
      with insert_batch_lands [OF d _ i] map_records_Inr [OF m]
      have "landed rows_of E c table w2 r \<or> r \<in> fst ` set failed" by blast
      then show ?thesis
      proof
        assume "landed rows_of E c table w2 r"
        then obtain now vs where "record_values E now c r = Inr vs" and s: "stored rows_of E table w2 vs"
          by (auto simp: landed_def)
        moreover have "stored rows_of E table w' vs"
          using s unfolding stored_def by (rule keepsD [OF keeps_finish_write [OF durable_pool_keeps [OF d]] _ f])
        ultimately show ?thesis by (auto simp: landed_def)
      qed (use dlq in auto)
    qed
  qed
  with ensure_table_name [OF t] show ?thesis by blast
qed

section \<open>Which exceptions leave the write path\<close>

lemma sink_write_Inl:
  assumes w: "sink_write E c records w = (Inl e, w')"
  obtains (no_table) "ensure_table E c w = (Inl e, w')"
  | (bad_record) table r w1 where "ensure_table E c w = (Inr table, w1)" "r \<in> set records"
      "record_values E (sink_now E w1) c r = Inl e" "\<forall>m. e \<noteq> RecordError m" "w' = w1"
  | (no_dlq) table dead w2 where "dead \<noteq> []" "dead_letter E table dead c w2 = (Inl e, w')"
proof -
  obtain t w1 where t: "ensure_table E c w = (t, w1)" by fastforce
  show thesis
  proof (cases t)
    case (Inl e')
    with t w show thesis by (intro no_table) (simp add: sink_write_def bind_io_def)
  next
    case (Inr tab)
    show thesis
    proof (cases "map_records E (sink_now E w1) c records")
      case (Inl e')
      with Inr t w have "e' = e" "w' = w1" by (simp_all add: sink_write_def bind_io_def)
      with map_records_Inl [OF Inl] Inr t show thesis by (auto intro: bad_record)
    next
      case (Inr x)
      obtain rows keep dead where x: "x = (rows, keep, dead)" by (cases x)
      obtain n failed w2 where i: "insert_batch E tab c rows keep w1 = ((n, failed), w2)"
        by (metis prod.exhaust)
      from w t \<open>t = Inr tab\<close> Inr x i have f: "finish_write E tab c rows n (dead @ failed) w2 = (Inl e, w')"
        by (simp add: sink_write_def bind_io_def)
      then have "dead @ failed \<noteq> [] \<and> dead_letter E tab (dead @ failed) c w2 = (Inl e, w')"
        by (auto simp: finish_write_def bind_io_def ret_io_def split: if_splits sum.splits prod.splits)
      then show thesis by (auto intro: no_dlq)
    qed
  qed
qed

lemma sink_write_poison:
  assumes "config_ch_unique_identifier c = Inr table" and "table \<in> set (known_tables w)"
    and "r \<in> set records" and "record_values E (sink_now E w) c r = Inl e" and "\<forall>m. e \<noteq> RecordError m"
  shows "\<exists>e'. sink_write E c records w = (Inl e', w)"
proof -
  have "ensure_table E c w = (Inr table, w)" using assms(1,2) by (simp add: ensure_table_def)
  moreover obtain e' where "map_records E (sink_now E w) c records = Inl e'"
    using map_records_raises [OF assms(3-5)] by blast
  ultimately show ?thesis by (simp add: sink_write_def bind_io_def)
qed

section \<open>One bad row does not discard its neighbours\<close>

text \<open>
  A server that accepts connections, DDL and dead letters, and every single row that is
  \<open>good\<close>; batches and other rows may fail in any way. Its clock, once at \<open>t0\<close>, stays there or
  later.
\<close>

definition accepts :: "'c sink_env \<Rightarrow> (pyval list \<Rightarrow> bool) \<Rightarrow> int \<Rightarrow> bool" where
  "accepts E good t0 \<longleftrightarrow>
     (\<forall>s. fst (ch_connect (clickhouse E) s) = Inr ()) \<and>
     (\<forall>q s. fst (ch_command (clickhouse E) q s) = Inr ()) \<and>
     (\<forall>columns rows s. fst (ch_insert (clickhouse E) (database E @ ''.'' @ DLQ_TABLE) columns rows s) = Inr ()) \<and>
     (\<forall>t columns v s. good v \<longrightarrow> fst (ch_insert (clickhouse E) t columns [v] s) = Inr ()) \<and>
     server_keeps (\<lambda>s. t0 \<le> ch_now (clickhouse E) s) (clickhouse E) UNIV"

lemma execute_succeeds:
  assumes "\<And>s. fst (ch_connect S s) = Inr ()" and "\<And>s. fst (fn s) = Inr ()"
  shows "\<exists>w'. execute S cfg fn w = (Inr (), w')"
proof -
  have g: "\<exists>w1. get_client S w = (Inr (), w1)"
    using assms(1) by (auto simp: get_client_def manager_connect_def do_connect_def on_server_def
        bind_io_def split: prod.splits sum.splits) (metis fst_conv sum.distinct(1) Inl_Inr_False)+
  then obtain w1 where "get_client S w = (Inr (), w1)" by blast
  moreover obtain s' where "fn (server w1) = (Inr (), s')" using assms(2) by (metis prod.collapse)
  ultimately have "bind_io (get_client S) (\<lambda>_. on_server fn) w = (Inr (), w1\<lparr>server := s'\<rparr>)"
    by (simp add: bind_io_def on_server_def)
  then show ?thesis by (simp add: execute_def)
qed

lemma sink_execute_succeeds:
  assumes "accepts E good t0" and "\<And>s. fst (fn s) = Inr ()"
  shows "\<exists>w'. sink_execute E fn w = (Inr (), w')"
proof -
  have "\<And>s. fst (ch_connect (clickhouse E) s) = Inr ()" using assms(1) by (simp add: accepts_def)
  from execute_succeeds [of "clickhouse E" fn "mgr_config E" "sink_mgr w", OF this assms(2)] obtain m
    where "execute (clickhouse E) (mgr_config E) fn (sink_mgr w) = (Inr (), m)" by blast
  then show ?thesis by (simp add: sink_execute_def)
qed

lemma ensure_table_succeeds:
  assumes a: "accepts E good t0" and t: "config_ch_unique_identifier c = Inr table"
  shows "\<exists>w'. ensure_table E c w = (Inr table, w')"
proof -
  have cmd: "\<exists>w'. sink_execute E (ch_command (clickhouse E) q) w = (Inr (), w')" for q w
    by (rule sink_execute_succeeds [OF a]) (use a in \<open>simp add: accepts_def\<close>)
  from cmd obtain w1 where 1: "sink_execute E (ch_command (clickhouse E) (create_database_ddl (database E))) w = (Inr (), w1)"
    by blast
  obtain ddl where ddl: "create_table_ddl (database E) c = Inr ddl" by (simp add: create_table_ddl_def t Let_def)
  from cmd obtain w2 where "sink_execute E (ch_command (clickhouse E) ddl) w1 = (Inr (), w2)" by blast
  with 1 ddl t show ?thesis by (simp add: ensure_table_def bind_io_def)
qed

lemma accepts_keeps: "accepts E good t0 \<Longrightarrow> pool_keeps (\<lambda>s. t0 \<le> ch_now (clickhouse E) s) E table"
  unfolding accepts_def pool_keeps_def by (blast intro: server_keeps_mono)

text \<open>A record whose row, at any time from \<open>t0\<close> on, the server would take alone.\<close>

definition insertable ::
  "'c sink_env \<Rightarrow> pipeline_config \<Rightarrow> (pyval list \<Rightarrow> bool) \<Rightarrow> int \<Rightarrow> incoming_record \<Rightarrow> bool" where
  "insertable E c good t0 r \<longleftrightarrow> (\<forall>now. t0 \<le> now \<longrightarrow> (\<exists>vs. record_values E now c r = Inr vs \<and> good vs))"

lemma insert_one_succeeds:
  assumes a: "accepts E good t0" and r: "insertable E c good t0 r" and now: "t0 \<le> sink_now E w"
  shows "\<exists>w'. insert_one E table c r w = (Inr (), w')"
proof -
  from r obtain vs where vs: "record_values E (sink_now E w) c r = Inr vs" "good vs"
    using now by (auto simp: insertable_def)
  have "\<exists>w'. sink_insert E table (map fst (table_schema c)) [vs] w = (Inr (), w')"
    unfolding sink_insert_def
    by (rule sink_execute_succeeds [OF a]) (use a vs(2) in \<open>simp add: accepts_def\<close>)
  with vs(1) show ?thesis by (simp add: insert_one_def)
qed

lemma insert_individually_good:
  assumes a: "accepts E good t0"
  shows "insert_individually E table c rs w = ((n, failed), w') \<Longrightarrow> t0 \<le> sink_now E w \<Longrightarrow>
    length (filter (insertable E c good t0) rs) \<le> n"
proof (induction rs arbitrary: n failed w)
  case (Cons r rs)
  obtain res w1 where o1: "insert_one E table c r w = (res, w1)" by fastforce
  obtain n1 f1 where rest: "insert_individually E table c rs w1 = ((n1, f1), w')"
    and n: "n = (case res of Inr _ \<Rightarrow> n1 + 1 | Inl _ \<Rightarrow> n1)"
    using Cons.prems(1) o1 by (cases "insert_individually E table c rs w1") (auto split: sum.splits prod.splits)
  have "t0 \<le> sink_now E w1"
    using keepsD [OF keeps_insert_one [OF accepts_keeps [OF a]] _ o1] Cons.prems(2) by (simp add: sink_now_def)
  then have "length (filter (insertable E c good t0) rs) \<le> n1" by (rule Cons.IH [OF rest])
  moreover have "insertable E c good t0 r \<Longrightarrow> res = Inr ()"
    using insert_one_succeeds [OF a _ Cons.prems(2)] o1 by (metis prod.inject)
  ultimately show ?case using n by (auto split: sum.splits)
qed simp

lemma insertable_mappable: "insertable E c good t0 r \<Longrightarrow> t0 \<le> now \<Longrightarrow> mappable E now c r"
  by (metis insertable_def mappable_def old.sum.simps(6))

lemma insert_batch_good:
  assumes a: "accepts E good t0" and i: "insert_batch E table c rows keep w = ((n, failed), w')"
    and len: "length rows = length keep" and now: "t0 \<le> sink_now E w"
  shows "length (filter (insertable E c good t0) keep) \<le> n"
proof (cases "rows = []")
  case True
  with len i show ?thesis by (simp add: insert_batch_def)
next
  case False
  obtain x w1 where s: "sink_insert E table (map fst (table_schema c)) rows w = (x, w1)" by fastforce
  show ?thesis
  proof (cases x)
    case (Inl e)
    with s i False have "insert_individually E table c keep w1 = ((n, failed), w')"
      by (simp add: insert_batch_def)
    moreover have "t0 \<le> sink_now E w1"
      using keepsD [OF keeps_insert(1) [OF accepts_keeps [OF a]] _ s] now by (simp add: sink_now_def)
    ultimately show ?thesis by (rule insert_individually_good [OF a])
  next
    case (Inr u)
    with s i False len have "n = length keep" by (simp add: insert_batch_def)
    then show ?thesis by simp
  qed
qed

lemma dead_letter_succeeds:
  assumes a: "accepts E good t0"
  shows "\<exists>w'. dead_letter E table dead c w = (Inr (), w')"
proof -
  have "\<exists>w'. sink_insert E DLQ_TABLE DLQ_COLUMNS (map (dlq_row c table) dead) w = (Inr (), w')"
    unfolding sink_insert_def by (rule sink_execute_succeeds [OF a]) (use a in \<open>simp add: accepts_def\<close>)
  then show ?thesis by (auto simp: dead_letter_def Let_def bind_io_def)
qed

lemma finish_write_succeeds:
  "accepts E good t0 \<Longrightarrow> \<exists>res w'. finish_write E table c rows n dead w = (Inr res, w')"
  using dead_letter_succeeds [of E good t0 table dead c w]
  by (auto simp: finish_write_def bind_io_def ret_io_def)

lemma sink_write_good:
  assumes a: "accepts E good t0" and t: "config_ch_unique_identifier c = Inr table"
    and ok: "\<And>now r e. t0 \<le> now \<Longrightarrow> r \<in> set records \<Longrightarrow> record_values E now c r = Inl e \<Longrightarrow> \<exists>m. e = RecordError m"
    and now: "t0 \<le> sink_now E w"
  shows "\<exists>res w'. sink_write E c records w = (Inr res, w') \<and>
    length (filter (insertable E c good t0) records) \<le> written res"
proof -
  obtain w1 where t1: "ensure_table E c w = (Inr table, w1)" using ensure_table_succeeds [OF a t] by blast
  have now1: "t0 \<le> sink_now E w1"
    using keepsD [OF keeps_ensure_table [OF accepts_keeps [OF a]] _ t1] now by (simp add: sink_now_def)
  obtain rows keep dead where m: "map_records E (sink_now E w1) c records = Inr (rows, keep, dead)"
  proof (cases "map_records E (sink_now E w1) c records")
    case (Inl e)
    from map_records_Inl [OF Inl] ok [OF now1] show thesis by blast
  next
    case (Inr x)
    then show thesis using that by (cases x) simp
  qed
  obtain n failed w2 where i: "insert_batch E table c rows keep w1 = ((n, failed), w2)"
    by (metis prod.exhaust)
  obtain res w' where f: "finish_write E table c rows n (dead @ failed) w2 = (Inr res, w')"
    using finish_write_succeeds [OF a] by blast
  note k = map_records_Inr [OF m]
  have "length rows = length keep" using k by (auto dest: list_all2_lengthD)
  then have "length (filter (insertable E c good t0) keep) \<le> n" by (rule insert_batch_good [OF a i _ now1])
  moreover have "filter (insertable E c good t0) keep = filter (insertable E c good t0) records"
    using k insertable_mappable [OF _ now1] by (auto intro!: filter_cong)
  ultimately show ?thesis
    using t1 m i f finish_write_Inr [OF f] by (auto simp: sink_write_def bind_io_def)
qed

section \<open>A server in memory\<close>

text \<open>
  One server with the promised behaviour: tables are lists of rows, an insert is atomic and
  rejects a batch with a row that \<open>ok\<close> refuses. The hypotheses about servers hold of it.
\<close>

record memory =
  mem_rows :: "string \<Rightarrow> pyval list list"
  mem_clock :: int

definition memory_server :: "(string \<Rightarrow> pyval list \<Rightarrow> bool) \<Rightarrow> memory clickhouse" where
  "memory_server ok = \<lparr>ch_connect = ret_io (), ch_command = (\<lambda>_. ret_io ()),
     ch_insert = (\<lambda>t columns rows s.
       if list_all (ok t) rows then (Inr (), s\<lparr>mem_rows := (mem_rows s)(t := mem_rows s t @ rows)\<rparr>)
       else (Inl (ClickHouseError ''rejected''), s)),
     ch_ping = ret_io (), ch_close = ret_io (), ch_now = mem_clock\<rparr>"

definition memory_env :: "(string \<Rightarrow> pyval list \<Rightarrow> bool) \<Rightarrow> memory sink_env" where
  "memory_env ok = \<lparr>clickhouse = memory_server ok, mgr_config = default_manager_config,
     database = ''iot'', py_repr = (\<lambda>_. ''?'')\<rparr>"

definition fresh_sink :: "int \<Rightarrow> memory sink" where
  "fresh_sink t = \<lparr>sink_mgr = \<lparr>server = \<lparr>mem_rows = (\<lambda>_. []), mem_clock = t\<rparr>, connected = False, slept = []\<rparr>,
     known_tables = [], rows_written_total = (\<lambda>_. 0), dlq_rows_total = (\<lambda>_. 0),
     last_event_timestamp = (\<lambda>_. None), last_write_timestamp = (\<lambda>_. None)\<rparr>"

lemma memory_durable: "durable mem_rows (clickhouse (memory_env ok))"
  by (auto simp: durable_def server_keeps_def keeps_def memory_server_def memory_env_def ret_io_def split: if_splits)

lemma memory_accepts:
  assumes "\<And>v. ok (''iot.'' @ DLQ_TABLE) v" and "\<And>t v. good v \<Longrightarrow> ok t v"
  shows "accepts (memory_env ok) good t0"
  using assms unfolding accepts_def server_keeps_def
  by (auto simp: keeps_def memory_server_def memory_env_def ret_io_def list_all_iff split: if_splits)

text \<open>Three records of the sample pipeline, and a server that refuses the value 13.\<close>

definition sample_record :: "int \<Rightarrow> pyval \<Rightarrow> incoming_record" where
  "sample_record n v =
     \<lparr>rec_value = sample_message v,
      rec_topic = ''telemetry.p1'', rec_partition = 0, rec_offset = n, rec_raw = []\<rparr>"

definition unmappable_record :: incoming_record where
  "unmappable_record = sample_record 9 (VInt 1)\<lparr>rec_value := VInt 5\<rparr>"

definition not_13 :: "string \<Rightarrow> pyval list \<Rightarrow> bool" where
  "not_13 t v \<longleftrightarrow> t = ''iot.'' @ DLQ_TABLE \<or> v \<noteq> [VTime sample_time, VFloat (Fin 13)]"

definition sample_batch :: "incoming_record list" where
  "sample_batch = [sample_record 7 (VFloat (Fin 5)), sample_record 8 (VFloat (Fin 13)), unmappable_record]"

lemma sample_value_values:
  "rec_value r = sample_message v \<Longrightarrow> sample_time \<le> now \<Longrightarrow> record_values E now sample_config r =
     (case split_value (py_repr E) v of Inl e \<Rightarrow> Inl e | Inr vs \<Rightarrow> Inr [VTime sample_time, fst vs])"
  by (simp add: record_values_def to_row_sample sample_schema dict_get_def split: sum.splits)

lemma sample_record_values:
  "sample_time \<le> now \<Longrightarrow> record_values E now sample_config (sample_record n v) =
     (case split_value (py_repr E) v of Inl e \<Rightarrow> Inl e | Inr vs \<Rightarrow> Inr [VTime sample_time, fst vs])"
  by (rule sample_value_values) (simp_all add: sample_record_def)

lemma unmappable_values:
  "record_values E now sample_config unmappable_record = Inl (RecordError ''expected a JSON object'')"
  by (simp add: record_values_def to_row_def unmappable_record_def)

lemma memory_now: "sink_now (memory_env ok) (fresh_sink t) = t"
  by (simp add: sink_now_def memory_env_def memory_server_def fresh_sink_def)

lemma not_13_accepts: "accepts (memory_env not_13) (not_13 []) sample_time"
  by (rule memory_accepts) (simp_all add: not_13_def)

lemma sample_batch_errors:
  "sample_time \<le> now \<Longrightarrow> r \<in> set sample_batch \<Longrightarrow> record_values E now sample_config r = Inl e \<Longrightarrow>
     \<exists>m. e = RecordError m"
  by (auto simp: sample_batch_def sample_record_values unmappable_values split_value_def)

lemma sample_batch_insertable:
  "filter (insertable (memory_env not_13) sample_config (not_13 []) sample_time) sample_batch
     = [sample_record 7 (VFloat (Fin 5))]"
proof -
  let ?ins = "insertable (memory_env not_13) sample_config (not_13 []) sample_time"
  have "?ins (sample_record 7 (VFloat (Fin 5)))"
    by (simp add: insertable_def sample_record_values split_value_def not_13_def)
  moreover have "\<not> ?ins (sample_record 8 (VFloat (Fin 13)))" "\<not> ?ins unmappable_record"
    by (auto simp: insertable_def sample_record_values unmappable_values split_value_def not_13_def)
  ultimately show ?thesis by (simp add: sample_batch_def)
qed
lemma oversized_values:
  "rec_value r = sample_message (VInt (2 ^ 1024)) \<Longrightarrow> record_values E sample_time sample_config r =
     Inl (OverflowError ''int too large to convert to float'')"
proof -
  have "overflows (2 ^ 1024)" by (rule overflows_large) (simp add: pow2_def)
  then show "rec_value r = sample_message (VInt (2 ^ 1024)) \<Longrightarrow> record_values E sample_time sample_config r =
      Inl (OverflowError ''int too large to convert to float'')"
    by (simp only: sample_value_values split_value_def float_of_int_def pyval.simps of_int_power
        of_int_numeral if_True sum.simps order_refl)
qed

lemma sample_write_returns:
  "\<exists>res w'. sink_write (memory_env not_13) sample_config sample_batch (fresh_sink sample_time) = (Inr res, w')"
proof -
  have "\<exists>res w'. sink_write (memory_env not_13) sample_config sample_batch (fresh_sink sample_time) = (Inr res, w') \<and>
      length (filter (insertable (memory_env not_13) sample_config (not_13 []) sample_time) sample_batch) \<le> written res"
    by (rule sink_write_good [OF not_13_accepts sample_identifier sample_batch_errors]) (simp_all add: memory_now)
  then show ?thesis by blast
qed

section \<open>Properties\<close>

text \<open>
  C2: after a write that returns, every record of the batch is stored in the pipeline's table,
  as the row its message maps to, or in \<open>dead_letter_events\<close> with its topic, partition and
  offset; the two counts add up to the batch.
\<close>

theorem sink_write_accounts:
  assumes "durable rows_of (clickhouse E)" and "sink_write E c records w = (Inr res, w')"
  shows "(\<exists>table. config_ch_unique_identifier c = Inr table \<and>
      (\<forall>r \<in> set records. landed rows_of E c table w' r \<or> in_dlq rows_of E c table w' r)) \<and>
    written res + dead_lettered res = length records"
  using sink_write_places [OF assms] sink_write_count [OF assms(2)] by blast

lemma sink_write_accounts_witness:
  "\<exists>res w'. sink_write (memory_env not_13) sample_config sample_batch (fresh_sink sample_time) = (Inr res, w') \<and>
     (\<forall>r \<in> set sample_batch.
        landed mem_rows (memory_env not_13) sample_config ''user_7_collection_2_t'' w' r \<or>
        in_dlq mem_rows (memory_env not_13) sample_config ''user_7_collection_2_t'' w' r) \<and>
     written res + dead_lettered res = 3"
proof -
  from sample_write_returns obtain res w'
    where w: "sink_write (memory_env not_13) sample_config sample_batch (fresh_sink sample_time) = (Inr res, w')"
    by blast
  from sink_write_accounts [OF memory_durable w] w show ?thesis
    by (auto simp: sample_identifier) (simp add: sample_batch_def)
qed



text \<open>
  A record whose conversion raises anything but \<open>RecordError\<close>, such as an integer value
  of 1024 bits, fails the whole batch: the write raises, no row is inserted, no record is
  dead-lettered, and the sink is unchanged, so that the same batch fails on every delivery.
\<close>

lemma sink_write_poisoned:
  assumes "config_ch_unique_identifier c = Inr table" and "table \<in> set (known_tables w)"
    and "r \<in> set records" and "record_values E (sink_now E w) c r = Inl e" and "\<forall>m. e \<noteq> RecordError m"
  shows "\<exists>e'. sink_write E c records w = (Inl e', w)"
  by (rule sink_write_poison [OF assms])

text \<open>
  A write touches no table but its pipeline's and \<open>dead_letter_events\<close>, on the raising
  branches too: rows of other pipelines stay as they were, if the server changes only the
  table an insert names.
\<close>

lemma sink_write_other_tables:
  assumes "\<And>v. server_keeps (\<lambda>s. rows_of s other = v) (clickhouse E) (- {other})"
    and "config_ch_unique_identifier c = Inr table"
    and "other \<noteq> database E @ ''.'' @ table" and "other \<noteq> database E @ ''.'' @ DLQ_TABLE"
    and "sink_write E c records w = (r, w')"
  shows "rows_of (sink_server w') other = rows_of (sink_server w) other"
proof (rule keeps_sink_write [where P = "\<lambda>s. rows_of s other = rows_of (sink_server w) other", OF _ refl assms(5)])
  fix table'
  assume "config_ch_unique_identifier c = Inr table'"
  with assms(2-4) show "pool_keeps (\<lambda>s. rows_of s other = rows_of (sink_server w) other) E table'"
    unfolding pool_keeps_def by (intro server_keeps_mono [OF assms(1)]) auto
qed

end
