(* ===== verification/Consumer_Pool.thy ===== *)
theory Consumer_Pool
  imports Pipeline_Repo Sink
begin

text \<open>
  \<^verbatim>\<open>consumer_pool/app/main.py\<close>: one round of the shared consumer, from the batches a fetch
  returned to the commit. The Kafka client, the decoding of bytes and the JSON parser are
  arguments; the sink and the repository are the models of their theories. The lemmas say what
  a committed offset stands for, what an uncommitted one costs, and what happens to the
  partitions around a failing one.
\<close>

section \<open>State\<close>

type_synonym topic_partition = "string \<times> int"

text \<open>A fetched message; a tombstone has no value.\<close>

record kafka_message =
  msg_value :: "string option"
  msg_offset :: int

type_synonym fetched = "(topic_partition \<times> kafka_message list) list"

text \<open>
  The consumer the pool holds: what it is assigned, a fetch, and a commit of explicit offsets.
\<close>

record 'k kafka_consumer =
  kc_getmany :: "('k, fetched) io"
  kc_assignment :: "'k \<Rightarrow> topic_partition list"
  kc_commit :: "(topic_partition \<times> int) list \<Rightarrow> ('k, unit) io"

text \<open>
  What the process is built from. \<open>decode_replace\<close> is \<open>bytes.decode(errors="replace")\<close>, which
  returns a text for every input; \<open>json_loads\<close> is \<open>json.loads\<close>.
\<close>

record ('c, 'r, 'v, 'k) pool_env =
  sink_env_of :: "'c sink_env"
  redis_of :: "('r, 'v) redis_client"
  consumer_of :: "'k kafka_consumer"
  decode_replace :: "string \<Rightarrow> string"
  json_loads :: "string \<Rightarrow> pyval result"

record ('c, 'r, 'k) pool =
  pool_sink :: "'c sink"
  pool_redis :: 'r
  pool_kafka :: 'k
  registry_cache :: "(string \<times> pipeline_config) list"

section \<open>The registry\<close>

text \<open>\<open>^pipeline\.(?P<pipeline_id>.+)\.events$\<close>: the dot matches anything but a newline.\<close>

definition topic_pipeline_id :: "string \<Rightarrow> string option" where
  "topic_pipeline_id t =
     (let s = dollar_stem t;
          rest = removeprefix s ''pipeline.'';
          n = length rest - length ''.events''
      in if startswith s ''pipeline.'' \<and> endswith rest ''.events'' \<and> 0 < n \<and> newline \<notin> set (take n rest)
         then Some (take n rest) else None)"

definition registry_get ::
  "('c, 'r, 'v, 'k) pool_env \<Rightarrow> string \<Rightarrow> (('c, 'r, 'k) pool, pipeline_config option) io" where
  "registry_get E t w =
     (case map_of (registry_cache w) t of
        Some c \<Rightarrow> (Inr (Some c), w)
      | None \<Rightarrow>
          (case topic_pipeline_id t of
             None \<Rightarrow> (Inr None, w)
           | Some pid \<Rightarrow>
               (case get_config (redis_of E) pid (pool_redis w) of
                  (Inl e, r) \<Rightarrow> (Inl e, w\<lparr>pool_redis := r\<rparr>)
                | (Inr None, r) \<Rightarrow> (Inr None, w\<lparr>pool_redis := r\<rparr>)
                | (Inr (Some c), r) \<Rightarrow>
                    (Inr (Some c), w\<lparr>pool_redis := r, registry_cache := (t, c) # registry_cache w\<rparr>))))"

section \<open>From messages to records\<close>

text \<open>\<open>None.decode\<close> raises \<open>AttributeError\<close>; a text that is not JSON becomes its own value.\<close>

definition message_record ::
  "('c, 'r, 'v, 'k) pool_env \<Rightarrow> topic_partition \<Rightarrow> kafka_message \<Rightarrow> incoming_record result" where
  "message_record E p m =
     (case msg_value m of
        None \<Rightarrow> Inl (AttributeError ''NoneType has no attribute decode'')
      | Some bytes \<Rightarrow>
          let raw = decode_replace E bytes;
              mk = (\<lambda>v. \<lparr>rec_value = v, rec_topic = fst p, rec_partition = snd p,
                         rec_offset = msg_offset m, rec_raw = raw\<rparr>)
          in (case json_loads E raw of
                Inl (JSONDecodeError _) \<Rightarrow> Inr (mk (VStr raw))
              | Inl e \<Rightarrow> Inl e
              | Inr v \<Rightarrow> Inr (mk v)))"

fun message_records ::
  "('c, 'r, 'v, 'k) pool_env \<Rightarrow> topic_partition \<Rightarrow> kafka_message list \<Rightarrow> incoming_record list result" where
  "message_records E p [] = Inr []"
| "message_records E p (m # ms) =
     (case message_record E p m of
        Inl e \<Rightarrow> Inl e
      | Inr r \<Rightarrow> map_sum id (\<lambda>rs. r # rs) (message_records E p ms))"

section \<open>Insert, then commit\<close>

text \<open>
  What one pass of the loop body does to its partition: \<open>continue\<close>, a written batch and the
  offset after it, or \<open>break\<close>.
\<close>

datatype outcome = Skipped | Written int | Stopped

definition on_sink :: "('c sink, 'a) io \<Rightarrow> (('c, 'r, 'k) pool, 'a) io" where
  "on_sink m w = (case m (pool_sink w) of (r, s) \<Rightarrow> (r, w\<lparr>pool_sink := s\<rparr>))"

definition insert_partition ::
  "('c, 'r, 'v, 'k) pool_env \<Rightarrow> topic_partition list \<Rightarrow> topic_partition \<times> kafka_message list \<Rightarrow>
     (('c, 'r, 'k) pool, outcome) io" where
  "insert_partition E assigned pm w =
     (case pm of (p, ms) \<Rightarrow>
        if p \<notin> set assigned then (Inr Skipped, w)
        else
          (case registry_get E (fst p) w of
             (Inl e, w1) \<Rightarrow> (Inl e, w1)
           | (Inr None, w1) \<Rightarrow> (Inr Skipped, w1)
           | (Inr (Some c), w1) \<Rightarrow>
               (case message_records E p ms of
                  Inl e \<Rightarrow> (Inl e, w1)
                | Inr records \<Rightarrow>
                    (case on_sink (sink_write (sink_env_of E) c records) w1 of
                       (Inl _, w2) \<Rightarrow> (Inr Stopped, w2)
                     | (Inr _, w2) \<Rightarrow>
                         if ms = [] then (Inl (OtherError ''IndexError'' ''list index out of range''), w2)
                         else (Inr (Written (msg_offset (last ms) + 1)), w2)))))"

fun insert_partitions ::
  "('c, 'r, 'v, 'k) pool_env \<Rightarrow> topic_partition list \<Rightarrow> fetched \<Rightarrow> (topic_partition \<times> int) list \<Rightarrow>
     (('c, 'r, 'k) pool, (topic_partition \<times> int) list) io" where
  "insert_partitions E assigned [] offsets w = (Inr offsets, w)"
| "insert_partitions E assigned (pm # rest) offsets w =
     (case insert_partition E assigned pm w of
        (Inl e, w1) \<Rightarrow> (Inl e, w1)
      | (Inr Skipped, w1) \<Rightarrow> insert_partitions E assigned rest offsets w1
      | (Inr Stopped, w1) \<Rightarrow> (Inr offsets, w1)
      | (Inr (Written n), w1) \<Rightarrow> insert_partitions E assigned rest (offsets @ [(fst pm, n)]) w1)"

fun rebalance_error :: "exn \<Rightarrow> bool" where
  "rebalance_error CommitFailedError = True"
| "rebalance_error IllegalStateError = True"
| "rebalance_error _ = False"

definition commit_offsets ::
  "('c, 'r, 'v, 'k) pool_env \<Rightarrow> (topic_partition \<times> int) list \<Rightarrow> (('c, 'r, 'k) pool, unit) io" where
  "commit_offsets E offsets w =
     (if offsets = [] then (Inr (), w)
      else case kc_commit (consumer_of E) offsets (pool_kafka w) of
             (Inr _, k) \<Rightarrow> (Inr (), w\<lparr>pool_kafka := k\<rparr>)
           | (Inl e, k) \<Rightarrow> (if rebalance_error e then Inr () else Inl e, w\<lparr>pool_kafka := k\<rparr>))"

definition insert_then_commit ::
  "('c, 'r, 'v, 'k) pool_env \<Rightarrow> fetched \<Rightarrow> (('c, 'r, 'k) pool, unit) io" where
  "insert_then_commit E batches w =
     bind_io (insert_partitions E (kc_assignment (consumer_of E) (pool_kafka w)) batches [])
       (commit_offsets E) w"

section \<open>The process\<close>

text \<open>The settings of the pool, \<^verbatim>\<open>consumer_pool/app/config.py\<close>, without environment variables.\<close>

record pool_settings =
  pool_redis_url :: string
  pool_bootstrap_servers :: string
  topic_pattern :: string
  metadata_max_age_ms :: int
  group_id :: string
  pool_batch_size :: int
  pool_flush_interval_seconds :: pyfloat
  pool_clickhouse_host :: string
  pool_clickhouse_port :: int
  pool_clickhouse_username :: string
  pool_clickhouse_password :: string
  pool_clickhouse_database :: string
  metrics_port :: int

definition default_pool_settings :: pool_settings where
  "default_pool_settings =
     \<lparr>pool_redis_url = ''redis://redis:6379/0'', pool_bootstrap_servers = ''kafka:9092'',
      topic_pattern = ''pipeline'' @ [CHR 0x5C] @ ''..*'' @ [CHR 0x5C] @ ''.events'',
      metadata_max_age_ms = 10000, group_id = ''consumer-pool'', pool_batch_size = 500,
      pool_flush_interval_seconds = Fin 5, pool_clickhouse_host = ''clickhouse'', pool_clickhouse_port = 8123,
      pool_clickhouse_username = ''default'', pool_clickhouse_password = [],
      pool_clickhouse_database = ''data_platform'', metrics_port = 9100\<rparr>"

definition on_manager :: "('c manager, 'a) io \<Rightarrow> ('c sink, 'a) io" where
  "on_manager m s = (case m (sink_mgr s) of (r, m') \<Rightarrow> (r, s\<lparr>sink_mgr := m'\<rparr>))"

definition on_kafka :: "('k, 'a) io \<Rightarrow> (('c, 'r, 'k) pool, 'a) io" where
  "on_kafka m w = (case m (pool_kafka w) of (r, k) \<Rightarrow> (r, w\<lparr>pool_kafka := k\<rparr>))"

definition pool_start :: "('c, 'r, 'v, 'k) pool_env \<Rightarrow> (('c, 'r, 'k) pool, unit) io" where
  "pool_start E =
     bind_io (on_sink (on_manager (manager_connect (clickhouse (sink_env_of E)))))
       (\<lambda>_. on_sink (ensure_dlq_table (sink_env_of E)))"

text \<open>\<open>while not stop.is_set()\<close>: the stop signal is seen after \<open>n\<close> fetches.\<close>

fun pool_loop :: "('c, 'r, 'v, 'k) pool_env \<Rightarrow> nat \<Rightarrow> (('c, 'r, 'k) pool, unit) io" where
  "pool_loop E 0 = ret_io ()"
| "pool_loop E (Suc n) =
     bind_io (on_kafka (kc_getmany (consumer_of E))) (\<lambda>batches.
       bind_io (if batches = [] then ret_io () else insert_then_commit E batches) (\<lambda>_. pool_loop E n))"

definition pool_run :: "('c, 'r, 'v, 'k) pool_env \<Rightarrow> nat \<Rightarrow> (('c, 'r, 'k) pool, unit) io" where
  "pool_run E n =
     bind_io (pool_start E) (\<lambda>_.
       finally_io (pool_loop E n) (on_sink (on_manager (manager_close (clickhouse (sink_env_of E))))))"

lemma manager_close_closes: "\<exists>w'. manager_close S w = (Inr (), w') \<and> \<not> connected w'"
  by (simp add: manager_close_def split: prod.splits)

text \<open>Once started, the process ends disconnected, however its loop ends.\<close>

lemma pool_run_closes:
  assumes "pool_start E w = (Inr (), w1)" and "pool_run E n w = (r, w')"
  shows "\<not> connected (sink_mgr (pool_sink w')) \<and> (\<exists>w2. pool_loop E n w1 = (r, w2))"
proof -
  obtain r2 w2 where l: "pool_loop E n w1 = (r2, w2)" by fastforce
  obtain m where m: "manager_close (clickhouse (sink_env_of E)) (sink_mgr (pool_sink w2)) = (Inr (), m)" "\<not> connected m"
    using manager_close_closes by blast
  from assms l m have "r = r2" "w' = w2\<lparr>pool_sink := (pool_sink w2)\<lparr>sink_mgr := m\<rparr>\<rparr>"
    by (simp_all add: pool_run_def io_simps on_sink_def on_manager_def split: sum.splits)
  with l m show ?thesis by simp
qed

section \<open>Topics and pipelines\<close>

text \<open>The name the API gives a pipeline's topic.\<close>

definition topic_of :: "string \<Rightarrow> string" where
  "topic_of pid = ''pipeline.'' @ pid @ ''.events''"

lemma removeprefix_eq: "startswith s p \<Longrightarrow> s = p @ removeprefix s p"
  by (auto simp: startswith_iff)

lemma endswith_take: "endswith s p \<Longrightarrow> s = take (length s - length p) s @ p"
  by (auto simp: endswith_iff)

lemma topic_pipeline_id_Some_iff:
  "topic_pipeline_id t = Some pid \<longleftrightarrow>
     pid \<noteq> [] \<and> newline \<notin> set pid \<and> (t = topic_of pid \<or> t = topic_of pid @ [newline])"
proof
  assume a: "topic_pipeline_id t = Some pid"
  let ?rest = "removeprefix (dollar_stem t) ''pipeline.''"
  from a have s: "startswith (dollar_stem t) ''pipeline.''" and e: "endswith ?rest ''.events''"
    and p: "pid = take (length ?rest - length ''.events'') ?rest" "0 < length ?rest - length ''.events''"
      "newline \<notin> set pid"
    unfolding topic_pipeline_id_def Let_def by (metis option.distinct(1) option.inject)+
  from p(1) endswith_take [OF e] have "?rest = pid @ ''.events''" by metis
  with removeprefix_eq [OF s] have "dollar_stem t = topic_of pid" unfolding topic_of_def by metis
  then have "t = topic_of pid \<or> t = topic_of pid @ [newline]"
    by (metis append_butlast_last_id dollar_stem_def)
  with p show "pid \<noteq> [] \<and> newline \<notin> set pid \<and> (t = topic_of pid \<or> t = topic_of pid @ [newline])"
    by auto
next
  assume a: "pid \<noteq> [] \<and> newline \<notin> set pid \<and> (t = topic_of pid \<or> t = topic_of pid @ [newline])"
  then have "newline \<notin> set (topic_of pid)" by (simp add: topic_of_def)
  with a have "dollar_stem t = topic_of pid" using dollar_stem_id by auto
  then have d: "dollar_stem t = ''pipeline.'' @ pid @ ''.events''" unfolding topic_of_def .
  have "(let rest = removeprefix (pre @ pid @ suf) pre; n = length rest - length suf
      in if startswith (pre @ pid @ suf) pre \<and> endswith rest suf \<and> 0 < n \<and> newline \<notin> set (take n rest)
         then Some (take n rest) else None) = Some pid" for pre suf
    using a by (simp add: Let_def endswith_iff)
  then show "topic_pipeline_id t = Some pid" unfolding topic_pipeline_id_def Let_def d .
qed

section \<open>Which configuration a topic is written with\<close>

text \<open>What the cache holds, else what the repository holds for the pipeline the topic names.\<close>

definition routes :: "('c, 'r, 'v, 'k) pool_env \<Rightarrow> ('c, 'r, 'k) pool \<Rightarrow> string \<Rightarrow> pipeline_config \<Rightarrow> bool" where
  "routes E w t c \<longleftrightarrow>
     (case map_of (registry_cache w) t of
        Some c' \<Rightarrow> c' = c
      | None \<Rightarrow> (\<exists>pid. topic_pipeline_id t = Some pid \<and> stored_config (redis_of E) (pool_redis w) pid = Inr (Some c)))"

lemma registry_get_frame:
  "registry_get E t w = (r, w1) \<Longrightarrow>
     pool_sink w1 = pool_sink w \<and> pool_kafka w1 = pool_kafka w \<and> pool_redis w1 = pool_redis w"
  by (auto simp: registry_get_def get_config_eq split: option.splits sum.splits)

lemma registry_get_routes: "registry_get E t w = (Inr (Some c), w1) \<Longrightarrow> routes E w t c"
  by (auto simp: registry_get_def routes_def get_config_eq split: option.splits sum.splits)

lemma registry_get_keeps_routes:
  "registry_get E t w = (r, w1) \<Longrightarrow> routes E w1 t' c \<Longrightarrow> routes E w t' c"
  by (auto simp: registry_get_def routes_def get_config_eq split: option.splits sum.splits if_splits)

lemma registry_get_eq:
  "routes E w t c \<Longrightarrow> \<exists>w1. registry_get E t w = (Inr (Some c), w1)"
  by (auto simp: registry_get_def routes_def get_config_eq split: option.splits)

section \<open>What a committed offset stands for\<close>

definition accounted ::
  "('c \<Rightarrow> string \<Rightarrow> pyval list list) \<Rightarrow> 'c sink_env \<Rightarrow> pipeline_config \<Rightarrow> 'c sink \<Rightarrow> incoming_record \<Rightarrow> bool" where
  "accounted rows_of SE c s r \<longleftrightarrow>
     (\<exists>table. config_ch_unique_identifier c = Inr table \<and>
        (landed rows_of SE c table s r \<or> in_dlq rows_of SE c table s r))"

lemma accounted_mono:
  assumes d: "durable rows_of (clickhouse SE)" and w: "sink_write SE c' records s = (x, s')"
    and a: "accounted rows_of SE c s r"
  shows "accounted rows_of SE c s' r"
proof -
  have "stored rows_of SE table s' v" if "stored rows_of SE table s v" for table v
    using that unfolding stored_def by (rule keeps_sink_write [OF durable_pool_keeps [OF d] _ w])
  with a show ?thesis unfolding accounted_def landed_def in_dlq_def by blast
qed

lemma sink_write_accounted:
  assumes "durable rows_of (clickhouse SE)" and "sink_write SE c records s = (Inr res, s')" and "r \<in> set records"
  shows "accounted rows_of SE c s' r"
  using sink_write_places [OF assms(1,2)] assms(3) by (auto simp: accounted_def)

lemma message_records_Inr:
  "message_records E p ms = Inr rs \<Longrightarrow> m \<in> set ms \<Longrightarrow> \<exists>r \<in> set rs. message_record E p m = Inr r"
proof (induction ms arbitrary: rs)
  case (Cons x xs)
  then show ?case by (cases "message_records E p xs") (auto split: sum.splits)
qed simp

lemma on_sink_eq: "on_sink m w = (r, w') \<longleftrightarrow> (\<exists>s. m (pool_sink w) = (r, s) \<and> w' = w\<lparr>pool_sink := s\<rparr>)"
  by (auto simp: on_sink_def split: prod.splits)

text \<open>The branches of one pass.\<close>

lemma insert_partition_cases:
  assumes "insert_partition E assigned (p, ms) w = (r, w')"
  obtains (skip) "r = Inr Skipped" "w' = w"
  | (lookup) x where "p \<in> set assigned" "registry_get E (fst p) w = (x, w')" "r = (case x of Inl e \<Rightarrow> Inl e | Inr _ \<Rightarrow> Inr Skipped)"
      "\<forall>c. x \<noteq> Inr (Some c)"
  | (parse) c e where "p \<in> set assigned" "registry_get E (fst p) w = (Inr (Some c), w')" "message_records E p ms = Inl e" "r = Inl e"
  | (stop) c w1 records e s where "p \<in> set assigned" "registry_get E (fst p) w = (Inr (Some c), w1)"
      "message_records E p ms = Inr records" "sink_write (sink_env_of E) c records (pool_sink w1) = (Inl e, s)"
      "r = Inr Stopped" "w' = w1\<lparr>pool_sink := s\<rparr>"
  | (empty) c w1 res s where "p \<in> set assigned" "registry_get E (fst p) w = (Inr (Some c), w1)"
      "sink_write (sink_env_of E) c [] (pool_sink w1) = (Inr res, s)" "ms = []"
      "r = Inl (OtherError ''IndexError'' ''list index out of range'')" "w' = w1\<lparr>pool_sink := s\<rparr>"
  | (wrote) c w1 records res s where "p \<in> set assigned" "registry_get E (fst p) w = (Inr (Some c), w1)"
      "message_records E p ms = Inr records" "sink_write (sink_env_of E) c records (pool_sink w1) = (Inr res, s)"
      "ms \<noteq> []" "r = Inr (Written (msg_offset (last ms) + 1))" "w' = w1\<lparr>pool_sink := s\<rparr>"
proof (cases "p \<in> set assigned")
  case False
  with assms show thesis by (intro skip) (simp_all add: insert_partition_def)
next
  case True
  obtain x w1 where g: "registry_get E (fst p) w = (x, w1)" by fastforce
  show thesis
  proof (cases "\<exists>c. x = Inr (Some c)")
    case False
    with assms True g have w': "w' = w1" and r: "r = (case x of Inl e \<Rightarrow> Inl e | Inr _ \<Rightarrow> Inr Skipped)"
      by (auto simp: insert_partition_def split: sum.splits option.splits)
    from False have "\<forall>c. x \<noteq> Inr (Some c)" by simp
    with lookup [OF True g [folded w'] r] show thesis by blast
  next
    case c: True
    then obtain c where x: "x = Inr (Some c)" by blast
    show thesis
    proof (cases "message_records E p ms")
      case (Inl e)
      with assms True g x show thesis by (intro parse) (auto simp: insert_partition_def)
    next
      case (Inr records)
      obtain y s where y: "sink_write (sink_env_of E) c records (pool_sink w1) = (y, s)" by fastforce
      then have o: "on_sink (sink_write (sink_env_of E) c records) w1 = (y, w1\<lparr>pool_sink := s\<rparr>)"
        by (simp add: on_sink_eq)
      show thesis
      proof (cases y)
        case (Inl e)
        with assms True g x Inr y o show thesis by (intro stop) (auto simp: insert_partition_def)
      next
        case res: (Inr res)
        show thesis
        proof (cases "ms = []")
          case nil: True
          with Inr have "records = []" by simp
          with assms True g x Inr y o res nil show thesis by (intro empty) (auto simp: insert_partition_def)
        next
          case False
          with assms True g x Inr y o res show thesis by (intro wrote) (auto simp: insert_partition_def)
        qed
      qed
    qed
  qed
qed

lemma insert_partition_frame:
  assumes "insert_partition E assigned pm w = (r, w')"
  shows "pool_kafka w' = pool_kafka w" and "routes E w' t c \<Longrightarrow> routes E w t c"
    and "durable rows_of (clickhouse (sink_env_of E)) \<Longrightarrow> accounted rows_of (sink_env_of E) c (pool_sink w) x \<Longrightarrow>
      accounted rows_of (sink_env_of E) c (pool_sink w') x"
proof -
  obtain p ms where pm: "pm = (p, ms)" by fastforce
  have upd: "routes E (v\<lparr>pool_sink := s\<rparr>) t c \<longleftrightarrow> routes E v t c" for v s
    by (simp add: routes_def split: option.split)
  from assms [unfolded pm] have "pool_kafka w' = pool_kafka w \<and> (routes E w' t c \<longrightarrow> routes E w t c) \<and>
    (durable rows_of (clickhouse (sink_env_of E)) \<longrightarrow> accounted rows_of (sink_env_of E) c (pool_sink w) x \<longrightarrow>
      accounted rows_of (sink_env_of E) c (pool_sink w') x)"
    by (cases rule: insert_partition_cases)
      (simp_all add: upd, (metis registry_get_frame registry_get_keeps_routes accounted_mono)+)
  then show "pool_kafka w' = pool_kafka w" and "routes E w' t c \<Longrightarrow> routes E w t c"
    and "durable rows_of (clickhouse (sink_env_of E)) \<Longrightarrow> accounted rows_of (sink_env_of E) c (pool_sink w) x \<Longrightarrow>
      accounted rows_of (sink_env_of E) c (pool_sink w') x" by blast+
qed

text \<open>
  An offset a round may commit: the partition is assigned and was in the fetch, the offset
  follows its last message, and each of its messages is accounted for under the
  configuration its topic routes to.
\<close>

definition settled ::
  "('c, 'r, 'v, 'k) pool_env \<Rightarrow> ('c \<Rightarrow> string \<Rightarrow> pyval list list) \<Rightarrow> ('c, 'r, 'k) pool \<Rightarrow> fetched \<Rightarrow>
     ('c, 'r, 'k) pool \<Rightarrow> topic_partition \<Rightarrow> int \<Rightarrow> bool" where
  "settled E rows_of w batches w' p n \<longleftrightarrow>
     (\<exists>ms c. (p, ms) \<in> set batches \<and> ms \<noteq> [] \<and> n = msg_offset (last ms) + 1 \<and> routes E w (fst p) c \<and>
        (\<forall>m \<in> set ms. \<exists>r. message_record E p m = Inr r \<and>
           accounted rows_of (sink_env_of E) c (pool_sink w') r))"

lemma settled_step:
  assumes d: "durable rows_of (clickhouse (sink_env_of E))" and i: "insert_partition E assigned pm w1 = (r, w2)"
    and s: "settled E rows_of w0 batches w1 p n"
  shows "settled E rows_of w0 batches w2 p n"
proof -
  from s obtain ms c where f: "(p, ms) \<in> set batches" "ms \<noteq> []" "n = msg_offset (last ms) + 1" "routes E w0 (fst p) c"
    and a: "\<forall>m \<in> set ms. \<exists>r. message_record E p m = Inr r \<and> accounted rows_of (sink_env_of E) c (pool_sink w1) r"
    by (auto simp: settled_def)
  from a have "\<forall>m \<in> set ms. \<exists>r. message_record E p m = Inr r \<and> accounted rows_of (sink_env_of E) c (pool_sink w2) r"
    using insert_partition_frame(3) [OF i d] by blast
  with f show ?thesis unfolding settled_def by blast
qed

lemma settled_written:
  assumes d: "durable rows_of (clickhouse (sink_env_of E))"
    and i: "insert_partition E assigned pm w = (Inr (Written n), w')"
    and old: "\<And>c. routes E w (fst (fst pm)) c \<Longrightarrow> routes E w0 (fst (fst pm)) c" and mem: "pm \<in> set batches"
  shows "settled E rows_of w0 batches w' (fst pm) n \<and> fst pm \<in> set assigned"
proof -
  obtain p ms where pm: "pm = (p, ms)" by fastforce
  from i [unfolded pm] show ?thesis
  proof (cases rule: insert_partition_cases)
    case (wrote c w1 records res s)
    have "\<exists>r. message_record E p m = Inr r \<and> accounted rows_of (sink_env_of E) c s r" if m: "m \<in> set ms" for m
      using message_records_Inr [OF wrote(3) m] sink_write_accounted [OF d wrote(4)] by blast
    with wrote registry_get_routes [OF wrote(2)] old pm mem show ?thesis
      by (auto simp: settled_def intro!: exI [of _ ms] exI [of _ c])
  qed (auto split: sum.splits)
qed

lemma insert_partitions_settles:
  assumes d: "durable rows_of (clickhouse (sink_env_of E))"
  shows "insert_partitions E assigned bs offs w = (Inr offs', w') \<Longrightarrow> set bs \<subseteq> set batches \<Longrightarrow>
    (\<And>t c. routes E w t c \<Longrightarrow> routes E w0 t c) \<Longrightarrow>
    (\<And>p n. (p, n) \<in> set offs \<Longrightarrow> p \<in> set assigned \<and> settled E rows_of w0 batches w p n) \<Longrightarrow>
    pool_kafka w' = pool_kafka w \<and>
    (\<forall>(p, n) \<in> set offs'. p \<in> set assigned \<and> settled E rows_of w0 batches w' p n)"
proof (induction bs arbitrary: offs w)
  case (Cons pm bs)
  obtain r w1 where i: "insert_partition E assigned pm w = (r, w1)" by fastforce
  note frame = insert_partition_frame [OF i]
  have old: "routes E w0 t c" if "routes E w1 t c" for t c
    using Cons.prems(3) frame(2) that by blast
  have offs: "p \<in> set assigned \<and> settled E rows_of w0 batches w1 p n" if "(p, n) \<in> set offs" for p n
    using Cons.prems(4) [OF that] settled_step [OF d i] by blast
  have sub: "set bs \<subseteq> set batches" "pm \<in> set batches" using Cons.prems(2) by auto
  show ?case
  proof (cases r)
    case (Inl e)
    with Cons.prems(1) i show ?thesis by simp
  next
    case (Inr x)
    show ?thesis
    proof (cases x)
      case Skipped
      with Cons.prems(1) i Inr have "insert_partitions E assigned bs offs w1 = (Inr offs', w')" by simp
      from Cons.IH [OF this sub(1) old offs] frame(1) show ?thesis by simp
    next
      case Stopped
      with Cons.prems(1) i Inr offs frame(1) show ?thesis by auto
    next
      case (Written n)
      with Cons.prems(1) i Inr have "insert_partitions E assigned bs (offs @ [(fst pm, n)]) w1 = (Inr offs', w')"
        by simp
      moreover have "settled E rows_of w0 batches w1 (fst pm) n \<and> fst pm \<in> set assigned"
        by (rule settled_written [OF d i [unfolded Inr Written] _ sub(2)]) (rule Cons.prems(3))
      ultimately have "pool_kafka w' = pool_kafka w1 \<and>
          (\<forall>(p, n) \<in> set offs'. p \<in> set assigned \<and> settled E rows_of w0 batches w' p n)"
        using offs by (intro Cons.IH [OF _ sub(1) old]) auto
      with frame(1) show ?thesis by simp
    qed
  qed
qed auto

lemma insert_partitions_kafka:
  "insert_partitions E assigned bs offs w = (r, w') \<Longrightarrow> pool_kafka w' = pool_kafka w"
proof (induction bs arbitrary: offs w)
  case (Cons pm bs)
  obtain x w1 where i: "insert_partition E assigned pm w = (x, w1)" by fastforce
  with Cons insert_partition_frame(1) [OF i] show ?case
    by (auto split: sum.splits outcome.splits)
qed simp

lemma commit_offsets_frame: "commit_offsets E offs w = (r, w') \<Longrightarrow>
   pool_sink w' = pool_sink w \<and> pool_redis w' = pool_redis w \<and> registry_cache w' = registry_cache w"
  by (auto simp: commit_offsets_def split: if_splits prod.splits sum.splits)

lemma commit_offsets_kafka: "commit_offsets E offs w = (r, w') \<Longrightarrow>
   pool_kafka w' = pool_kafka w \<or> (\<exists>res. kc_commit (consumer_of E) offs (pool_kafka w) = (res, pool_kafka w'))"
  by (auto simp: commit_offsets_def split: if_splits prod.splits sum.splits)

text \<open>Partitions before a failing one keep their offsets; those after it are not touched.\<close>

fun goes_on :: "outcome \<Rightarrow> bool" where
  "goes_on Stopped = False"
| "goes_on _ = True"

fun outcome_offset :: "topic_partition \<Rightarrow> outcome \<Rightarrow> (topic_partition \<times> int) list" where
  "outcome_offset p (Written n) = [(p, n)]"
| "outcome_offset p _ = []"

text \<open>The passes over a list of partitions none of which stops, with their outcomes.\<close>

inductive passes ::
  "('c, 'r, 'v, 'k) pool_env \<Rightarrow> topic_partition list \<Rightarrow> ('c, 'r, 'k) pool \<Rightarrow> fetched \<Rightarrow> outcome list \<Rightarrow>
     ('c, 'r, 'k) pool \<Rightarrow> bool" for E assigned where
  passes_Nil: "passes E assigned w [] [] w"
| passes_Cons: "insert_partition E assigned pm w = (Inr x, w1) \<Longrightarrow> goes_on x \<Longrightarrow> passes E assigned w1 bs xs w2 \<Longrightarrow>
    passes E assigned w (pm # bs) (x # xs) w2"

definition outcome_offsets :: "fetched \<Rightarrow> outcome list \<Rightarrow> (topic_partition \<times> int) list" where
  "outcome_offsets bs xs = concat (map2 (\<lambda>pm x. outcome_offset (fst pm) x) bs xs)"

lemma insert_partitions_passes:
  "passes E assigned w bs xs w1 \<Longrightarrow>
     insert_partitions E assigned (bs @ cs) offs w = insert_partitions E assigned cs (offs @ outcome_offsets bs xs) w1"
proof (induction arbitrary: offs rule: passes.induct)
  case (passes_Cons pm w x w1 bs xs w2)
  then show ?case by (cases x) (simp_all add: outcome_offsets_def)
qed (simp add: outcome_offsets_def)

lemma insert_partitions_stop:
  "passes E assigned w bs xs w1 \<Longrightarrow> insert_partition E assigned pm w1 = (Inr Stopped, w2) \<Longrightarrow>
     insert_partitions E assigned (bs @ pm # cs) [] w = (Inr (outcome_offsets bs xs), w2)"
  by (simp add: insert_partitions_passes)

lemma insert_partition_stops:
  assumes "p \<in> set assigned" and "routes E w (fst p) c" and "message_records E p ms = Inr records"
    and "fst (sink_write (sink_env_of E) c records (pool_sink w)) = Inl e"
  shows "\<exists>w'. insert_partition E assigned (p, ms) w = (Inr Stopped, w')"
proof -
  from registry_get_eq [OF assms(2)] obtain w1 where g: "registry_get E (fst p) w = (Inr (Some c), w1)" by blast
  with registry_get_frame [OF g] assms(4) obtain s
    where "sink_write (sink_env_of E) c records (pool_sink w1) = (Inl e, s)" by (metis prod.collapse)
  with assms(1,3) g show ?thesis by (simp add: insert_partition_def on_sink_def)
qed

section \<open>A consumer in memory\<close>

record memory_kafka =
  mem_assignment :: "topic_partition list"
  mem_committed :: "(topic_partition \<times> int) list"

definition memory_consumer :: "memory_kafka kafka_consumer" where
  "memory_consumer = \<lparr>kc_getmany = ret_io [], kc_assignment = mem_assignment,
     kc_commit = (\<lambda>offs k. (Inr (), k\<lparr>mem_committed := offs @ mem_committed k\<rparr>))\<rparr>"

definition memory_pool_env :: "(string \<Rightarrow> pyval list \<Rightarrow> bool) \<Rightarrow> (memory, fake_redis, doc, memory_kafka) pool_env" where
  "memory_pool_env ok = \<lparr>sink_env_of = memory_env ok, redis_of = fake_client, consumer_of = memory_consumer,
     decode_replace = id,
     json_loads = (\<lambda>s. if s = ''big'' then Inr (sample_message (VInt (2 ^ 1024)))
                        else Inr (sample_message (VFloat (Fin 5))))\<rparr>"

definition sample_partition :: topic_partition where
  "sample_partition = (''pipeline.p1.events'', 0)"

definition sample_pool :: "(memory, fake_redis, memory_kafka) pool" where
  "sample_pool = \<lparr>pool_sink = fresh_sink sample_time\<lparr>known_tables := [''user_7_collection_2_t'']\<rparr>,
     pool_redis = empty_redis,
     pool_kafka = \<lparr>mem_assignment = [sample_partition], mem_committed = []\<rparr>,
     registry_cache = [(''pipeline.p1.events'', sample_config)]\<rparr>"

definition sample_messages :: "string \<Rightarrow> int \<Rightarrow> kafka_message list" where
  "sample_messages text n = [\<lparr>msg_value = Some text, msg_offset = n\<rparr>]"

lemmas sample_pool_defs = memory_pool_env_def memory_consumer_def sample_partition_def sample_pool_def sample_messages_def

lemma sample_consumer: "consumer_of (memory_pool_env ok) = memory_consumer"
  by (simp add: memory_pool_env_def)

lemma sample_routes: "routes (memory_pool_env ok) sample_pool (fst sample_partition) c \<longleftrightarrow> c = sample_config"
  by (auto simp: routes_def sample_pool_defs)

lemma sample_registry:
  "registry_get (memory_pool_env ok) (fst sample_partition) sample_pool = (Inr (Some sample_config), sample_pool)"
  by (simp add: registry_get_def sample_partition_def sample_pool_def)

lemma sample_assignment:
  "kc_assignment (consumer_of (memory_pool_env ok)) (pool_kafka sample_pool) = [sample_partition]"
  by (simp add: sample_consumer memory_consumer_def sample_pool_def)

lemma sample_message_records:
  "\<exists>r. message_records (memory_pool_env ok) sample_partition (sample_messages text n) = Inr [r] \<and>
     rec_value r = (if text = ''big'' then sample_message (VInt (2 ^ 1024)) else sample_message (VFloat (Fin 5)))"
  by (simp add: sample_messages_def message_record_def memory_pool_env_def Let_def)

lemma sample_pool_now: "sink_now (memory_env ok) (pool_sink sample_pool) = sample_time"
  using memory_now by (simp add: sample_pool_def sink_now_def)

lemma sample_pool_write:
  assumes "rec_value r = sample_message (VFloat (Fin 5))"
  shows "\<exists>res s. sink_write (memory_env not_13) sample_config [r] (pool_sink sample_pool) = (Inr res, s)"
proof -
  have "\<exists>res s. sink_write (memory_env not_13) sample_config [r] (pool_sink sample_pool) = (Inr res, s) \<and>
      length (filter (insertable (memory_env not_13) sample_config (not_13 []) sample_time) [r]) \<le> written res"
    by (rule sink_write_good [OF not_13_accepts sample_identifier])
      (use assms in \<open>auto simp: sample_value_values split_value_def sample_pool_now\<close>)
  then show ?thesis by blast
qed

section \<open>Properties\<close>

text \<open>
  C1: commits follow inserts. Whatever a round raises, the only change it makes to the consumer
  is one commit, and each offset in it belongs to an assigned partition of the fetch, follows
  its last message, and has every message before it in the fetch stored in the pipeline's
  table or in \<open>dead_letter_events\<close>.
\<close>

theorem commit_follows_insert:
  assumes d: "durable rows_of (clickhouse (sink_env_of E))"
    and run: "insert_then_commit E batches w = (r, w')"
  shows "pool_kafka w' = pool_kafka w \<or>
    (\<exists>offs res. kc_commit (consumer_of E) offs (pool_kafka w) = (res, pool_kafka w') \<and>
       (\<forall>(p, n) \<in> set offs. p \<in> set (kc_assignment (consumer_of E) (pool_kafka w)) \<and>
          settled E rows_of w batches w' p n))"
proof -
  let ?A = "kc_assignment (consumer_of E) (pool_kafka w)"
  obtain x w1 where i: "insert_partitions E ?A batches [] w = (x, w1)" by fastforce
  show ?thesis
  proof (cases x)
    case (Inl e)
    with run i have "w' = w1" by (simp add: insert_then_commit_def bind_io_def)
    with insert_partitions_kafka [OF i] show ?thesis by simp
  next
    case (Inr offs)
    with i have "insert_partitions E ?A batches [] w = (Inr offs, w1)" by simp
    from insert_partitions_settles [OF d this order_refl, of w] have k: "pool_kafka w1 = pool_kafka w"
      and st: "\<forall>(p, n) \<in> set offs. p \<in> set ?A \<and> settled E rows_of w batches w1 p n" by auto
    from Inr run i have c: "commit_offsets E offs w1 = (r, w')" by (simp add: insert_then_commit_def bind_io_def)
    have "settled E rows_of w batches w' p n \<longleftrightarrow> settled E rows_of w batches w1 p n" for p n
      using commit_offsets_frame [OF c] by (simp add: settled_def)
    with st have st': "\<forall>(p, n) \<in> set offs. p \<in> set ?A \<and> settled E rows_of w batches w' p n" by simp
    from commit_offsets_kafka [OF c] k have "pool_kafka w' = pool_kafka w \<or>
      (\<exists>res. kc_commit (consumer_of E) offs (pool_kafka w) = (res, pool_kafka w'))" by simp
    with st' show ?thesis by blast
  qed
qed

lemma commit_follows_insert_witness:
  "\<exists>w'. insert_then_commit (memory_pool_env not_13) [(sample_partition, sample_messages ''x'' 4)] sample_pool = (Inr (), w') \<and>
     mem_committed (pool_kafka w') = [(sample_partition, 5)] \<and>
     settled (memory_pool_env not_13) mem_rows sample_pool [(sample_partition, sample_messages ''x'' 4)] w' sample_partition 5"
proof -
  let ?E = "memory_pool_env not_13" and ?b = "[(sample_partition, sample_messages ''x'' 4)]"
  obtain r where m: "message_records ?E sample_partition (sample_messages ''x'' 4) = Inr [r]"
    and v: "rec_value r = sample_message (VFloat (Fin 5))"
    using sample_message_records [of not_13 "''x''" 4] by auto
  obtain res s where s: "sink_write (memory_env not_13) sample_config [r] (pool_sink sample_pool) = (Inr res, s)"
    using sample_pool_write [OF v] by blast
  note g = sample_registry [of not_13]
  define w' where "w' = sample_pool\<lparr>pool_sink := s,
    pool_kafka := \<lparr>mem_assignment = [sample_partition], mem_committed = [(sample_partition, 5)]\<rparr>\<rparr>"
  have "insert_partition ?E [sample_partition] (sample_partition, sample_messages ''x'' 4) sample_pool
      = (Inr (Written 5), sample_pool\<lparr>pool_sink := s\<rparr>)"
    using g m s by (simp add: insert_partition_def on_sink_def) (simp add: memory_pool_env_def sample_messages_def)
  then have run: "insert_then_commit ?E ?b sample_pool = (Inr (), w')"
    by (simp add: insert_then_commit_def bind_io_def commit_offsets_def memory_consumer_def w'_def)
      (simp add: memory_pool_env_def memory_consumer_def sample_pool_def commit_offsets_def)
  have "durable mem_rows (clickhouse (sink_env_of ?E))" using memory_durable by (simp add: memory_pool_env_def)
  note committed = commit_follows_insert [OF this run, unfolded sample_consumer]
  have k: "pool_kafka w' = \<lparr>mem_assignment = [sample_partition], mem_committed = [(sample_partition, 5)]\<rparr>"
    "pool_kafka sample_pool = \<lparr>mem_assignment = [sample_partition], mem_committed = []\<rparr>"
    by (simp_all add: w'_def sample_pool_def)
  then have "pool_kafka w' \<noteq> pool_kafka sample_pool" by simp
  with committed obtain offs res where c: "kc_commit memory_consumer offs (pool_kafka sample_pool) = (res, pool_kafka w')"
    and st: "\<forall>(p, n) \<in> set offs. p \<in> set (kc_assignment memory_consumer (pool_kafka sample_pool)) \<and>
      settled ?E mem_rows sample_pool ?b w' p n" by blast
  from c k have "offs = [(sample_partition, 5)]" by (simp add: memory_consumer_def)
  with st k run show ?thesis by (intro exI [of _ w']) simp
qed

text \<open>
  When the write of a partition raises, whatever the exception, the round stops there: the
  offsets of the partitions before it are committed, and none of it or of those after it.
\<close>

lemma failing_partition_stops_round:
  assumes "passes E (kc_assignment (consumer_of E) (pool_kafka w)) w bs xs w1"
    and "p \<in> set (kc_assignment (consumer_of E) (pool_kafka w))" and "routes E w1 (fst p) c"
    and "message_records E p ms = Inr records"
    and "fst (sink_write (sink_env_of E) c records (pool_sink w1)) = Inl e"
  shows "\<exists>w2. insert_then_commit E (bs @ (p, ms) # cs) w = commit_offsets E (outcome_offsets bs xs) w2 \<and>
    pool_kafka w2 = pool_kafka w"
proof -
  obtain w2 where st: "insert_partition E (kc_assignment (consumer_of E) (pool_kafka w)) (p, ms) w1 = (Inr Stopped, w2)"
    using insert_partition_stops [OF assms(2-5)] by blast
  note i = insert_partitions_stop [OF assms(1) st, of cs]
  from insert_partitions_kafka [OF i] i show ?thesis
    by (intro exI [of _ w2]) (simp add: insert_then_commit_def bind_io_def)
qed

lemma sample_big_write:
  assumes "rec_value r = sample_message (VInt (2 ^ 1024))"
  shows "\<exists>e. sink_write (memory_env not_13) sample_config [r] (pool_sink sample_pool) = (Inl e, pool_sink sample_pool)"
  by (rule sink_write_poison [OF sample_identifier])
    (use assms in \<open>auto simp: sample_pool_now oversized_values\<close>, simp add: sample_pool_def)



text \<open>
  An exception outside the write, such as a message without a value or a configuration that
  no longer validates, leaves the round with nothing committed, the batches already inserted
  included.
\<close>

lemma escaping_error_commits_nothing:
  assumes "passes E (kc_assignment (consumer_of E) (pool_kafka w)) w bs xs w1"
    and "insert_partition E (kc_assignment (consumer_of E) (pool_kafka w)) pm w1 = (Inl e, w2)"
  shows "insert_then_commit E (bs @ pm # cs) w = (Inl e, w2) \<and> pool_kafka w2 = pool_kafka w"
proof -
  have i: "insert_partitions E (kc_assignment (consumer_of E) (pool_kafka w)) (bs @ pm # cs) [] w = (Inl e, w2)"
    using assms(2) by (simp add: insert_partitions_passes [OF assms(1)])
  from insert_partitions_kafka [OF i] i show ?thesis by (simp add: insert_then_commit_def bind_io_def)
qed

text \<open>
  The topic the API derives from a pipeline id routes back to that pipeline, and among topic
  names without a newline it is the only one that does.
\<close>

lemma topic_routes_to_its_pipeline:
  assumes "pipeline_id_ok pid"
  shows "topic_pipeline_id (topic_of pid) = Some pid \<and>
    (\<forall>t. newline \<notin> set t \<longrightarrow> (topic_pipeline_id t = Some pid \<longleftrightarrow> t = topic_of pid))"
proof -
  have "newline \<notin> set ascii_letters" "newline \<notin> set decimal_digits"
    by (simp_all add: ascii_letters_def decimal_digits_def)
  with assms have "pid \<noteq> [] \<and> newline \<notin> set pid" by (auto simp: pipeline_id_ok_def list_all_iff)
  then show ?thesis by (auto simp: topic_pipeline_id_Some_iff)
qed

text \<open>
  A pipeline may be created with a topic of any name, and is provisioned with it; but the pool
  never takes the configuration of that pipeline for the topic, unless the name is the one above.
  What it finds, if anything, is the configuration of the pipeline that the name spells.
\<close>

lemma other_topic_other_pipeline:
  assumes "pipeline_id_ok pid" and "newline \<notin> set t" and "t \<noteq> topic_of pid" and "map_of (registry_cache w) t = None"
    and "registry_get E t w = (Inr (Some c), w1)"
  shows "\<exists>p. p \<noteq> pid \<and> topic_pipeline_id t = Some p \<and> stored_config (redis_of E) (pool_redis w) p = Inr (Some c)"
proof -
  have "newline \<notin> set ascii_letters" "newline \<notin> set decimal_digits"
    by (simp_all add: ascii_letters_def decimal_digits_def)
  with assms(1) have "pid \<noteq> [] \<and> newline \<notin> set pid" by (auto simp: pipeline_id_ok_def list_all_iff)
  with assms(2,3) have "topic_pipeline_id t \<noteq> Some pid" by (auto simp: topic_pipeline_id_Some_iff)
  with registry_get_routes [OF assms(5)] assms(4) show ?thesis by (auto simp: routes_def)
qed

text \<open>
  The topics the pool subscribes to: the default pattern, matched at the beginning of the name, in which the
  dot of \<open>.*\<close> stands for anything but a newline.
\<close>

definition pattern_matches :: "string \<Rightarrow> bool" where
  "pattern_matches t \<longleftrightarrow> startswith t ''pipeline.'' \<and>
     (let rest = removeprefix t ''pipeline.'' in
      list_ex (\<lambda>n. startswith (drop n rest) ''.events'' \<and> newline \<notin> set (take n rest)) [0 ..< Suc (length rest)])"

text \<open>Every topic the registry can resolve is subscribed to; a topic of another form is not.\<close>

lemma resolved_is_subscribed:
  assumes "topic_pipeline_id t = Some p" and "newline \<notin> set t"
  shows "pattern_matches t"
proof -
  from assms have t: "t = topic_of p" "p \<noteq> []" "newline \<notin> set p" by (auto simp: topic_pipeline_id_Some_iff)
  then have rest: "startswith t ''pipeline.''" "removeprefix t ''pipeline.'' = p @ ''.events''"
    by (simp_all add: topic_of_def startswith_def removeprefix_def)
  have "startswith (drop (length p) (p @ ''.events'')) ''.events'' \<and> newline \<notin> set (take (length p) (p @ ''.events''))"
    using t(3) by (simp add: startswith_def)
  then show ?thesis
    unfolding pattern_matches_def rest Let_def list_ex_iff using rest(1)
    by (intro conjI bexI [of _ "length p"]) simp_all
qed

lemma custom_topic_is_not_subscribed: "\<not> pattern_matches ''plant.line1''"
  by code_simp

end
