(* ===== verification/Rebalance.thy ===== *)
theory Rebalance
  imports Prelude
begin

text \<open>
  \<open>CommitBeforeRevoke\<close> of \<^verbatim>\<open>consumer_pool/app/main.py\<close>: the lock that \<open>_handle\<close> holds across
  insert and commit, the revoke callback that waits for it, and the group generation a commit
  is valid in. A generation ends when the callback returns, or when the broker evicts a
  member whose session timed out, which no lock delays.
\<close>

datatype handler = Idle | Inserting | Committing

text \<open>
  \<open>batch_generation\<close> is the generation in which the batch in flight was taken up;
  \<open>commits\<close> pairs, for each commit, that generation with the one it reached the broker in.
\<close>

record group_member =
  lock_held :: bool
  handler :: handler
  generation :: nat
  batch_generation :: nat
  commits :: "(nat \<times> nat) list"

datatype group_event = TakeBatch | BatchInserted | OffsetsCommitted | RevokeReturns | Evicted

inductive group_step :: "group_member \<Rightarrow> group_event \<Rightarrow> group_member \<Rightarrow> bool" where
  take_batch: "\<not> lock_held s \<Longrightarrow> handler s = Idle \<Longrightarrow>
    group_step s TakeBatch (s\<lparr>lock_held := True, handler := Inserting, batch_generation := generation s\<rparr>)"
| batch_inserted: "handler s = Inserting \<Longrightarrow> group_step s BatchInserted (s\<lparr>handler := Committing\<rparr>)"
| offsets_committed: "handler s = Committing \<Longrightarrow>
    group_step s OffsetsCommitted
      (s\<lparr>lock_held := False, handler := Idle, commits := (batch_generation s, generation s) # commits s\<rparr>)"
| revoke_returns: "\<not> lock_held s \<Longrightarrow> group_step s RevokeReturns (s\<lparr>generation := Suc (generation s)\<rparr>)"
| evicted: "group_step s Evicted (s\<lparr>generation := Suc (generation s)\<rparr>)"

inductive_cases group_stepE: "group_step s e s'"

inductive group_run :: "group_member \<Rightarrow> group_event list \<Rightarrow> group_member \<Rightarrow> bool" where
  group_done: "group_run s [] s"
| group_more: "group_run s es s' \<Longrightarrow> group_step s' e s'' \<Longrightarrow> group_run s (es @ [e]) s''"

definition joined :: "nat \<Rightarrow> group_member" where
  "joined g = \<lparr>lock_held = False, handler = Idle, generation = g, batch_generation = g, commits = []\<rparr>"

text \<open>The lock is held exactly while a batch is in flight, under the generation it was taken in.\<close>

definition group_inv :: "group_member \<Rightarrow> bool" where
  "group_inv s \<longleftrightarrow> (lock_held s \<longleftrightarrow> handler s \<noteq> Idle) \<and>
     (lock_held s \<longrightarrow> batch_generation s = generation s) \<and> (\<forall>(b, g) \<in> set (commits s). b = g)"

lemma group_inv_joined: "group_inv (joined g)"
  by (simp add: group_inv_def joined_def)

lemma group_inv_step: "group_step s e s' \<Longrightarrow> e \<noteq> Evicted \<Longrightarrow> group_inv s \<Longrightarrow> group_inv s'"
  by (induction rule: group_step.induct) (auto simp: group_inv_def)

lemma group_inv_run: "group_run s es s' \<Longrightarrow> Evicted \<notin> set es \<Longrightarrow> group_inv s \<Longrightarrow> group_inv s'"
  by (induction rule: group_run.induct) (auto intro: group_inv_step)

section \<open>Properties\<close>

text \<open>
  C39: unless the broker evicts the member, every commit reaches the broker in the generation in
  which its batch was taken up: a rebalance never comes between an insert and its commit.
\<close>

theorem commit_in_its_generation:
  assumes "group_run (joined g) es s" and "Evicted \<notin> set es"
  shows "\<forall>(b, g') \<in> set (commits s). b = g'"
  using group_inv_run [OF assms group_inv_joined] by (simp add: group_inv_def)

lemma commit_in_its_generation_witness:
  "\<exists>s. group_run (joined 3) [RevokeReturns, TakeBatch, BatchInserted, OffsetsCommitted] s \<and>
     commits s = [(4, 4)] \<and> (\<forall>(b, g') \<in> set (commits s). b = g')"
proof -
  let ?s1 = "(joined 3)\<lparr>generation := 4\<rparr>"
  let ?s2 = "?s1\<lparr>lock_held := True, handler := Inserting, batch_generation := 4\<rparr>"
  let ?s3 = "?s2\<lparr>handler := Committing\<rparr>"
  let ?s4 = "?s3\<lparr>lock_held := False, handler := Idle, commits := [(4, 4)]\<rparr>"
  have "group_run (joined 3) ([] @ [RevokeReturns]) ?s1"
    by (rule group_more [OF group_done]) (use revoke_returns [of "joined 3"] in \<open>simp add: joined_def\<close>)
  then have "group_run (joined 3) (([] @ [RevokeReturns]) @ [TakeBatch]) ?s2"
    by (rule group_more) (use take_batch [of ?s1] in \<open>simp add: joined_def\<close>)
  then have "group_run (joined 3) ((([] @ [RevokeReturns]) @ [TakeBatch]) @ [BatchInserted]) ?s3"
    by (rule group_more) (use batch_inserted [of ?s2] in \<open>simp add: joined_def\<close>)
  then have "group_run (joined 3) (((([] @ [RevokeReturns]) @ [TakeBatch]) @ [BatchInserted]) @ [OffsetsCommitted]) ?s4"
    by (rule group_more) (use offsets_committed [of ?s3] in \<open>simp add: joined_def\<close>)
  then have r: "group_run (joined 3) [RevokeReturns, TakeBatch, BatchInserted, OffsetsCommitted] ?s4" by simp
  from commit_in_its_generation [OF r] r show ?thesis by (intro exI [of _ ?s4]) simp
qed

end
