(* ===== verification/Templates.thy ===== *)
theory Templates
  imports Models
begin

text \<open>
  The two pieces of Python's standard library through which a configuration becomes text:
  \<open>string.Template\<close> substitution and \<open>json.dumps\<close> of strings and of string maps. The lemmas
  relate substitution to a token-level reference and read quoted strings back.
\<close>

section \<open>\<open>string.Template\<close>\<close>

definition ident_start :: "char \<Rightarrow> bool" where
  "ident_start c \<longleftrightarrow> c = CHR ''_'' \<or> c \<in> set ascii_letters"

definition ident_char :: "char \<Rightarrow> bool" where
  "ident_char c \<longleftrightarrow> ident_start c \<or> c \<in> set decimal_digits"

text \<open>
  What a dollar sign begins: an escaped dollar, a name with the text after it and the text of
  the placeholder, or nothing valid.
\<close>

datatype placeholder = Escaped string | Named string string string | Invalid

definition read_name :: "string \<Rightarrow> (string \<times> string) option" where
  "read_name s =
     (case s of [] \<Rightarrow> None
      | c # cs \<Rightarrow> if ident_start c then Some (takeWhile ident_char s, dropWhile ident_char s) else None)"

definition read_placeholder :: "string \<Rightarrow> placeholder" where
  "read_placeholder s =
     (case s of
        [] \<Rightarrow> Invalid
      | c # cs \<Rightarrow>
          if c = CHR ''$'' then Escaped cs
          else if c = CHR ''{'' then
            (case read_name cs of
               Some (n, r # rest) \<Rightarrow> if r = CHR ''}'' then Named n rest (''${'' @ n @ ''}'') else Invalid
             | _ \<Rightarrow> Invalid)
          else (case read_name s of Some (n, rest) \<Rightarrow> Named n rest (CHR ''$'' # n) | None \<Rightarrow> Invalid))"

lemma read_name_length: "read_name s = Some (n, rest) \<Longrightarrow> length rest \<le> length s"
proof -
  assume "read_name s = Some (n, rest)"
  then have "rest = dropWhile ident_char s" by (auto simp: read_name_def split: list.splits if_splits)
  then show "length rest \<le> length s" by (simp only: length_dropWhile_le)
qed

lemma read_placeholder_length:
  "read_placeholder s = Escaped rest \<Longrightarrow> length rest < length s"
  "read_placeholder s = Named n rest t \<Longrightarrow> length rest \<le> length s"
proof -
  show "read_placeholder s = Escaped rest \<Longrightarrow> length rest < length s"
    by (auto simp: read_placeholder_def split: list.splits if_splits option.splits)
  show "length rest \<le> length s" if "read_placeholder s = Named n rest t"
  proof (cases s)
    case (Cons c cs)
    with that consider "read_name cs = Some (n, CHR ''}'' # rest)" | "read_name s = Some (n, rest)"
      by (auto simp: read_placeholder_def split: list.splits if_splits option.splits prod.splits)
    then show ?thesis using read_name_length [of cs n] read_name_length [of s n rest] Cons
      by cases fastforce+
  qed (use that in \<open>simp add: read_placeholder_def\<close>)
qed

function (sequential) safe_substitute :: "(string \<times> string) list \<Rightarrow> string \<Rightarrow> string" where
  "safe_substitute env [] = []"
| "safe_substitute env (c # cs) =
     (if c \<noteq> CHR ''$'' then c # safe_substitute env cs
      else case read_placeholder cs of
             Escaped rest \<Rightarrow> CHR ''$'' # safe_substitute env rest
           | Named n rest t \<Rightarrow> (case map_of env n of Some v \<Rightarrow> v | None \<Rightarrow> t) @ safe_substitute env rest
           | Invalid \<Rightarrow> CHR ''$'' # safe_substitute env cs)"
  by pat_completeness auto
termination
  by (relation "measure (length \<circ> snd)") (auto dest: read_placeholder_length)

text \<open>\<open>substitute\<close> raises where \<open>safe_substitute\<close> leaves the text.\<close>

function (sequential) substitute :: "(string \<times> string) list \<Rightarrow> string \<Rightarrow> string result" where
  "substitute env [] = Inr []"
| "substitute env (c # cs) =
     (if c \<noteq> CHR ''$'' then map_sum id (\<lambda>r. c # r) (substitute env cs)
      else case read_placeholder cs of
             Escaped rest \<Rightarrow> map_sum id (\<lambda>r. CHR ''$'' # r) (substitute env rest)
           | Named n rest t \<Rightarrow>
               (case map_of env n of
                  None \<Rightarrow> Inl (KeyError n)
                | Some v \<Rightarrow> map_sum id (\<lambda>r. v @ r) (substitute env rest))
           | Invalid \<Rightarrow> Inl (ValueError ''Invalid placeholder in string''))"
  by pat_completeness auto
termination
  by (relation "measure (length \<circ> snd)") (auto dest: read_placeholder_length)

text \<open>Where the strict one succeeds the two agree.\<close>

lemma substitute_Inr: "substitute env s = Inr t \<Longrightarrow> safe_substitute env s = t"
proof (induction env s arbitrary: t rule: substitute.induct)
  case (2 env c cs)
  show ?case
  proof (cases "c = CHR ''$''")
    case False
    with 2 show ?thesis by (cases "substitute env cs") auto
  next
    case True
    show ?thesis
    proof (cases "read_placeholder cs")
      case (Escaped rest)
      with 2 True show ?thesis by (cases "substitute env rest") auto
    next
      case (Named n rest t')
      with 2 True show ?thesis by (cases "substitute env rest") (auto split: option.splits)
    qed (use 2 True in auto)
  qed
qed simp

section \<open>Templates as tokens\<close>

text \<open>
  A template seen as what it is made of: text, an escaped dollar, a name with or without
  braces. The character after a name without braces must not belong to a name.
\<close>

datatype token = Lit string | Dollar | Bare string | Braced string

definition name_ok :: "string \<Rightarrow> bool" where
  "name_ok n \<longleftrightarrow> (case n of [] \<Rightarrow> False | c # cs \<Rightarrow> ident_start c \<and> list_all ident_char cs)"

fun unparse :: "token list \<Rightarrow> string" where
  "unparse [] = []"
| "unparse (Lit s # ts) = s @ unparse ts"
| "unparse (Dollar # ts) = CHR ''$'' # CHR ''$'' # unparse ts"
| "unparse (Bare n # ts) = CHR ''$'' # n @ unparse ts"
| "unparse (Braced n # ts) = CHR ''$'' # CHR ''{'' # n @ CHR ''}'' # unparse ts"

fun tokens_ok :: "token list \<Rightarrow> bool" where
  "tokens_ok [] = True"
| "tokens_ok (Lit s # ts) = (CHR ''$'' \<notin> set s \<and> tokens_ok ts)"
| "tokens_ok (Dollar # ts) = tokens_ok ts"
| "tokens_ok (Bare n # ts) =
     (name_ok n \<and> (unparse ts = [] \<or> \<not> ident_char (hd (unparse ts))) \<and> tokens_ok ts)"
| "tokens_ok (Braced n # ts) = (name_ok n \<and> tokens_ok ts)"

fun token_value :: "(string \<times> string) list \<Rightarrow> token \<Rightarrow> string" where
  "token_value env (Lit s) = s"
| "token_value env Dollar = ''$''"
| "token_value env (Bare n) = (case map_of env n of Some v \<Rightarrow> v | None \<Rightarrow> CHR ''$'' # n)"
| "token_value env (Braced n) = (case map_of env n of Some v \<Rightarrow> v | None \<Rightarrow> ''${'' @ n @ ''}'')"

fun token_names :: "token list \<Rightarrow> string list" where
  "token_names [] = []"
| "token_names (Bare n # ts) = n # token_names ts"
| "token_names (Braced n # ts) = n # token_names ts"
| "token_names (_ # ts) = token_names ts"

lemma safe_substitute_literal:
  "CHR ''$'' \<notin> set s \<Longrightarrow> safe_substitute env (s @ t) = s @ safe_substitute env t"
  by (induction s) auto

lemma substitute_literal:
  "CHR ''$'' \<notin> set s \<Longrightarrow> substitute env (s @ t) = map_sum id ((@) s) (substitute env t)"
  by (induction s; cases "substitute env t") auto

lemma not_ident_chars [simp]:
  "\<not> ident_char CHR ''}''" "\<not> ident_start CHR ''$''" "\<not> ident_start CHR ''{''"
  by (simp_all add: ident_char_def ident_start_def ascii_letters_def decimal_digits_def)

lemma read_name_append:
  assumes "name_ok n" and "t = [] \<or> \<not> ident_char (hd t)"
  shows "read_name (n @ t) = Some (n, t)"
proof -
  from assms(1) obtain c cs where n: "n = c # cs" "ident_start c" "list_all ident_char cs"
    by (auto simp: name_ok_def split: list.splits)
  then have all: "\<And>x. x \<in> set n \<Longrightarrow> ident_char x" by (auto simp: ident_char_def list_all_iff)
  have "takeWhile ident_char t = []" "dropWhile ident_char t = t" using assms(2) by (cases t; simp)+
  with all have "takeWhile ident_char (n @ t) = n" "dropWhile ident_char (n @ t) = t"
    by (simp_all add: takeWhile_append2 dropWhile_append2)
  with n show ?thesis by (simp add: read_name_def)
qed

lemma read_placeholder_braced:
  "name_ok n \<Longrightarrow> read_placeholder (CHR ''{'' # n @ CHR ''}'' # t) = Named n t (''${'' @ n @ ''}'')"
  using read_name_append [of n "CHR ''}'' # t"] by (simp add: read_placeholder_def)

lemma read_placeholder_bare:
  assumes "name_ok n" and "t = [] \<or> \<not> ident_char (hd t)"
  shows "read_placeholder (n @ t) = Named n t (CHR ''$'' # n)"
proof -
  obtain c cs where n: "n = c # cs" "ident_start c"
    using assms(1) by (auto simp: name_ok_def split: list.splits)
  then have "c \<noteq> CHR ''$''" "c \<noteq> CHR ''{''" by auto
  with read_name_append [OF assms] n show ?thesis by (auto simp: read_placeholder_def)
qed

lemma read_placeholder_dollar: "read_placeholder (CHR ''$'' # t) = Escaped t"
  by (simp add: read_placeholder_def)

text \<open>One pass over the text is substitution token by token; inserted values are not read again.\<close>

lemma safe_substitute_unparse:
  "tokens_ok ts \<Longrightarrow> safe_substitute env (unparse ts) = concat (map (token_value env) ts)"
proof (induction ts rule: unparse.induct)
  case (4 n ts)
  then show ?case using read_placeholder_bare [of n "unparse ts"] by (simp split: option.split)
next
  case (5 n ts)
  then show ?case using read_placeholder_braced [of n "unparse ts"] by (simp split: option.split)
qed (simp_all add: safe_substitute_literal read_placeholder_dollar)

text \<open>The strict form succeeds when every name has a value.\<close>

lemma substitute_unparse:
  "tokens_ok ts \<Longrightarrow> \<forall>n \<in> set (token_names ts). map_of env n \<noteq> None \<Longrightarrow>
     substitute env (unparse ts) = Inr (concat (map (token_value env) ts))"
proof (induction ts rule: unparse.induct)
  case (4 n ts)
  then show ?case using read_placeholder_bare [of n "unparse ts"] by (auto split: option.split)
next
  case (5 n ts)
  then show ?case using read_placeholder_braced [of n "unparse ts"] by (auto split: option.split)
qed (simp_all add: substitute_literal read_placeholder_dollar)

section \<open>JSON strings\<close>

abbreviation dquote :: char where "dquote \<equiv> CHR 0x22"

abbreviation backslash :: char where "backslash \<equiv> CHR 0x5C"

definition hex_digit :: "nat \<Rightarrow> char" where
  "hex_digit n = ''0123456789abcdef'' ! n"

text \<open>The two-character escapes, by the character after the backslash.\<close>

definition short_escapes :: "(char \<times> char) list" where
  "short_escapes =
     [(dquote, dquote), (backslash, backslash), (CHR ''n'', CHR 0x0A), (CHR ''r'', CHR 0x0D),
      (CHR ''t'', CHR 0x09), (CHR ''b'', CHR 0x08), (CHR ''f'', CHR 0x0C)]"

text \<open>\<open>json.dumps\<close> escapes everything outside the printable ASCII range.\<close>

definition json_char :: "char \<Rightarrow> string" where
  "json_char c =
     (let n = of_char c :: nat in
      case map_of (map (\<lambda>(k, v). (v, k)) short_escapes) c of
        Some k \<Rightarrow> [backslash, k]
      | None \<Rightarrow> if 32 \<le> n \<and> n \<le> 126 then [c]
                else [backslash, CHR ''u'', CHR ''0'', CHR ''0'', hex_digit (n div 16), hex_digit (n mod 16)])"

definition json_string :: "string \<Rightarrow> string" where
  "json_string s = dquote # concat (map json_char s) @ [dquote]"

text \<open>
  A reader of quoted strings, for the escapes that JSON strings and TOML basic strings share.
  It returns the text and what follows the closing quote.
\<close>

definition hex_value :: "char \<Rightarrow> nat option" where
  "hex_value c = map_of (zip ''0123456789abcdef'' [0..<16]) c"

definition read_hex :: "string \<Rightarrow> (char \<times> string) option" where
  "read_hex s =
     (case s of
        a # b # x # y # rest \<Rightarrow>
          (case (hex_value a, hex_value b, hex_value x, hex_value y) of
             (Some 0, Some 0, Some i, Some j) \<Rightarrow> Some (char_of (16 * i + j), rest)
           | _ \<Rightarrow> None)
      | _ \<Rightarrow> None)"

definition read_escape :: "string \<Rightarrow> (char \<times> string) option" where
  "read_escape s =
     (case s of [] \<Rightarrow> None
      | c # cs \<Rightarrow>
          (case map_of short_escapes c of
             Some d \<Rightarrow> Some (d, cs)
           | None \<Rightarrow> if c = CHR ''u'' then read_hex cs else None))"

lemma read_hex_append: "read_hex s = Some (c, rest) \<Longrightarrow> read_hex (s @ t) = Some (c, rest @ t)"
  by (auto simp: read_hex_def split: list.splits option.splits nat.splits)

lemma read_escape_append: "read_escape s = Some (c, rest) \<Longrightarrow> read_escape (s @ t) = Some (c, rest @ t)"
  by (auto simp: read_escape_def read_hex_append split: list.splits option.splits if_splits)

lemma read_escape_length: "read_escape s = Some (c, rest) \<Longrightarrow> length rest < length s"
  by (auto simp: read_escape_def read_hex_def split: list.splits option.splits if_splits nat.splits)

function (sequential) read_quoted :: "string \<Rightarrow> (string \<times> string) option" where
  "read_quoted [] = None"
| "read_quoted (c # cs) =
     (if c = dquote then Some ([], cs)
      else if c = backslash
      then (case read_escape cs of
              None \<Rightarrow> None
            | Some (d, rest) \<Rightarrow> map_option (\<lambda>(s, t). (d # s, t)) (read_quoted rest))
      else if (of_char c :: nat) < 32 then None
      else map_option (\<lambda>(s, t). (c # s, t)) (read_quoted cs))"
  by pat_completeness auto
termination
  by (relation "measure length") (auto dest: read_escape_length)

definition char_reads_back :: "char \<Rightarrow> bool" where
  "char_reads_back c \<longleftrightarrow>
     (case json_char c of
        [] \<Rightarrow> False
      | d # ds \<Rightarrow> if ds = [] then d = c \<and> d \<noteq> dquote \<and> d \<noteq> backslash \<and> 32 \<le> (of_char d :: nat)
                   else d = backslash \<and> read_escape ds = Some (c, []))"

lemma hex_value_digit: "n < 16 \<Longrightarrow> hex_value (hex_digit n) = Some n"
  unfolding hex_value_def hex_digit_def by (subst map_of_zip_nth) auto

lemma read_hex_digits:
  "n < 256 \<Longrightarrow>
     read_hex (CHR ''0'' # CHR ''0'' # hex_digit (n div 16) # hex_digit (n mod 16) # t) = Some (char_of n, t)"
proof -
  assume "n < 256"
  then have "hex_value (hex_digit (n div 16)) = Some (n div 16)" "hex_value (hex_digit (n mod 16)) = Some (n mod 16)"
    by (simp_all add: hex_value_digit)
  moreover have "hex_value (CHR ''0'') = Some 0" using hex_value_digit [of 0] by (simp add: hex_digit_def)
  ultimately show ?thesis by (simp add: read_hex_def)
qed

lemma char_reads_back: "char_reads_back c"
proof (cases "map_of (map (\<lambda>(k, v). (v, k)) short_escapes) c")
  case None
  then have "c \<noteq> dquote" "c \<noteq> backslash" by (auto simp: short_escapes_def)
  moreover have "of_char c < (256 :: nat)" by simp
  moreover have "map_of short_escapes (CHR ''u'') = None" by (simp add: short_escapes_def)
  ultimately show ?thesis using None
    by (simp add: char_reads_back_def json_char_def Let_def read_escape_def read_hex_digits)
next
  case (Some k)
  then have "(k, c) \<in> set short_escapes" by (auto dest: map_of_SomeD)
  then show ?thesis
    by (auto simp: short_escapes_def char_reads_back_def json_char_def read_escape_def)
qed

lemma read_quoted_char: "read_quoted (json_char c @ t) = map_option (\<lambda>(s, t). (c # s, t)) (read_quoted t)"
proof (cases "json_char c")
  case Nil
  then show ?thesis using char_reads_back [of c] by (simp add: char_reads_back_def)
next
  case (Cons d ds)
  then show ?thesis using char_reads_back [of c] read_escape_append [of ds c "[]" t]
    by (auto simp: char_reads_back_def split: if_splits)
qed

text \<open>Quoting loses nothing, whatever follows.\<close>

lemma read_json_string: "read_quoted (tl (json_string s) @ t) = Some (s, t)"
proof -
  have "read_quoted (concat (map json_char s) @ dquote # t) = Some (s, t)" for s
    by (induction s) (simp_all add: read_quoted_char)
  then show ?thesis by (simp add: json_string_def)
qed
section \<open>Sequences of quoted strings\<close>

text \<open>
  Items separated by a comma and a space, up to a closing bracket; the first argument bounds
  the number of items.
\<close>

fun read_items :: "nat \<Rightarrow> (string \<Rightarrow> ('a \<times> string) option) \<Rightarrow> char \<Rightarrow> string \<Rightarrow> ('a list \<times> string) option" where
  "read_items 0 item close s = None"
| "read_items (Suc n) item close s =
     (case item s of
        Some (x, c # cs) \<Rightarrow>
          if c = close then Some ([x], cs)
          else if c = CHR '','' \<and> cs \<noteq> [] \<and> hd cs = CHR '' ''
          then map_option (\<lambda>(xs, t). (x # xs, t)) (read_items n item close (tl cs))
          else None
      | _ \<Rightarrow> None)"

definition read_sequence :: "(string \<Rightarrow> ('a \<times> string) option) \<Rightarrow> char \<Rightarrow> char \<Rightarrow> string \<Rightarrow> ('a list \<times> string) option" where
  "read_sequence item open_char close s =
     (case s of [] \<Rightarrow> None
      | c # cs \<Rightarrow>
          if c \<noteq> open_char then None
          else if cs \<noteq> [] \<and> hd cs = close then Some ([], tl cs)
          else read_items (length cs) item close cs)"

lemma str_join_Cons: "xs \<noteq> [] \<Longrightarrow> str_join sep (x # xs) = x @ sep @ str_join sep xs"
  by (cases xs) simp_all

lemma read_items_join:
  assumes "xs \<noteq> []" and "length xs \<le> n" and "close \<noteq> CHR '',''"
    and "\<And>x t. x \<in> set xs \<Longrightarrow> item (shown x @ t) = Some (x, t)"
  shows "read_items n item close (str_join '', '' (map shown xs) @ close # t) = Some (xs, t)"
  using assms
proof (induction xs arbitrary: n)
  case (Cons x xs)
  then obtain m where n: "n = Suc m" by (cases n) auto
  show ?case
  proof (cases "xs = []")
    case True
    with Cons n show ?thesis by simp
  next
    case False
    with Cons n have "read_items m item close (str_join '', '' (map shown xs) @ close # t) = Some (xs, t)" by simp
    with False Cons n show ?thesis by (simp add: str_join_Cons)
  qed
qed simp

lemma length_str_join: "(\<And>x. x \<in> set xs \<Longrightarrow> shown x \<noteq> []) \<Longrightarrow> length xs \<le> length (str_join sep (map shown xs))"
proof (induction xs)
  case (Cons x xs)
  then have "0 < length (shown x)" "length xs \<le> length (str_join sep (map shown xs))" by auto
  then show ?case by (cases "shown x"; cases xs) auto
qed simp

lemma read_sequence_join:
  assumes item: "\<And>x t. x \<in> set xs \<Longrightarrow> item (shown x @ t) = Some (x, t)"
    and ne: "\<And>x. x \<in> set xs \<Longrightarrow> shown x \<noteq> [] \<and> hd (shown x) \<noteq> close" and c: "close \<noteq> CHR '',''"
  shows "read_sequence item open_char close (open_char # str_join '', '' (map shown xs) @ close # t) = Some (xs, t)"
proof (cases xs)
  case Nil
  then show ?thesis by (simp add: read_sequence_def)
next
  case (Cons x ys)
  let ?s = "str_join '', '' (map shown xs)"
  have "?s \<noteq> []" "hd ?s = hd (shown x)"
    using Cons ne [of x] by (cases ys; simp add: hd_append)+
  moreover have "read_items (length (?s @ close # t)) item close (?s @ close # t) = Some (xs, t)"
    by (rule read_items_join) (use Cons c item length_str_join [of xs shown "'', ''"] ne in auto)
  ultimately show ?thesis using Cons ne [of x] by (simp add: read_sequence_def)
qed

text \<open>A quoted string, an array of them, and an object from strings to strings.\<close>

definition read_string :: "string \<Rightarrow> (string \<times> string) option" where
  "read_string s = (case s of [] \<Rightarrow> None | c # cs \<Rightarrow> if c = dquote then read_quoted cs else None)"

definition read_pair :: "string \<Rightarrow> ((string \<times> string) \<times> string) option" where
  "read_pair s =
     (case read_string s of
        Some (k, a # b # t) \<Rightarrow>
          if a = CHR '':'' \<and> b = CHR '' '' then map_option (\<lambda>(v, u). ((k, v), u)) (read_string t) else None
      | _ \<Rightarrow> None)"

definition read_string_array :: "string \<Rightarrow> (string list \<times> string) option" where
  "read_string_array = read_sequence read_string CHR ''['' CHR '']''"

definition read_string_object :: "string \<Rightarrow> ((string \<times> string) list \<times> string) option" where
  "read_string_object = read_sequence read_pair CHR ''{'' CHR ''}''"

text \<open>\<open>json.dumps\<close> of a dict from strings to strings.\<close>

definition json_object :: "(string \<times> string) list \<Rightarrow> string" where
  "json_object d =
     ''{'' @ str_join '', '' (map (\<lambda>(k, v). json_string k @ '': '' @ json_string v) d) @ ''}''"

lemma json_string_Cons: "\<exists>t. json_string s = dquote # t"
  by (simp add: json_string_def)

lemma read_string_json [simp]: "read_string (json_string s @ t) = Some (s, t)"
proof -
  obtain u where "json_string s = dquote # u" using json_string_Cons by blast
  with read_json_string [of s t] show ?thesis by (simp add: read_string_def)
qed

lemma read_pair_json: "read_pair (json_string k @ '': '' @ json_string v @ t) = Some ((k, v), t)"
  by (simp add: read_pair_def)

lemma read_json_object: "read_string_object (json_object d @ t) = Some (d, t)"
proof -
  let ?sh = "\<lambda>(k, v). json_string k @ '': '' @ json_string v"
  have "read_sequence read_pair CHR ''{'' CHR ''}'' (CHR ''{'' # str_join '', '' (map ?sh d) @ CHR ''}'' # t) = Some (d, t)"
  proof (rule read_sequence_join)
    show "read_pair (?sh x @ u) = Some (x, u)" for x u
      using read_pair_json [of "fst x" "snd x" u] by (simp add: case_prod_beta)
    show "?sh x \<noteq> [] \<and> hd (?sh x) \<noteq> CHR ''}''" for x
      using json_string_Cons [of "fst x"] by (auto simp: case_prod_beta)
  qed simp
  then show ?thesis by (simp add: json_object_def read_string_object_def)
qed

lemma read_json_array:
  "read_string_array (''['' @ str_join '', '' (map json_string xs) @ '']'' @ t) = Some (xs, t)"
proof -
  have "read_sequence read_string CHR ''['' CHR '']'' (CHR ''['' # str_join '', '' (map json_string xs) @ CHR '']'' # t) = Some (xs, t)"
  proof (rule read_sequence_join)
    show "json_string x \<noteq> [] \<and> hd (json_string x) \<noteq> CHR '']''" for x
      using json_string_Cons [of x] by auto
  qed simp_all
  then show ?thesis by (simp add: read_string_array_def)
qed

end
