(* ===== verification/Telegraf_Config.thy ===== *)
theory Telegraf_Config
  imports Templates
begin

text \<open>
  \<^verbatim>\<open>common/app_common/sources.py\<close> (the registry of source types and the connector's
  environment) and \<^verbatim>\<open>common/app_common/telegraf_config.py\<close> (the Telegraf configuration of a
  pipeline). The lemmas read the rendered values back and relate a rendered configuration to
  the tokens of its template.
\<close>

section \<open>Sources\<close>

text \<open>
  \<open>rp\<close> is the \<open>repr\<close> of a float. \<open>f"{k}={v}"\<close> over the dict gives the assignments in order.
\<close>

definition opcua_env :: "(pyval \<Rightarrow> string) \<Rightarrow> pipeline_config \<Rightarrow> (string \<times> string) list" where
  "opcua_env rp c =
     (let opts = source_options c in
      [(''PIPELINE_ID'', pipeline_id c),
       (''OPCUA_ENDPOINT'', endpoint opts),
       (''OPCUA_NODE_IDS'', str_join '','' (node_ids opts)),
       (''OPCUA_NODE_NAMES_JSON'', json_object (node_names opts)),
       (''OPCUA_PUBLISHING_INTERVAL_MS'', str_of_int (publishing_interval_ms opts))]
      @ (case connect_timeout_s opts of
           None \<Rightarrow> []
         | Some t \<Rightarrow> [(''OPCUA_CONNECT_TIMEOUT_S'', py_str rp (VFloat t))]))"

definition opcua_environment :: "(pyval \<Rightarrow> string) \<Rightarrow> pipeline_config \<Rightarrow> string list" where
  "opcua_environment rp c = map (\<lambda>(k, v). k @ ''='' @ v) (opcua_env rp c)"

record source_spec =
  environment :: "(pyval \<Rightarrow> string) \<Rightarrow> pipeline_config \<Rightarrow> string list"
  command :: "(string \<Rightarrow> string list) option"
  default_staleness_threshold_s :: pyfloat

definition SOURCES :: "(string \<times> source_spec) list" where
  "SOURCES =
     [(''opcua'', \<lparr>environment = opcua_environment,
         command = Some (\<lambda>dir. [''python3'', dir @ ''/opcua/connector.py'']),
         default_staleness_threshold_s = Fin 60\<rparr>)]"

definition spec_for :: "string \<Rightarrow> source_spec result" where
  "spec_for st =
     (case map_of SOURCES st of
        Some spec \<Rightarrow> Inr spec
      | None \<Rightarrow> Inl (ValueError (''unknown source_type '' @ st)))"

lemma spec_for_registered:
  "spec_for (source_type_value t) =
     Inr \<lparr>environment = opcua_environment,
          command = Some (\<lambda>dir. [''python3'', dir @ ''/opcua/connector.py'']),
          default_staleness_threshold_s = Fin 60\<rparr>"
  by (cases t) (simp add: spec_for_def SOURCES_def)

section \<open>Rendering\<close>

text \<open>\<open>_toml\<close>. The text of a float is \<open>rp\<close>.\<close>

fun toml :: "(pyval \<Rightarrow> string) \<Rightarrow> pyval \<Rightarrow> string" where
  "toml rp (VList vs) = ''['' @ str_join '', '' (map (toml rp) vs) @ '']''"
| "toml rp (VBool b) = (if b then ''true'' else ''false'')"
| "toml rp (VInt n) = py_str rp (VInt n)"
| "toml rp (VFloat f) = py_str rp (VFloat f)"
| "toml rp v = json_string (py_str rp v)"

text \<open>
  What the renderers see of their surroundings: the text of a file, which directories exist,
  the parents of the module's own path, and \<open>repr\<close> of floats.
\<close>

record host =
  file_text :: "string \<Rightarrow> string option"
  is_dir :: "string \<Rightarrow> bool"
  module_parents :: "string list"
  float_repr :: "pyval \<Rightarrow> string"

definition template_dirs :: "host \<Rightarrow> string list" where
  "template_dirs H =
     ''/opt/telegraf/templates''
     # filter (is_dir H) (map (\<lambda>p. p @ ''/telegraf/templates'') (module_parents H))"

fun first_file :: "host \<Rightarrow> string list \<Rightarrow> string option" where
  "first_file H [] = None"
| "first_file H (path # rest) =
     (case file_text H path of Some text \<Rightarrow> Some text | None \<Rightarrow> first_file H rest)"

definition telegraf_template :: "host \<Rightarrow> string \<Rightarrow> string result" where
  "telegraf_template H st =
     (case first_file H (map (\<lambda>d. d @ ''/'' @ st @ ''.conf.tmpl'') (template_dirs H)) of
        Some text \<Rightarrow> Inr text
      | None \<Rightarrow> Inl (FileNotFoundError (''no Telegraf template for source_type='' @ st)))"

definition CONNECTOR_DIR :: string where
  "CONNECTOR_DIR = ''/opt/connectors''"

definition METRICS_PORT :: int where
  "METRICS_PORT = 9273"

definition TIME_FORMAT :: string where
  "TIME_FORMAT = ''2006-01-02T15:04:05.999999999Z07:00''"

definition broker_list :: "string \<Rightarrow> string list" where
  "broker_list brokers =
     map strip (filter (\<lambda>b. strip b \<noteq> []) (split_max CHR '','' (length brokers) brokers))"

definition toml_strings :: "(pyval \<Rightarrow> string) \<Rightarrow> string list \<Rightarrow> string" where
  "toml_strings rp xs = toml rp (VList (map VStr xs))"

text \<open>Every placeholder a template may use, as the text \<open>string.Template\<close> inserts.\<close>

definition substitutions ::
  "host \<Rightarrow> pipeline_config \<Rightarrow> string \<Rightarrow> string \<Rightarrow> string \<Rightarrow> (string \<times> string) list result" where
  "substitutions H c kafka_brokers connector_dir restart_delay =
     (case spec_for (source_type_value (source_type c)) of
        Inl e \<Rightarrow> Inl e
      | Inr spec \<Rightarrow>
          let rp = float_repr H;
              cmd = (case command spec of Some f \<Rightarrow> f connector_dir | None \<Rightarrow> [])
          in Inr
           [(''interval'', ''10s''),
            (''flush_interval'', ''5s''),
            (''metric_batch_size'', str_of_int (batch_size c)),
            (''metric_buffer_limit'', str_of_int (max (batch_size c * 20) 10000)),
            (''command'', toml_strings rp cmd),
            (''environment'', toml_strings rp (environment spec rp c)),
            (''restart_delay'', restart_delay),
            (''time_format'', TIME_FORMAT),
            (''measurement'', topic c),
            (''measurement_name'', toml rp (VStr (topic c))),
            (''brokers'', toml_strings rp (broker_list kafka_brokers)),
            (''topic'', toml rp (VStr (topic c))),
            (''METRICS_PORT'', str_of_int METRICS_PORT)])"

definition render_telegraf_config ::
  "host \<Rightarrow> pipeline_config \<Rightarrow> string \<Rightarrow> string \<Rightarrow> string \<Rightarrow> string result" where
  "render_telegraf_config H c kafka_brokers connector_dir restart_delay =
     (case spec_for (source_type_value (source_type c)) of
        Inl e \<Rightarrow> Inl e
      | Inr _ \<Rightarrow>
          (case telegraf_template H (source_type_value (source_type c)) of
             Inl e \<Rightarrow> Inl e
           | Inr text \<Rightarrow>
               (case substitutions H c kafka_brokers connector_dir restart_delay of
                  Inl e \<Rightarrow> Inl e
                | Inr env \<Rightarrow> Inr (safe_substitute env text))))"

section \<open>What is rendered reads back\<close>

lemma toml_strings_eq: "toml_strings rp xs = ''['' @ str_join '', '' (map json_string xs) @ '']''"
  by (simp add: toml_strings_def comp_def)

lemma read_toml_strings [simp]: "read_string_array (toml_strings rp xs @ t) = Some (xs, t)"
  using read_json_array [of xs t] by (simp add: toml_strings_eq)

text \<open>How a process splits one assignment of its environment.\<close>

definition split_assignment :: "string \<Rightarrow> string \<times> string" where
  "split_assignment s = (takeWhile (\<lambda>c. c \<noteq> CHR ''='') s, tl (dropWhile (\<lambda>c. c \<noteq> CHR ''='') s))"

lemma split_assignment_eq:
  "CHR ''='' \<notin> set k \<Longrightarrow> split_assignment (k @ ''='' @ v) = (k, v)"
  by (induction k) (auto simp: split_assignment_def)

lemma opcua_env_keys: "(k, v) \<in> set (opcua_env rp c) \<Longrightarrow> CHR ''='' \<notin> set k"
  by (auto simp: opcua_env_def Let_def split: option.splits)

lemma opcua_environment_splits: "map split_assignment (opcua_environment rp c) = opcua_env rp c"
  unfolding opcua_environment_def
  using split_assignment_eq opcua_env_keys by (fastforce intro: map_idI simp: map_map comp_def)


text \<open>
  C30: Rendering is substitution token by token: where the template in the first directory that
  has one is text, escaped dollars and names, the rendered configuration is the concatenation
  of the texts and of the values of the names, an inserted value is never read as template
  text, a name without a value stays as it is, and when every name has a value the result is
  that of the strict \<open>substitute\<close>.
\<close>

theorem render_is_token_substitution:
  assumes "first_file H (map (\<lambda>d. d @ ''/opcua.conf.tmpl'') (template_dirs H)) = Some (unparse ts)"
    and "tokens_ok ts"
  shows "\<exists>env. substitutions H c brokers dir delay = Inr env \<and>
    render_telegraf_config H c brokers dir delay = Inr (concat (map (token_value env) ts)) \<and>
    (set (token_names ts) \<subseteq> fst ` set env \<longrightarrow>
       substitute env (unparse ts) = render_telegraf_config H c brokers dir delay)"
proof -
  obtain env where env: "substitutions H c brokers dir delay = Inr env"
    by (simp add: substitutions_def spec_for_registered Let_def)
  have "source_type_value (source_type c) = ''opcua''" by (cases "source_type c") simp
  moreover from assms(1) this have "telegraf_template H (source_type_value (source_type c)) = Inr (unparse ts)"
    by (simp add: telegraf_template_def)
  ultimately have r: "render_telegraf_config H c brokers dir delay = Inr (concat (map (token_value env) ts))"
    using env assms(2) spec_for_registered [of "source_type c"]
    by (simp add: render_telegraf_config_def safe_substitute_unparse)
  have "substitute env (unparse ts) = Inr (concat (map (token_value env) ts))"
    if "set (token_names ts) \<subseteq> fst ` set env"
    using that by (intro substitute_unparse [OF assms(2)]) (auto simp: map_of_eq_None_iff)
  with env r show ?thesis by simp
qed

text \<open>
  An image with one template: a comment, and the line that names the measurement between
  quotes of the template's own.
\<close>

definition sample_tokens :: "token list" where
  "sample_tokens = [Lit ''name = '', Lit [dquote], Bare ''measurement'', Lit [dquote, newline], Bare ''nothing'']"

definition sample_host :: host where
  "sample_host =
     \<lparr>file_text = (\<lambda>p. if p = ''/opt/telegraf/templates/opcua.conf.tmpl'' then Some (unparse sample_tokens) else None),
      is_dir = (\<lambda>_. False), module_parents = [], float_repr = (\<lambda>_. ''1.0'')\<rparr>"

lemma sample_host_template:
  "first_file sample_host (map (\<lambda>d. d @ ''/opcua.conf.tmpl'') (template_dirs sample_host)) = Some (unparse sample_tokens)"
  "tokens_ok sample_tokens"
  by (simp_all add: sample_host_def template_dirs_def sample_tokens_def name_ok_def ident_char_def
      ident_start_def ascii_letters_def decimal_digits_def)

lemma render_is_token_substitution_witness:
  "\<exists>env. substitutions sample_host sample_config ''k:9092'' CONNECTOR_DIR ''10s'' = Inr env \<and>
    render_telegraf_config sample_host sample_config ''k:9092'' CONNECTOR_DIR ''10s'' =
      Inr (concat (map (token_value env) sample_tokens))"
  using render_is_token_substitution [OF sample_host_template, of sample_config "''k:9092''" CONNECTOR_DIR "''10s''"]
  by blast

text \<open>Rendering can fail for want of a template only.\<close>

lemma render_total:
  assumes "first_file H (map (\<lambda>d. d @ ''/opcua.conf.tmpl'') (template_dirs H)) = Some text"
  shows "\<exists>t. render_telegraf_config H c brokers dir delay = Inr t"
  using assms unfolding render_telegraf_config_def telegraf_template_def substitutions_def spec_for_registered
  by (cases "source_type c") (simp add: Let_def)

text \<open>
  The value of \<open>measurement\<close> is the topic as it is, so a quote or a line break in it ends the
  string that the template opens.
\<close>

lemma measurement_is_not_quoted:
  "\<exists>env. substitutions H c brokers dir delay = Inr env \<and>
     safe_substitute env (unparse sample_tokens) =
       ''name = '' @ [dquote] @ topic c @ [dquote, newline] @ ''$nothing''"
proof -
  obtain env where env: "substitutions H c brokers dir delay = Inr env"
    "map_of env ''measurement'' = Some (topic c)" "map_of env ''nothing'' = None"
    by (simp add: substitutions_def spec_for_registered Let_def)
  then have "concat (map (token_value env) sample_tokens) =
      ''name = '' @ [dquote] @ topic c @ [dquote, newline] @ ''$nothing''"
    by (simp add: sample_tokens_def)
  with env show ?thesis by (simp only: safe_substitute_unparse [OF sample_host_template(2)]) blast
qed

end
