(* ===== verification/Runtime.thy ===== *)
theory Runtime
  imports Telegraf_Config
begin

text \<open>
  \<^verbatim>\<open>common/app_common/runtime/base.py\<close>: the adapter through which the services start and stop a
  pipeline's producer, and the contract they rely on; and the adapter without a runtime of
  \<^verbatim>\<open>docker_runtime.py\<close>. The settings of \<^verbatim>\<open>common/app_common/config.py\<close> stand first.
\<close>

section \<open>Settings\<close>

record settings =
  redis_url :: string
  kafka_bootstrap_servers :: string
  consumer_group_id :: string
  runtime_mode :: string
  k8s_namespace :: string
  kube_context :: "string option"
  image_pull_policy :: string
  docker_network :: string
  producer_image :: string
  clickhouse_host :: string
  clickhouse_port :: int
  clickhouse_username :: string
  clickhouse_password :: string
  clickhouse_database :: string
  clickhouse_table :: string
  airflow_enabled :: bool
  airflow_base_url :: string
  airflow_username :: string
  airflow_password :: string
  pipeline_definitions_dir :: string
  watcher_poll_interval_s :: pyfloat
  watcher_enabled :: bool
  controller_interval_s :: int
  watchdog_interval_s :: int
  watchdog_heartbeat_timeout_s :: int

text \<open>Without environment variables.\<close>

definition default_settings :: settings where
  "default_settings =
     \<lparr>redis_url = ''redis://172.17.0.1:6379/2'', kafka_bootstrap_servers = ''172.17.0.1:9092'',
      consumer_group_id = ''consumer-pool'', runtime_mode = ''kubernetes'', k8s_namespace = ''default'',
      kube_context = None, image_pull_policy = ''IfNotPresent'', docker_network = ''data-platform_backend'',
      producer_image = ''data-platform-producer:latest'', clickhouse_host = ''172.17.0.1'', clickhouse_port = 8123,
      clickhouse_username = ''default'', clickhouse_password = [], clickhouse_database = ''data_platform'',
      clickhouse_table = ''pipeline_events'', airflow_enabled = False, airflow_base_url = ''http://localhost:8080'',
      airflow_username = ''airflow'', airflow_password = ''airflow'',
      pipeline_definitions_dir = ''/opt/pipeline_definitions'', watcher_poll_interval_s = Fin 5,
      watcher_enabled = True, controller_interval_s = 3, watchdog_interval_s = 15,
      watchdog_heartbeat_timeout_s = 30\<rparr>"

section \<open>The adapter\<close>

record 'k runtime_adapter =
  rt_start :: "pipeline_config \<Rightarrow> pipeline_state \<Rightarrow> ('k, string \<times> string) io"
  rt_stop :: "pipeline_config \<Rightarrow> pipeline_state \<Rightarrow> ('k, unit) io"
  rt_restart :: "pipeline_config \<Rightarrow> pipeline_state \<Rightarrow> ('k, string \<times> string) io"
  rt_logs :: "string \<Rightarrow> int \<Rightarrow> ('k, string) io"
  rt_is_running :: "string \<Rightarrow> ('k, bool) io"

definition redis_only_adapter :: "'k runtime_adapter" where
  "redis_only_adapter =
     \<lparr>rt_start = (\<lambda>_ _. ret_io (''redis-only-producer'', ''redis-only-consumer'')),
      rt_stop = (\<lambda>_ _. ret_io ()),
      rt_restart = (\<lambda>_ _. ret_io (''redis-only-producer'', ''redis-only-consumer'')),
      rt_logs = (\<lambda>_ _. ret_io ''[redis_only mode]''),
      rt_is_running = (\<lambda>_. ret_io True)\<rparr>"

section \<open>The contract\<close>

text \<open>
  \<open>up k p\<close>: the producer of pipeline \<open>p\<close> runs. \<open>owned\<close> says for which configurations and
  states the adapter finds the producer of that pipeline, and \<open>apart\<close> which pipelines have producers of different names. A call
  that returns has done what its name says, and no call, returning or raising, touches the
  producer of a pipeline apart.
\<close>

locale runtime_contract =
  fixes A :: "'k runtime_adapter" and up :: "'k \<Rightarrow> string \<Rightarrow> bool"
    and owned :: "pipeline_config \<Rightarrow> pipeline_state \<Rightarrow> bool" and apart :: "string \<Rightarrow> string \<Rightarrow> bool"
  assumes start_up: "owned c s \<Longrightarrow> rt_start A c s k = (Inr names, k') \<Longrightarrow> up k' (pipeline_id c)"
    and restart_up: "owned c s \<Longrightarrow> rt_restart A c s k = (Inr names, k') \<Longrightarrow> up k' (pipeline_id c)"
    and stop_down: "owned c s \<Longrightarrow> rt_stop A c s k = (Inr (), k') \<Longrightarrow> \<not> up k' (pipeline_id c)"
    and start_frame: "owned c s \<Longrightarrow> apart (pipeline_id c) q \<Longrightarrow> rt_start A c s k = (r1, k') \<Longrightarrow> up k' q = up k q"
    and restart_frame: "owned c s \<Longrightarrow> apart (pipeline_id c) q \<Longrightarrow> rt_restart A c s k = (r1, k') \<Longrightarrow> up k' q = up k q"
    and stop_frame: "owned c s \<Longrightarrow> apart (pipeline_id c) q \<Longrightarrow> rt_stop A c s k = (r2, k') \<Longrightarrow> up k' q = up k q"
begin

text \<open>A pipeline that was stopped and whose neighbour was then started is still stopped.\<close>

lemma stopped_stays_down:
  assumes "owned c s" and "owned c' s'" and "rt_stop A c s k = (Inr (), k1)" and "rt_start A c' s' k1 = (r, k2)"
    and "apart (pipeline_id c') (pipeline_id c)"
  shows "\<not> up k2 (pipeline_id c)"
  using stop_down [OF assms(1,3)] start_frame [OF assms(2,5,4)] by simp

end

section \<open>Sample values\<close>

definition named_config :: "string \<Rightarrow> pipeline_config" where
  "named_config p = sample_config\<lparr>pipeline_id := p\<rparr>"

definition idle_state :: "string \<Rightarrow> pipeline_state" where
  "idle_state p =
     \<lparr>st_pipeline_id = p, st_pipeline_type = LIVE, desired_state = DESIRED_STOPPED, status = CREATED,
      st_topic = [], producer_container = None, consumer_container = None, last_heartbeat_at = None,
      last_error = None, updated_at = []\<rparr>"

end
