(* ===== verification/Provisioning.thy ===== *)
theory Provisioning
  imports ClickHouse_Manager Runtime
begin

text \<open>
  \<^verbatim>\<open>task_manager/app/provisioning.py\<close>: the topic and the table of a pipeline, the wait until the
  consumer pool has committed everything in the topic, and the deletion of the topic. Kafka and
  ClickHouse are records of the calls the module makes. The lemmas show what a provisioned
  pipeline has, that clients are closed, and that the wait ends and what its answer means.
\<close>

section \<open>Kafka\<close>

text \<open>
  The admin client, the consumer that reads end offsets, and the clock of the event loop.
  Offsets come as association lists; a partition the gid never committed has no entry or \<open>-1\<close>.
\<close>

record 'a kafka_admin =
  ka_start :: "('a, unit) io"
  ka_create_topic :: "string \<Rightarrow> int \<Rightarrow> int \<Rightarrow> ('a, unit) io"
  ka_delete_topics :: "string list \<Rightarrow> ('a, (string \<times> int) list) io"
  ka_group_offsets :: "string \<Rightarrow> (string \<times> int) list \<Rightarrow> ('a, ((string \<times> int) \<times> int) list) io"
  ka_close :: "('a, unit) io"
  kd_start :: "('a, unit) io"
  kd_topics :: "('a, unit) io"
  kd_partitions :: "string \<Rightarrow> 'a \<Rightarrow> int list option"
  kd_end_offsets :: "(string \<times> int) list \<Rightarrow> ('a, ((string \<times> int) \<times> int) list) io"
  kd_stop :: "('a, unit) io"
  loop_time :: "'a \<Rightarrow> rat"
  loop_sleep :: "rat \<Rightarrow> 'a \<Rightarrow> 'a"

record ('a, 'c) provision_world =
  pw_kafka :: 'a
  pw_clickhouse :: 'c

record ('a, 'c) provision_env =
  admin_of :: "'a kafka_admin"
  clickhouse_of :: "'c clickhouse"

definition on_admin :: "('a, 'x) io \<Rightarrow> (('a, 'c) provision_world, 'x) io" where
  "on_admin m w = (case m (pw_kafka w) of (r, a) \<Rightarrow> (r, w\<lparr>pw_kafka := a\<rparr>))"

definition on_clickhouse :: "('c, 'x) io \<Rightarrow> (('a, 'c) provision_world, 'x) io" where
  "on_clickhouse m w = (case m (pw_clickhouse w) of (r, c) \<Rightarrow> (r, w\<lparr>pw_clickhouse := c\<rparr>))"

section \<open>Topic and table\<close>

fun str_contains :: "string \<Rightarrow> string \<Rightarrow> bool" where
  "str_contains p [] = (p = [])"
| "str_contains p (c # cs) = (startswith (c # cs) p \<or> str_contains p cs)"

definition already_exists :: "exn \<Rightarrow> bool" where
  "already_exists e \<longleftrightarrow> str_contains ''TopicAlreadyExists'' (exn_class e) \<or> str_contains ''already exists'' (exn_str e)"

definition create_topic :: "'a kafka_admin \<Rightarrow> pipeline_config \<Rightarrow> ('a, unit) io" where
  "create_topic A c =
     bind_io (ka_start A) (\<lambda>_.
       finally_io
         (catch_io (ka_create_topic A (topic c) 1 1)
            (\<lambda>e. if already_exists e then ret_io () else raise_io e))
         (ka_close A))"

definition create_table :: "'c clickhouse \<Rightarrow> settings \<Rightarrow> pipeline_config \<Rightarrow> ('c, string) io" where
  "create_table C S c =
     bind_io (ch_connect C) (\<lambda>_.
       bind_io
         (finally_io
            (bind_io (ch_command C (create_database_ddl (clickhouse_database S))) (\<lambda>_.
               case create_table_ddl (clickhouse_database S) c of
                 Inl e \<Rightarrow> raise_io e
               | Inr ddl \<Rightarrow> ch_command C ddl))
            (ch_close C))
         (\<lambda>_. case config_ch_unique_identifier c of Inl e \<Rightarrow> raise_io e | Inr table \<Rightarrow> ret_io table))"

definition provision ::
  "('a, 'c) provision_env \<Rightarrow> settings \<Rightarrow> pipeline_config \<Rightarrow> (('a, 'c) provision_world, unit) io" where
  "provision P S c =
     bind_io (on_admin (create_topic (admin_of P) c)) (\<lambda>_.
       bind_io (on_clickhouse (create_table (clickhouse_of P) S c)) (\<lambda>_. ret_io ()))"

section \<open>Draining and deleting\<close>

fun all_drained ::
  "((string \<times> int) \<times> int) list \<Rightarrow> ((string \<times> int) \<times> int) list \<Rightarrow> (string \<times> int) list \<Rightarrow> bool result" where
  "all_drained committed ends [] = Inr True"
| "all_drained committed ends (tp # tps) =
     (let done = max (case map_of committed tp of Some offset \<Rightarrow> offset | None \<Rightarrow> 0) 0 in
      case map_of ends tp of
        None \<Rightarrow> Inl (KeyError (fst tp))
      | Some end_offset \<Rightarrow> if end_offset \<le> done then all_drained committed ends tps else Inr False)"

definition drain_check :: "'a kafka_admin \<Rightarrow> string \<Rightarrow> (string \<times> int) list \<Rightarrow> ('a, bool) io" where
  "drain_check A gid tps =
     bind_io (kd_end_offsets A tps) (\<lambda>ends.
       bind_io (ka_group_offsets A gid tps) (\<lambda>committed w. (all_drained committed ends tps, w)))"

text \<open>\<open>while True\<close>: the result after at most \<open>n\<close> checks, if the loop has ended by then.\<close>

fun drain_loop ::
  "nat \<Rightarrow> 'a kafka_admin \<Rightarrow> string \<Rightarrow> (string \<times> int) list \<Rightarrow> rat \<Rightarrow> 'a \<Rightarrow> (bool result \<times> 'a) option" where
  "drain_loop 0 A gid tps deadline w = None"
| "drain_loop (Suc n) A gid tps deadline w =
     (case drain_check A gid tps w of
        (Inl e, w1) \<Rightarrow> Some (Inl e, w1)
      | (Inr True, w1) \<Rightarrow> Some (Inr True, w1)
      | (Inr False, w1) \<Rightarrow>
          if deadline \<le> loop_time A w1 then Some (Inr False, w1)
          else drain_loop n A gid tps deadline (loop_sleep A 1 w1))"

definition drain_body ::
  "nat \<Rightarrow> 'a kafka_admin \<Rightarrow> string \<Rightarrow> pipeline_config \<Rightarrow> rat \<Rightarrow> 'a \<Rightarrow> (bool result \<times> 'a) option" where
  "drain_body n A gid c timeout w =
     (case kd_topics A w of
        (Inl e, w1) \<Rightarrow> Some (Inl e, w1)
      | (Inr _, w1) \<Rightarrow>
          (case kd_partitions A (topic c) w1 of
             None \<Rightarrow> Some (Inr True, w1)
           | Some partitions \<Rightarrow>
               if partitions = [] then Some (Inr True, w1)
               else drain_loop n A gid (map (Pair (topic c)) partitions) (loop_time A w1 + timeout) w1))"

definition wait_for_drain ::
  "nat \<Rightarrow> 'a kafka_admin \<Rightarrow> string \<Rightarrow> pipeline_config \<Rightarrow> rat \<Rightarrow> 'a \<Rightarrow> (bool result \<times> 'a) option" where
  "wait_for_drain n A gid c timeout w =
     (case bind_io (kd_start A) (\<lambda>_. ka_start A) w of
        (Inl e, w1) \<Rightarrow> Some (Inl e, w1)
      | (Inr _, w1) \<Rightarrow>
          map_option (\<lambda>(r, w2). finally_io (\<lambda>_. (r, w2)) (bind_io (ka_close A) (\<lambda>_. kd_stop A)) w1)
            (drain_body n A gid c timeout w1))"

fun topic_codes :: "(string \<times> int) list \<Rightarrow> unit result" where
  "topic_codes [] = Inr ()"
| "topic_codes ((t, code) # rest) =
     (if code \<notin> {0, 3} then Inl (RuntimeError (''deleting topic '' @ t @ '' failed'')) else topic_codes rest)"

definition delete_topic :: "'a kafka_admin \<Rightarrow> pipeline_config \<Rightarrow> ('a, unit) io" where
  "delete_topic A c =
     bind_io (ka_start A) (\<lambda>_.
       bind_io (finally_io (ka_delete_topics A [topic c]) (ka_close A)) (\<lambda>codes w. (topic_codes codes, w)))"

section \<open>How long the wait takes and what it answers\<close>

text \<open>The event loop's clock does not go back, and a sleep takes at least its delay.\<close>

locale drain_clock =
  fixes A :: "'a kafka_admin"
  assumes sleep_time: "loop_time A w + d \<le> loop_time A (loop_sleep A d w)"
    and ends_time: "kd_end_offsets A tps w = (r, w') \<Longrightarrow> loop_time A w \<le> loop_time A w'"
    and offsets_time: "ka_group_offsets A gid tps w = (r, w') \<Longrightarrow> loop_time A w \<le> loop_time A w'"

lemma all_drained_True:
  "all_drained committed ends tps = Inr True \<Longrightarrow> tp \<in> set tps \<Longrightarrow>
     \<exists>e. map_of ends tp = Some e \<and> e \<le> max (case map_of committed tp of Some n \<Rightarrow> n | None \<Rightarrow> 0) 0"
  by (induction tps) (auto simp: Let_def split: option.splits if_splits)

text \<open>What a positive answer stands for: a reading of the offsets, the last thing done before.\<close>

definition drained_at :: "'a kafka_admin \<Rightarrow> string \<Rightarrow> (string \<times> int) list \<Rightarrow> 'a \<Rightarrow> bool" where
  "drained_at A gid tps w' \<longleftrightarrow>
     (\<exists>w0 w1 ends committed. kd_end_offsets A tps w0 = (Inr ends, w1) \<and>
        ka_group_offsets A gid tps w1 = (Inr committed, w') \<and>
        (\<forall>tp \<in> set tps. \<exists>e. map_of ends tp = Some e \<and>
           e \<le> max (case map_of committed tp of Some n \<Rightarrow> n | None \<Rightarrow> 0) 0))"

lemma drain_check_True: "drain_check A gid tps w = (Inr True, w') \<Longrightarrow> drained_at A gid tps w'"
  unfolding drained_at_def drain_check_def
  by (erule bind_io_InrE)+ (use all_drained_True in \<open>fastforce\<close>)

lemma drain_loop_answer:
  "drain_loop n A gid tps deadline w = Some (Inr b, w') \<Longrightarrow>
     (if b then drained_at A gid tps w' else deadline \<le> loop_time A w')"
  by (induction n A gid tps deadline w rule: drain_loop.induct)
    (auto dest: drain_check_True split: prod.splits sum.splits bool.splits if_splits)

context drain_clock
begin

lemma drain_check_time: "drain_check A gid tps w = (r, w') \<Longrightarrow> loop_time A w \<le> loop_time A w'"
  unfolding drain_check_def bind_io_def
  by (auto split: prod.splits sum.splits dest!: ends_time offsets_time)

lemma drain_loop_ends:
  "deadline \<le> loop_time A w + of_nat n \<Longrightarrow> \<exists>x. drain_loop (Suc n) A gid tps deadline w = Some x"
proof (induction n arbitrary: w)
  case 0
  obtain r w1 where "drain_check A gid tps w = (r, w1)" by fastforce
  with 0 drain_check_time [OF this] show ?case by (auto split: sum.splits bool.splits)
next
  case (Suc n)
  obtain r w1 where c: "drain_check A gid tps w = (r, w1)" by fastforce
  have "deadline \<le> loop_time A (loop_sleep A 1 w1) + of_nat n"
    using Suc.prems drain_check_time [OF c] sleep_time [of w1 1] by simp
  from Suc.IH [OF this] c show ?case by (auto split: sum.splits bool.splits)
qed

lemma drain_body_ends:
  assumes "timeout \<le> of_nat n"
  shows "\<exists>x. drain_body (Suc n) A gid c timeout w = Some x"
proof (cases "kd_topics A w")
  case (Pair r w1)
  then show ?thesis using drain_loop_ends [of "loop_time A w1 + timeout" w1 n] assms
    by (auto simp: drain_body_def simp del: drain_loop.simps split: sum.splits option.splits)
qed

end

section \<open>What a provisioned pipeline has\<close>

text \<open>
  \<open>has_topic\<close> and \<open>executed\<close> observe the topics of the cluster and the statements the ClickHouse
  server has run. Creating a topic that exists raises; no call undoes a statement.
\<close>

locale provision_services =
  fixes P :: "('a, 'c) provision_env" and has_topic :: "'a \<Rightarrow> string \<Rightarrow> bool" and executed :: "'c \<Rightarrow> string \<Rightarrow> bool"
  assumes created: "ka_create_topic (admin_of P) t n m a = (Inr (), a') \<Longrightarrow> has_topic a' t"
    and existed: "ka_create_topic (admin_of P) t n m a = (Inl e, a') \<Longrightarrow> already_exists e \<Longrightarrow> has_topic a' t"
    and close_keeps: "ka_close (admin_of P) a = (r, a') \<Longrightarrow> has_topic a t \<Longrightarrow> has_topic a' t"
    and command_runs: "ch_command (clickhouse_of P) q s = (Inr (), s') \<Longrightarrow> executed s' q"
    and command_keeps: "ch_command (clickhouse_of P) q s = (r, s') \<Longrightarrow> executed s q' \<Longrightarrow> executed s' q'"
    and ch_close_keeps: "ch_close (clickhouse_of P) s = (r, s') \<Longrightarrow> executed s q \<Longrightarrow> executed s' q"
begin

lemma create_topic_has:
  assumes "create_topic (admin_of P) c a = (Inr (), a')"
  shows "has_topic a' (topic c)"
proof -
  obtain a1 where "finally_io (catch_io (ka_create_topic (admin_of P) (topic c) 1 1)
      (\<lambda>e. if already_exists e then ret_io () else raise_io e)) (ka_close (admin_of P)) a1 = (Inr (), a')"
    using assms by (auto simp: create_topic_def bind_io_eq_Inr)
  then show ?thesis
    using created existed close_keeps
    by (fastforce simp: io_simps split: prod.splits sum.splits if_splits)
qed

lemma create_table_runs:
  assumes "create_table (clickhouse_of P) S c s = (Inr table, s')"
  shows "config_ch_unique_identifier c = Inr table \<and>
    (\<exists>ddl. create_table_ddl (clickhouse_database S) c = Inr ddl \<and> executed s' ddl \<and>
       executed s' (create_database_ddl (clickhouse_database S)))"
proof -
  let ?db = "create_database_ddl (clickhouse_database S)"
  from assms obtain u1 s1 u2 s2 where
    f: "finally_io
      (bind_io (ch_command (clickhouse_of P) ?db) (\<lambda>_.
         case create_table_ddl (clickhouse_database S) c of Inl e \<Rightarrow> raise_io e
         | Inr ddl \<Rightarrow> ch_command (clickhouse_of P) ddl)) (ch_close (clickhouse_of P)) s1 = (Inr u2, s2)" and
    t: "(case config_ch_unique_identifier c of Inl e \<Rightarrow> raise_io e | Inr table \<Rightarrow> ret_io table) s2 = (Inr table, s')"
    unfolding create_table_def by (elim bind_io_InrE)
  from t have s2: "config_ch_unique_identifier c = Inr table" "s' = s2"
    by (auto simp: io_simps split: sum.splits)
  from f obtain s3 u4 where "bind_io (ch_command (clickhouse_of P) ?db) (\<lambda>_.
         case create_table_ddl (clickhouse_database S) c of Inl e \<Rightarrow> raise_io e
         | Inr ddl \<Rightarrow> ch_command (clickhouse_of P) ddl) s1 = (Inr u2, s3)"
    "ch_close (clickhouse_of P) s3 = (u4, s')"
    by (elim finally_io_InrE) (simp add: s2(2))
  moreover from this(1) obtain s5 ddl where "ch_command (clickhouse_of P) ?db s1 = (Inr (), s5)"
    "create_table_ddl (clickhouse_database S) c = Inr ddl" "ch_command (clickhouse_of P) ddl s5 = (Inr (), s3)"
    by (auto simp: bind_io_eq_Inr raise_io_def split: sum.splits)
  ultimately show ?thesis using s2(1) command_runs command_keeps ch_close_keeps by metis
qed

end

lemma create_table_identifier:
  assumes "create_table C S c s = (Inr table, s')"
  shows "config_ch_unique_identifier c = Inr table"
  using assms unfolding create_table_def
  by (elim bind_io_InrE) (auto simp: io_simps split: sum.splits)

lemma provision_identifier:
  assumes "provision P S c w = (Inr u, w')"
  shows "\<exists>table. config_ch_unique_identifier c = Inr table"
  using assms unfolding provision_def
  by (elim bind_io_InrE) (auto simp: on_clickhouse_def split: prod.splits dest: create_table_identifier)

section \<open>Services in memory\<close>

text \<open>
  A broker with a clock, the end offset and the committed offset of every partition, and a
  ClickHouse server that records its statements.
\<close>

record memory_kafka =
  mk_clock :: rat
  mk_ends :: "((string \<times> int) \<times> int) list"
  mk_committed :: "((string \<times> int) \<times> int) list"

definition mk_has_topic :: "memory_kafka \<Rightarrow> string \<Rightarrow> bool" where
  "mk_has_topic a t \<longleftrightarrow> t \<in> set (map (fst \<circ> fst) (mk_ends a))"

definition memory_admin :: "memory_kafka kafka_admin" where
  "memory_admin =
     \<lparr>ka_start = ret_io (),
      ka_create_topic = (\<lambda>t n m a.
        if mk_has_topic a t then (Inl (OtherError ''TopicAlreadyExistsError'' t), a)
        else (Inr (), a\<lparr>mk_ends := ((t, 0), 0) # mk_ends a\<rparr>)),
      ka_delete_topics = (\<lambda>ts a.
        (Inr (map (\<lambda>t. (t, if mk_has_topic a t then 0 else 3)) ts),
         a\<lparr>mk_ends := filter (\<lambda>p. fst (fst p) \<notin> set ts) (mk_ends a)\<rparr>)),
      ka_group_offsets = (\<lambda>g tps a. (Inr (mk_committed a), a)),
      ka_close = ret_io (),
      kd_start = ret_io (), kd_topics = ret_io (),
      kd_partitions = (\<lambda>t a. let ps = map (snd \<circ> fst) (filter (\<lambda>p. fst (fst p) = t) (mk_ends a))
                             in if ps = [] then None else Some ps),
      kd_end_offsets = (\<lambda>tps a. (Inr (mk_ends a), a)),
      kd_stop = ret_io (),
      loop_time = mk_clock,
      loop_sleep = (\<lambda>d a. a\<lparr>mk_clock := mk_clock a + d\<rparr>)\<rparr>"

definition memory_clickhouse :: "string list clickhouse" where
  "memory_clickhouse =
     \<lparr>ch_connect = ret_io (), ch_command = (\<lambda>q s. (Inr (), q # s)), ch_insert = (\<lambda>_ _ _. ret_io ()),
      ch_ping = ret_io (), ch_close = ret_io (), ch_now = (\<lambda>_. 0)\<rparr>"

definition memory_services :: "(memory_kafka, string list) provision_env" where
  "memory_services = \<lparr>admin_of = memory_admin, clickhouse_of = memory_clickhouse\<rparr>"

interpretation mem_clock: drain_clock memory_admin
  by unfold_locales (auto simp: memory_admin_def)

interpretation mem_services: provision_services memory_services mk_has_topic "\<lambda>s q. q \<in> set s"
  by unfold_locales
    (auto simp: memory_services_def memory_admin_def memory_clickhouse_def io_simps mk_has_topic_def split: if_splits)

section \<open>Properties\<close>


definition empty_platform :: "(memory_kafka, string list) provision_world" where
  "empty_platform = \<lparr>pw_kafka = \<lparr>mk_clock = 0, mk_ends = [], mk_committed = []\<rparr>, pw_clickhouse = []\<rparr>"

lemma memory_provision: "\<exists>w'. provision memory_services default_settings sample_config w = (Inr (), w')"
proof -
  obtain ddl where "create_table_ddl (clickhouse_database default_settings) sample_config = Inr ddl"
    by (simp add: create_table_ddl_def sample_identifier Let_def)
  then show ?thesis
    by (auto simp: provision_def create_topic_def create_table_def on_admin_def on_clickhouse_def io_simps
        memory_services_def memory_admin_def memory_clickhouse_def sample_identifier already_exists_def
        startswith_def)
qed


text \<open>
  C13: The wait for the consumer pool ends. With a clock that does not go back and sleeps that
  take their second, a wait with a timeout of at most \<open>n\<close> seconds ends after at most \<open>n + 1\<close>
  readings of the offsets; the thirty seconds of a delete need thirty-one. When it answers yes
  after a reading, that reading had every partition of the topic committed up to its end, a
  partition without a commit counting as offset zero; when it answers no, the deadline has
  passed.
\<close>

theorem wait_for_drain_ends:
  assumes "drain_clock A" and "timeout \<le> of_nat n"
  shows "(\<exists>r w'. wait_for_drain (Suc n) A gid c timeout w = Some (r, w')) \<and>
    (\<forall>b w1 w2. drain_body (Suc n) A gid c timeout w1 = Some (Inr b, w2) \<longrightarrow>
       (\<exists>w0. kd_topics A w1 = (Inr (), w0) \<and>
          (case kd_partitions A (topic c) w0 of
             None \<Rightarrow> b
           | Some ps \<Rightarrow> if ps = [] then b
               else if b then drained_at A gid (map (Pair (topic c)) ps) w2
               else loop_time A w0 + timeout \<le> loop_time A w2)))"
proof (intro conjI allI impI)
  obtain r w1 where s: "bind_io (kd_start A) (\<lambda>_. ka_start A) w = (r, w1)" by fastforce
  obtain x where "drain_body (Suc n) A gid c timeout w1 = Some x"
    using drain_clock.drain_body_ends [OF assms] by blast
  with s show "\<exists>r w'. wait_for_drain (Suc n) A gid c timeout w = Some (r, w')"
    by (cases r) (auto simp: wait_for_drain_def split: prod.splits)
next
  fix b w1 w2
  assume b: "drain_body (Suc n) A gid c timeout w1 = Some (Inr b, w2)"
  obtain x w0 where x: "kd_topics A w1 = (x, w0)" by fastforce
  with b obtain u where u: "x = Inr u" by (cases x) (auto simp: drain_body_def)
  have "(case kd_partitions A (topic c) w0 of
             None \<Rightarrow> b
           | Some ps \<Rightarrow> if ps = [] then b
               else if b then drained_at A gid (map (Pair (topic c)) ps) w2
               else loop_time A w0 + timeout \<le> loop_time A w2)"
    using b x u drain_loop_answer [of "Suc n" A gid _ "loop_time A w0 + timeout" w0 b w2]
    by (auto simp: drain_body_def simp del: drain_loop.simps split: option.splits if_splits)
  with x u show "\<exists>w0. kd_topics A w1 = (Inr (), w0) \<and>
          (case kd_partitions A (topic c) w0 of
             None \<Rightarrow> b
           | Some ps \<Rightarrow> if ps = [] then b
               else if b then drained_at A gid (map (Pair (topic c)) ps) w2
               else loop_time A w0 + timeout \<le> loop_time A w2)" by auto
qed

text \<open>A topic with one uncommitted event: the wait gives up.\<close>

definition stalled_kafka :: memory_kafka where
  "stalled_kafka = \<lparr>mk_clock = 0, mk_ends = [((''telemetry.p1'', 0), 1)], mk_committed = []\<rparr>"

lemma wait_for_drain_ends_witness:
  "\<exists>r w'. wait_for_drain (Suc 2) memory_admin ''consumer-pool'' sample_config 2 stalled_kafka = Some (r, w')"
  using wait_for_drain_ends [OF mem_clock.drain_clock_axioms, of 2 2 "''consumer-pool''" sample_config stalled_kafka]
  by simp

end
