(* ===== verification/Kubernetes_Runtime.thy ===== *)
theory Kubernetes_Runtime
  imports Runtime
begin

text \<open>
  \<^verbatim>\<open>common/app_common/runtime/kubernetes_runtime.py\<close>: the producer's Deployment manifest and the
  adapter that applies, scales and rolls it, over the calls it makes to the API server. The
  lemmas discharge the contract of an adapter, with the replica count as the running state.
\<close>

section \<open>Access into parsed documents\<close>

datatype path_step = Key string | Index nat

fun py_get_path :: "path_step list \<Rightarrow> pyval \<Rightarrow> pyval result" where
  "py_get_path [] v = Inr v"
| "py_get_path (Key k # p) v =
     (case v of
        VDict d \<Rightarrow> (case dict_get d k of Some v' \<Rightarrow> py_get_path p v' | None \<Rightarrow> Inl (KeyError k))
      | _ \<Rightarrow> Inl (TypeError ''not subscriptable by a string''))"
| "py_get_path (Index i # p) v =
     (case v of
        VList vs \<Rightarrow> if i < length vs then py_get_path p (vs ! i) else Inl (OtherError ''IndexError'' [])
      | VDict d \<Rightarrow> Inl (KeyError [])
      | _ \<Rightarrow> Inl (TypeError ''not subscriptable by an index''))"

text \<open>The document in which the value at a path is replaced.\<close>

fun py_set_path :: "path_step list \<Rightarrow> pyval \<Rightarrow> pyval \<Rightarrow> pyval" where
  "py_set_path [] x v = x"
| "py_set_path (Key k # p) x v =
     (case v of
        VDict d \<Rightarrow> (case dict_get d k of Some v' \<Rightarrow> VDict (AList.update k (py_set_path p x v') d) | None \<Rightarrow> v)
      | _ \<Rightarrow> v)"
| "py_set_path (Index i # p) x v =
     (case v of VList vs \<Rightarrow> if i < length vs then VList (vs[i := py_set_path p x (vs ! i)]) else v | _ \<Rightarrow> v)"

text \<open>A path through another key at some point is not affected.\<close>

lemma py_get_set_other:
  "k \<noteq> k' \<Longrightarrow> py_get_path (Key k' # p') (py_set_path (Key k # p) x v) = py_get_path (Key k' # p') v"
  by (auto simp: dict_get_def update_conv' split: pyval.splits option.splits)

lemma py_get_set_under:
  "(\<And>w. py_get_path p' (py_set_path p x w) = py_get_path p' w) \<Longrightarrow>
     py_get_path (Key k # p') (py_set_path (Key k # p) x v) = py_get_path (Key k # p') v"
  by (auto simp: dict_get_def update_conv' split: pyval.splits option.splits)

lemma py_get_set_same:
  "py_get_path p v = Inr w \<Longrightarrow> py_get_path p (py_set_path p x v) = Inr x"
  by (induction p v rule: py_get_path.induct)
    (auto simp: dict_get_def update_conv' split: pyval.splits option.splits if_splits)

lemma map_sum_InrE: "map_sum f g x = Inr y \<Longrightarrow> (\<And>z. x = Inr z \<Longrightarrow> y = g z \<Longrightarrow> P) \<Longrightarrow> P"
  by (cases x) auto

section \<open>The manifest\<close>

definition HEALTH_PORT :: int where
  "HEALTH_PORT = 8080"

definition DEFAULT_STALENESS_THRESHOLD_S :: pyfloat where
  "DEFAULT_STALENESS_THRESHOLD_S = Fin 60"

definition deployment_template :: "host \<Rightarrow> string result" where
  "deployment_template H =
     (let dirs = ''/opt/k8s'' # filter (is_dir H) (map (\<lambda>p. p @ ''/k8s'') (module_parents H)) in
      case first_file H (map (\<lambda>d. d @ ''/producer-deployment-template.yaml'') dirs) of
        Some text \<Rightarrow> Inr text
      | None \<Rightarrow> Inl (FileNotFoundError ''producer-deployment-template.yaml not found''))"

definition staleness_threshold_for :: "pipeline_config \<Rightarrow> pyfloat result" where
  "staleness_threshold_for c =
     (case staleness_threshold_s (source_options c) of
        Some t \<Rightarrow> Inr t
      | None \<Rightarrow>
          (case spec_for (source_type_value (source_type c)) of
             Inr spec \<Rightarrow> Inr (default_staleness_threshold_s spec)
           | Inl e \<Rightarrow> if is_value_error e then Inr DEFAULT_STALENESS_THRESHOLD_S else Inl e))"

definition deployment_name :: "string \<Rightarrow> string" where
  "deployment_name pid = ''producer-'' @ pid"

text \<open>\<open>int(x)\<close> of a float truncates towards zero.\<close>

fun int_of_float :: "pyfloat \<Rightarrow> int result" where
  "int_of_float (Fin x) = Inr (if 0 \<le> x then \<lfloor>x\<rfloor> else \<lceil>x\<rceil>)"
| "int_of_float NaN = Inl (ValueError ''cannot convert float NaN to integer'')"
| "int_of_float PInf = Inl (OverflowError ''cannot convert float infinity to integer'')"
| "int_of_float NInf = Inl (OverflowError ''cannot convert float infinity to integer'')"

definition deployment_values :: "host \<Rightarrow> settings \<Rightarrow> pipeline_config \<Rightarrow> int \<Rightarrow> (string \<times> string) list result" where
  "deployment_values H S c replicas =
     (case staleness_threshold_for c of
        Inl e \<Rightarrow> Inl e
      | Inr t \<Rightarrow>
          (case int_of_float t of
             Inl e \<Rightarrow> Inl e
           | Inr n \<Rightarrow>
               Inr [(''PIPELINE_ID'', pipeline_id c),
                    (''REPLICAS'', str_of_int replicas),
                    (''PRODUCER_IMAGE'', producer_image S),
                    (''IMAGE_PULL_POLICY'', image_pull_policy S),
                    (''HEALTH_PORT'', str_of_int HEALTH_PORT),
                    (''STALENESS_THRESHOLD_S'', py_str (float_repr H) (VFloat t)),
                    (''PROBE_INITIAL_DELAY_S'', str_of_int (n + 30))]))"

definition deployment_text :: "host \<Rightarrow> settings \<Rightarrow> pipeline_config \<Rightarrow> int \<Rightarrow> string result" where
  "deployment_text H S c replicas =
     (case deployment_template H of
        Inl e \<Rightarrow> Inl e
      | Inr text \<Rightarrow>
          (case deployment_values H S c replicas of Inl e \<Rightarrow> Inl e | Inr env \<Rightarrow> substitute env text))"

definition ENV_PATH :: "path_step list" where
  "ENV_PATH = [Key ''spec'', Key ''template'', Key ''spec'', Key ''containers'', Index 0, Key ''env'']"

definition render_producer_deployment ::
  "host \<Rightarrow> (string \<Rightarrow> pyval result) \<Rightarrow> settings \<Rightarrow> pipeline_config \<Rightarrow> int \<Rightarrow> pyval result" where
  "render_producer_deployment H yaml_load S c replicas =
     (case deployment_text H S c replicas of
        Inl e \<Rightarrow> Inl e
      | Inr rendered \<Rightarrow>
          (case yaml_load rendered of
             Inl e \<Rightarrow> Inl e
           | Inr manifest \<Rightarrow>
               (case py_get_path ENV_PATH manifest of
                  Inl e \<Rightarrow> Inl e
                | Inr (VList vars) \<Rightarrow>
                    (case render_telegraf_config H c (kafka_bootstrap_servers S) CONNECTOR_DIR ''10s'' of
                       Inl e \<Rightarrow> Inl e
                     | Inr text \<Rightarrow>
                         Inr (py_set_path ENV_PATH
                           (VList (vars @ [VDict [(''name'', VStr ''TELEGRAF_CONFIG''), (''value'', VStr text)]]))
                           manifest))
                | Inr _ \<Rightarrow> Inl (AttributeError ''append''))))"

lemma render_producer_InrI:
  "deployment_text H S c r = Inr t0 \<Longrightarrow> y t0 = Inr m \<Longrightarrow> py_get_path ENV_PATH m = Inr (VList vars) \<Longrightarrow>
     render_telegraf_config H c (kafka_bootstrap_servers S) CONNECTOR_DIR ''10s'' = Inr t1 \<Longrightarrow>
     \<exists>m'. render_producer_deployment H y S c r = Inr m'"
  by (simp add: render_producer_deployment_def)

section \<open>The API server\<close>

record 'k kube_api =
  k_load_incluster :: "('k, unit) io"
  k_load_context :: "string \<Rightarrow> ('k, unit) io"
  k_create :: "string \<Rightarrow> pyval \<Rightarrow> ('k, unit) io"
  k_patch :: "string \<Rightarrow> string \<Rightarrow> pyval \<Rightarrow> ('k, unit) io"
  k_patch_scale :: "string \<Rightarrow> string \<Rightarrow> pyval \<Rightarrow> ('k, unit) io"
  k_pods :: "string \<Rightarrow> string \<Rightarrow> ('k, string list) io"
  k_pod_log :: "string \<Rightarrow> string \<Rightarrow> int \<Rightarrow> ('k, string) io"
  k_ready_replicas :: "string \<Rightarrow> string \<Rightarrow> ('k, int option) io"
  k_now :: "'k \<Rightarrow> string"
  k_yaml_load :: "string \<Rightarrow> pyval result"

text \<open>The adapter object: whether it has loaded a client configuration, and the server.\<close>

record 'k kube_adapter =
  loaded :: bool
  api_state :: 'k

definition on_api :: "('k, 'a) io \<Rightarrow> ('k kube_adapter, 'a) io" where
  "on_api m w = (case m (api_state w) of (r, k) \<Rightarrow> (r, w\<lparr>api_state := k\<rparr>))"

definition is_config_exception :: "exn \<Rightarrow> bool" where
  "is_config_exception e \<longleftrightarrow> exn_class e = ''ConfigException''"

definition kube_load :: "'k kube_api \<Rightarrow> settings \<Rightarrow> ('k kube_adapter, unit) io" where
  "kube_load K S w =
     (if loaded w then (Inr (), w)
      else bind_io
        (catch_io (on_api (k_load_incluster K)) (\<lambda>e.
           if \<not> is_config_exception e then raise_io e
           else case kube_context S of
                  None \<Rightarrow> raise_io (RuntimeError ''no explicit kube_context'')
                | Some ctx \<Rightarrow>
                    if ctx = [] then raise_io (RuntimeError ''no explicit kube_context'')
                    else on_api (k_load_context K ctx)))
        (\<lambda>_ w. (Inr (), w\<lparr>loaded := True\<rparr>)) w)"

definition with_server :: "'k kube_api \<Rightarrow> settings \<Rightarrow> ('k, 'a) io \<Rightarrow> ('k kube_adapter, 'a) io" where
  "with_server K S m = bind_io (kube_load K S) (\<lambda>_. on_api m)"

definition apply_deployment :: "host \<Rightarrow> 'k kube_api \<Rightarrow> settings \<Rightarrow> pipeline_config \<Rightarrow> int \<Rightarrow> ('k kube_adapter, unit) io" where
  "apply_deployment H K S c replicas =
     (case render_producer_deployment H (k_yaml_load K) S c replicas of
        Inl e \<Rightarrow> raise_io e
      | Inr manifest \<Rightarrow>
          bind_io (kube_load K S) (\<lambda>_.
            catch_io (on_api (k_create K (k8s_namespace S) manifest)) (\<lambda>e.
              case e of
                ApiException code _ \<Rightarrow>
                  if code \<noteq> 409 then raise_io e
                  else (case py_get_path [Key ''metadata'', Key ''name''] manifest of
                          Inl e' \<Rightarrow> raise_io e'
                        | Inr name \<Rightarrow>
                            on_api (k_patch K (py_str (float_repr H) name) (k8s_namespace S) manifest))
              | _ \<Rightarrow> raise_io e)))"

definition scale_body :: "int \<Rightarrow> pyval" where
  "scale_body replicas = VDict [(''spec'', VDict [(''replicas'', VInt replicas)])]"

definition scale_deployment :: "'k kube_api \<Rightarrow> settings \<Rightarrow> string \<Rightarrow> int \<Rightarrow> ('k kube_adapter, unit) io" where
  "scale_deployment K S name replicas =
     catch_io (with_server K S (k_patch_scale K name (k8s_namespace S) (scale_body replicas))) (\<lambda>e.
       case e of
         ApiException code _ \<Rightarrow> if code = 404 then ret_io () else raise_io e
       | _ \<Rightarrow> raise_io e)"

definition rollout_body :: "string \<Rightarrow> pyval" where
  "rollout_body now =
     VDict [(''spec'', VDict [(''template'', VDict [(''metadata'', VDict [(''annotations'',
       VDict [(''kubectl.kubernetes.io/restartedAt'', VStr now)])])])])]"

definition restart_rollout :: "'k kube_api \<Rightarrow> settings \<Rightarrow> string \<Rightarrow> ('k kube_adapter, unit) io" where
  "restart_rollout K S name =
     with_server K S (\<lambda>k. k_patch K name (k8s_namespace S) (rollout_body (k_now K k)) k)"

definition pods_for :: "'k kube_api \<Rightarrow> settings \<Rightarrow> string \<Rightarrow> ('k kube_adapter, string list) io" where
  "pods_for K S name =
     with_server K S (k_pods K (k8s_namespace S) (''pipeline-id='' @ removeprefix name ''producer-''))"

definition pod_logs :: "'k kube_api \<Rightarrow> settings \<Rightarrow> string \<Rightarrow> int \<Rightarrow> ('k kube_adapter, string) io" where
  "pod_logs K S name tail =
     catch_io
       (bind_io (pods_for K S name) (\<lambda>pods.
          case pods of
            [] \<Rightarrow> ret_io (''[no pods for '' @ name @ '']'')
          | pod # _ \<Rightarrow> with_server K S (k_pod_log K pod (k8s_namespace S) tail)))
       (\<lambda>e. case e of
              ApiException code reason \<Rightarrow>
                ret_io (''[error fetching logs: '' @ str_of_int code @ '' '' @ reason @ '']'')
            | _ \<Rightarrow> raise_io e)"

definition deployment_ready :: "'k kube_api \<Rightarrow> settings \<Rightarrow> string \<Rightarrow> ('k kube_adapter, bool) io" where
  "deployment_ready K S name =
     catch_io
       (bind_io (with_server K S (k_ready_replicas K name (k8s_namespace S))) (\<lambda>n.
          ret_io (case n of None \<Rightarrow> False | Some r \<Rightarrow> r \<noteq> 0)))
       (\<lambda>e. case e of ApiException code _ \<Rightarrow> if code = 404 then ret_io False else raise_io e | _ \<Rightarrow> raise_io e)"

definition kube_start ::
  "host \<Rightarrow> 'k kube_api \<Rightarrow> settings \<Rightarrow> pipeline_config \<Rightarrow> pipeline_state \<Rightarrow> ('k kube_adapter, string \<times> string) io" where
  "kube_start H K S c s =
     bind_io (apply_deployment H K S c 1) (\<lambda>_. ret_io (deployment_name (pipeline_id c), []))"

definition kube_stop :: "'k kube_api \<Rightarrow> settings \<Rightarrow> pipeline_config \<Rightarrow> pipeline_state \<Rightarrow> ('k kube_adapter, unit) io" where
  "kube_stop K S c s = scale_deployment K S (deployment_name (pipeline_id c)) 0"

definition kube_restart ::
  "host \<Rightarrow> 'k kube_api \<Rightarrow> settings \<Rightarrow> pipeline_config \<Rightarrow> pipeline_state \<Rightarrow> ('k kube_adapter, string \<times> string) io" where
  "kube_restart H K S c s =
     bind_io (apply_deployment H K S c 1) (\<lambda>_.
       bind_io (restart_rollout K S (deployment_name (pipeline_id c))) (\<lambda>_.
         ret_io (deployment_name (pipeline_id c), [])))"

text \<open>Every request makes an adapter of its own, which has loaded nothing yet.\<close>

definition fresh_adapter :: "('k kube_adapter, 'a) io \<Rightarrow> ('k, 'a) io" where
  "fresh_adapter m k = (case m \<lparr>loaded = False, api_state = k\<rparr> of (r, w) \<Rightarrow> (r, api_state w))"

definition kubernetes_adapter :: "host \<Rightarrow> 'k kube_api \<Rightarrow> settings \<Rightarrow> 'k runtime_adapter" where
  "kubernetes_adapter H K S =
     \<lparr>rt_start = (\<lambda>c s. fresh_adapter (kube_start H K S c s)),
      rt_stop = (\<lambda>c s. fresh_adapter (kube_stop K S c s)),
      rt_restart = (\<lambda>c s. fresh_adapter (kube_restart H K S c s)),
      rt_logs = (\<lambda>name tail. fresh_adapter (pod_logs K S name tail)),
      rt_is_running = (\<lambda>name. fresh_adapter (deployment_ready K S name))\<rparr>"

section \<open>The cluster\<close>

text \<open>
  \<^verbatim>\<open>k8s/producer-deployment-template.yaml\<close> as YAML reads it, for values that are plain scalars.
\<close>

definition producer_manifest :: "string \<Rightarrow> int \<Rightarrow> string \<Rightarrow> string \<Rightarrow> string \<Rightarrow> int \<Rightarrow> pyval" where
  "producer_manifest pid n img policy threshold delay =
     (let labels = [(''app'', VStr ''producer''), (''pipeline-id'', VStr pid)] in
      VDict
       [(''apiVersion'', VStr ''apps/v1''), (''kind'', VStr ''Deployment''),
        (''metadata'', VDict
          [(''name'', VStr (''producer-'' @ pid)),
           (''labels'', VDict (labels @ [(''managed-by'', VStr ''task-manager'')]))]),
        (''spec'', VDict
          [(''replicas'', VInt n),
           (''selector'', VDict [(''matchLabels'', VDict labels)]),
           (''template'', VDict
             [(''metadata'', VDict [(''labels'', VDict labels)]),
              (''spec'', VDict
                [(''restartPolicy'', VStr ''Always''), (''enableServiceLinks'', VBool False),
                 (''containers'', VList [VDict
                   [(''name'', VStr ''producer''), (''image'', VStr img), (''imagePullPolicy'', VStr policy),
                    (''env'', VList
                      [VDict [(''name'', VStr ''HEALTH_PORT''), (''value'', VStr ''8080'')],
                       VDict [(''name'', VStr ''OPCUA_STALENESS_THRESHOLD_S''), (''value'', VStr threshold)]]),
                    (''ports'', VList [VDict [(''name'', VStr ''health''), (''containerPort'', VInt 8080)]]),
                    (''livenessProbe'', VDict
                      [(''httpGet'', VDict [(''path'', VStr ''/healthz''), (''port'', VStr ''health'')]),
                       (''initialDelaySeconds'', VInt delay), (''periodSeconds'', VInt 10),
                       (''timeoutSeconds'', VInt 5), (''failureThreshold'', VInt 3)]),
                    (''resources'', VDict
                      [(''requests'', VDict [(''cpu'', VStr ''100m''), (''memory'', VStr ''128Mi'')]),
                       (''limits'', VDict [(''cpu'', VStr ''500m''), (''memory'', VStr ''512Mi'')])])]])])])])])"

definition parsed_deployment :: "host \<Rightarrow> settings \<Rightarrow> pipeline_config \<Rightarrow> int \<Rightarrow> pyval result" where
  "parsed_deployment H S c replicas =
     (case staleness_threshold_for c of
        Inl e \<Rightarrow> Inl e
      | Inr t \<Rightarrow>
          map_sum id (\<lambda>n. producer_manifest (pipeline_id c) replicas (producer_image S) (image_pull_policy S)
            (py_str (float_repr H) (VFloat t)) (n + 30)) (int_of_float t))"

definition manifest_name :: "pyval \<Rightarrow> string option" where
  "manifest_name m = (case py_get_path [Key ''metadata'', Key ''name''] m of Inr (VStr n) \<Rightarrow> Some n | _ \<Rightarrow> None)"

definition manifest_replicas :: "pyval \<Rightarrow> int option" where
  "manifest_replicas m = (case py_get_path [Key ''spec'', Key ''replicas''] m of Inr (VInt n) \<Rightarrow> Some n | _ \<Rightarrow> None)"

text \<open>
  \<open>replicas k ns n\<close> is \<open>spec.replicas\<close> of the Deployment \<open>n\<close>. The laws are those of the API server
  (a call changes the object it names and no other, a patch merges) and of YAML for the
  configurations that are \<open>deployable\<close>.
\<close>

locale kubernetes_cluster =
  fixes K :: "'k kube_api" and replicas :: "'k \<Rightarrow> string \<Rightarrow> string \<Rightarrow> int option"
    and H :: host and S :: settings and deployable :: "pipeline_config \<Rightarrow> bool"
  assumes incluster_same: "k_load_incluster K k = (r1, k') \<Longrightarrow> replicas k' = replicas k"
    and context_same: "k_load_context K ctx k = (r1, k') \<Longrightarrow> replicas k' = replicas k"
    and incluster_error: "k_load_incluster K k = (Inl e, k') \<Longrightarrow> e \<noteq> ApiException code msg"
    and context_error: "k_load_context K ctx k = (Inl e, k') \<Longrightarrow> e \<noteq> ApiException code msg"
    and create_ok: "k_create K ns m k = (Inr (), k') \<Longrightarrow> manifest_name m = Some n \<Longrightarrow> manifest_replicas m = Some i \<Longrightarrow>
      replicas k' ns n = Some i"
    and create_frame: "k_create K ns m k = (r1, k') \<Longrightarrow> manifest_name m = Some n \<Longrightarrow> ns' \<noteq> ns \<or> n' \<noteq> n \<Longrightarrow>
      replicas k' ns' n' = replicas k ns' n'"
    and patch_ok: "k_patch K n ns m k = (Inr (), k') \<Longrightarrow>
      replicas k' ns n = (case manifest_replicas m of Some i \<Rightarrow> Some i | None \<Rightarrow> replicas k ns n)"
    and patch_frame: "k_patch K n ns m k = (r1, k') \<Longrightarrow> ns' \<noteq> ns \<or> n' \<noteq> n \<Longrightarrow> replicas k' ns' n' = replicas k ns' n'"
    and scale_ok: "k_patch_scale K n ns (scale_body i) k = (Inr (), k') \<Longrightarrow> replicas k' ns n = Some i"
    and scale_absent: "k_patch_scale K n ns (scale_body i) k = (Inl (ApiException 404 msg), k') \<Longrightarrow> replicas k' ns n = None"
    and scale_frame: "k_patch_scale K n ns m k = (r1, k') \<Longrightarrow> ns' \<noteq> ns \<or> n' \<noteq> n \<Longrightarrow> replicas k' ns' n' = replicas k ns' n'"
    and yaml: "deployable c \<Longrightarrow> deployment_text H S c 1 = Inr text \<Longrightarrow> k_yaml_load K text = parsed_deployment H S c 1"

lemma producer_manifest_paths:
  "py_get_path [Key ''metadata'', Key ''name''] (producer_manifest pid r img policy t d) = Inr (VStr (deployment_name pid))"
  "py_get_path [Key ''spec'', Key ''replicas''] (producer_manifest pid r img policy t d) = Inr (VInt r)"
  by (simp_all add: producer_manifest_def Let_def dict_get_def deployment_name_def)

lemma producer_manifest_env:
  "\<exists>vars. py_get_path ENV_PATH (producer_manifest pid r img policy t d) = Inr (VList vars)"
  by (simp add: producer_manifest_def Let_def dict_get_def ENV_PATH_def)

lemma set_env_keeps:
  "py_get_path [Key ''metadata'', Key ''name''] (py_set_path ENV_PATH x m) = py_get_path [Key ''metadata'', Key ''name''] m"
  "py_get_path [Key ''spec'', Key ''replicas''] (py_set_path ENV_PATH x m) = py_get_path [Key ''spec'', Key ''replicas''] m"
  unfolding ENV_PATH_def
  by (rule py_get_set_other, simp) (rule py_get_set_under, rule py_get_set_other, simp)

lemma on_api_eq: "on_api m w = (r, w') \<longleftrightarrow> (\<exists>k. m (api_state w) = (r, k) \<and> w' = w\<lparr>api_state := k\<rparr>)"
  by (auto simp: on_api_def split: prod.splits)

context kubernetes_cluster
begin

lemma rendered:
  assumes "deployable c" and "render_producer_deployment H (k_yaml_load K) S c 1 = Inr m"
  shows "manifest_name m = Some (deployment_name (pipeline_id c))" and "manifest_replicas m = Some 1"
    and "py_get_path [Key ''metadata'', Key ''name''] m = Inr (VStr (deployment_name (pipeline_id c)))"
proof -
  from assms(2) obtain t0 m0 x where m0: "deployment_text H S c 1 = Inr t0" "k_yaml_load K t0 = Inr m0"
    "m = py_set_path ENV_PATH x m0"
    by (auto simp: render_producer_deployment_def split: sum.splits pyval.splits)
  then have "parsed_deployment H S c 1 = Inr m0" using yaml [OF assms(1) m0(1)] by simp
  then obtain t n where "m0 = producer_manifest (pipeline_id c) 1 (producer_image S) (image_pull_policy S) t n"
    by (auto simp: parsed_deployment_def map_sum.simps split: sum.splits elim!: map_sum_InrE)
  with m0(3) show "py_get_path [Key ''metadata'', Key ''name''] m = Inr (VStr (deployment_name (pipeline_id c)))"
    and "manifest_name m = Some (deployment_name (pipeline_id c))" and "manifest_replicas m = Some 1"
    by (simp_all only: manifest_name_def manifest_replicas_def set_env_keeps producer_manifest_paths sum.case pyval.case)
qed

lemma kube_load_same:
  assumes "kube_load K S w = (r, w')"
  shows "replicas (api_state w') = replicas (api_state w) \<and> (\<forall>e code msg. r = Inl e \<longrightarrow> e \<noteq> ApiException code msg)"
proof (cases "loaded w")
  case False
  obtain x k where x: "k_load_incluster K (api_state w) = (x, k)" by fastforce
  note same = incluster_same [OF x]
  show ?thesis
  proof (cases x)
    case (Inr u)
    with assms False x same show ?thesis by (auto simp: kube_load_def io_simps on_api_def)
  next
    case (Inl e)
    show ?thesis
    proof (cases "is_config_exception e \<and> kube_context S \<notin> {None, Some []}")
      case False
      with assms \<open>\<not> loaded w\<close> x Inl same incluster_error [of "api_state w" e k] show ?thesis
        by (auto simp: kube_load_def io_simps on_api_def split: if_splits option.splits)
    next
      case True
      then obtain ctx where ctx: "kube_context S = Some ctx" "ctx \<noteq> []" by auto
      obtain y k' where y: "k_load_context K ctx k = (y, k')" by fastforce
      then have "y \<noteq> Inl (ApiException code msg)" for code msg using context_error by blast
      with assms False x Inl True ctx same context_same [OF y] y show ?thesis
        by (cases y) (auto simp: kube_load_def io_simps on_api_def)
    qed
  qed
qed (use assms in \<open>auto simp: kube_load_def\<close>)

lemma with_server_cases:
  assumes "with_server K S m w = (r, w')"
  obtains (load) e where "r = Inl e" "\<And>code msg. e \<noteq> ApiException code msg" "replicas (api_state w') = replicas (api_state w)"
  | (call) k where "replicas k = replicas (api_state w)" "m k = (r, api_state w')"
proof (cases "kube_load K S w")
  case (Pair x w1)
  show thesis
  proof (cases x)
    case (Inl e)
    with assms Pair have "r = Inl e" "w' = w1" by (simp_all add: with_server_def io_simps)
    then show thesis using load kube_load_same [OF Pair] Inl by blast
  next
    case (Inr u)
    with assms Pair have "m (api_state w1) = (r, api_state w')"
      by (auto simp: with_server_def io_simps on_api_eq)
    then show thesis using call kube_load_same [OF Pair] by blast
  qed
qed

lemma scale_effect:
  assumes "scale_deployment K S n i w = (r, w')"
  shows "(\<forall>ns' n'. ns' \<noteq> k8s_namespace S \<or> n' \<noteq> n \<longrightarrow> replicas (api_state w') ns' n' = replicas (api_state w) ns' n') \<and>
    (r = Inr () \<longrightarrow> replicas (api_state w') (k8s_namespace S) n \<in> {None, Some i})"
proof -
  obtain x where x: "with_server K S (k_patch_scale K n (k8s_namespace S) (scale_body i)) w = (x, w')"
      "r = x \<or> (\<exists>msg. x = Inl (ApiException 404 msg))"
    using assms by (auto simp: scale_deployment_def io_simps split: prod.splits sum.splits exn.splits if_splits)
  from x(1) show ?thesis
  proof (cases rule: with_server_cases)
    case (load e)
    with x(2) show ?thesis by auto
  next
    case (call k)
    then have "\<forall>ns' n'. ns' \<noteq> k8s_namespace S \<or> n' \<noteq> n \<longrightarrow> replicas (api_state w') ns' n' = replicas (api_state w) ns' n'"
      using scale_frame by metis
    moreover have "replicas (api_state w') (k8s_namespace S) n \<in> {None, Some i}" if "r = Inr ()"
      using x(2) call(2) scale_ok scale_absent that by fastforce
    ultimately show ?thesis by blast
  qed
qed

lemma apply_effect:
  assumes "apply_deployment H K S c 1 w = (r, w')" and d: "deployable c"
  defines "n \<equiv> deployment_name (pipeline_id c)"
  shows "(\<forall>ns' n'. ns' \<noteq> k8s_namespace S \<or> n' \<noteq> n \<longrightarrow> replicas (api_state w') ns' n' = replicas (api_state w) ns' n') \<and>
    (r = Inr () \<longrightarrow> replicas (api_state w') (k8s_namespace S) n = Some 1)"
proof (cases "render_producer_deployment H (k_yaml_load K) S c 1")
  case (Inl e)
  with assms(1) show ?thesis by (auto simp: apply_deployment_def io_simps)
next
  case (Inr m)
  note m = rendered [OF d Inr, folded n_def]
  obtain x w1 where l: "kube_load K S w = (x, w1)" by fastforce
  show ?thesis
  proof (cases x)
    case (Inl e)
    with assms(1) \<open>render_producer_deployment _ _ _ _ _ = _\<close> l kube_load_same [OF l] show ?thesis
      by (auto simp: apply_deployment_def io_simps)
  next
    case (Inr u)
    obtain y k where y: "k_create K (k8s_namespace S) m (api_state w1) = (y, k)" by fastforce
    have same: "\<forall>ns' n'. ns' \<noteq> k8s_namespace S \<or> n' \<noteq> n \<longrightarrow> replicas k ns' n' = replicas (api_state w) ns' n'"
      using create_frame [OF y m(1)] kube_load_same [OF l] by simp
    show ?thesis
    proof (cases "\<exists>msg. y = Inl (ApiException 409 msg)")
      case False
      with assms(1) \<open>render_producer_deployment _ _ _ _ _ = _\<close> l Inr y have "r = y \<and> api_state w' = k"
        by (cases y) (auto simp: apply_deployment_def io_simps on_api_def split: exn.splits if_splits)
      with same create_ok [OF _ m(1,2)] y show ?thesis by blast
    next
      case True
      obtain z k' where z: "k_patch K n (k8s_namespace S) m k = (z, k')" by fastforce
      with True assms(1) \<open>render_producer_deployment _ _ _ _ _ = _\<close> l Inr y m(3) have "r = z \<and> api_state w' = k'"
        by (auto simp: apply_deployment_def io_simps on_api_def)
      with z same patch_frame [OF z] patch_ok [of n "k8s_namespace S" m k k'] m(2) show ?thesis by auto
    qed
  qed
qed

lemma rollout_effect:
  assumes "restart_rollout K S n w = (r, w')"
  shows "(\<forall>ns' n'. ns' \<noteq> k8s_namespace S \<or> n' \<noteq> n \<longrightarrow> replicas (api_state w') ns' n' = replicas (api_state w) ns' n') \<and>
    (r = Inr () \<longrightarrow> replicas (api_state w') (k8s_namespace S) n = replicas (api_state w) (k8s_namespace S) n)"
  using assms unfolding restart_rollout_def
proof (cases rule: with_server_cases)
  case (call k)
  have "manifest_replicas (rollout_body now) = None" for now
    by (simp add: manifest_replicas_def rollout_body_def dict_get_def)
  with call patch_frame [OF call(2)] patch_ok [of n "k8s_namespace S" "rollout_body (k_now K k)" k "api_state w'"]
  show ?thesis by auto
qed simp

text \<open>
  What each operation leaves: other Deployments as they were whatever happens, and on return
  the replica count that stands for the desired state.
\<close>

lemma start_effect:
  assumes "kube_start H K S c s w = (r, w')" and "deployable c"
  shows "(\<forall>ns' n'. ns' \<noteq> k8s_namespace S \<or> n' \<noteq> deployment_name (pipeline_id c) \<longrightarrow>
      replicas (api_state w') ns' n' = replicas (api_state w) ns' n') \<and>
    (\<forall>p. r = Inr p \<longrightarrow> p = (deployment_name (pipeline_id c), []) \<and>
      replicas (api_state w') (k8s_namespace S) (deployment_name (pipeline_id c)) = Some 1)"
proof -
  obtain x where x: "apply_deployment H K S c 1 w = (x, w')"
    "r = map_sum id (\<lambda>_. (deployment_name (pipeline_id c), [])) x"
    using assms(1) by (auto simp: kube_start_def io_simps split: prod.splits sum.splits)
  show ?thesis using apply_effect [OF x(1) assms(2)] x(2) by (cases x) auto
qed

lemma restart_effect:
  assumes "kube_restart H K S c s w = (r, w')" and "deployable c"
  shows "(\<forall>ns' n'. ns' \<noteq> k8s_namespace S \<or> n' \<noteq> deployment_name (pipeline_id c) \<longrightarrow>
      replicas (api_state w') ns' n' = replicas (api_state w) ns' n') \<and>
    (\<forall>p. r = Inr p \<longrightarrow> p = (deployment_name (pipeline_id c), []) \<and>
      replicas (api_state w') (k8s_namespace S) (deployment_name (pipeline_id c)) = Some 1)"
proof -
  obtain x w1 where x: "apply_deployment H K S c 1 w = (x, w1)" by fastforce
  obtain y w2 where y: "restart_rollout K S (deployment_name (pipeline_id c)) w1 = (y, w2)" by fastforce
  show ?thesis
  proof (cases x)
    case (Inl e)
    with assms(1) x have "r = Inl e" "w' = w1" by (auto simp: kube_restart_def io_simps)
    with apply_effect [OF x assms(2)] show ?thesis by simp
  next
    case (Inr u)
    with assms(1) x y have "r = map_sum id (\<lambda>_. (deployment_name (pipeline_id c), [])) y" "w' = w2"
      by (auto simp: kube_restart_def io_simps split: sum.splits)
    with apply_effect [OF x assms(2)] rollout_effect [OF y] Inr show ?thesis by (cases y) auto
  qed
qed

lemma stop_effect:
  assumes "kube_stop K S c s w = (r, w')"
  shows "(\<forall>ns' n'. ns' \<noteq> k8s_namespace S \<or> n' \<noteq> deployment_name (pipeline_id c) \<longrightarrow>
      replicas (api_state w') ns' n' = replicas (api_state w) ns' n') \<and>
    (r = Inr () \<longrightarrow> replicas (api_state w') (k8s_namespace S) (deployment_name (pipeline_id c)) \<in> {None, Some 0})"
  using scale_effect [OF assms [unfolded kube_stop_def]] .

lemma fresh_adapter_eq:
  "fresh_adapter m k = (r, k') \<longleftrightarrow> (\<exists>w. m \<lparr>loaded = False, api_state = k\<rparr> = (r, w) \<and> k' = api_state w)"
  by (auto simp: fresh_adapter_def split: prod.splits)

end

definition deployment_up :: "('k \<Rightarrow> string \<Rightarrow> string \<Rightarrow> int option) \<Rightarrow> settings \<Rightarrow> 'k \<Rightarrow> string \<Rightarrow> bool" where
  "deployment_up replicas S k pid \<longleftrightarrow> (case replicas k (k8s_namespace S) (deployment_name pid) of Some i \<Rightarrow> 0 < i | None \<Rightarrow> False)"

lemma deployment_name_inject [simp]: "deployment_name p = deployment_name q \<longleftrightarrow> p = q"
  by (simp add: deployment_name_def)

context kubernetes_cluster
begin

text \<open>The three operations of the adapter, as one statement.\<close>

lemma adapter_effect:
  assumes "deployable c"
    and "rt_start (kubernetes_adapter H K S) c s k = (r, k') \<or> rt_restart (kubernetes_adapter H K S) c s k = (r, k')"
  shows "(\<forall>ns' n'. ns' \<noteq> k8s_namespace S \<or> n' \<noteq> deployment_name (pipeline_id c) \<longrightarrow>
      replicas k' ns' n' = replicas k ns' n') \<and>
    (\<forall>p. r = Inr p \<longrightarrow> p = (deployment_name (pipeline_id c), []) \<and>
      replicas k' (k8s_namespace S) (deployment_name (pipeline_id c)) = Some 1)"
proof -
  from assms(2) obtain w where w: "k' = api_state w"
    "kube_start H K S c s \<lparr>loaded = False, api_state = k\<rparr> = (r, w) \<or> kube_restart H K S c s \<lparr>loaded = False, api_state = k\<rparr> = (r, w)"
    by (auto simp: kubernetes_adapter_def fresh_adapter_eq)
  from w(2) show ?thesis
  proof
    assume "kube_start H K S c s \<lparr>loaded = False, api_state = k\<rparr> = (r, w)"
    from start_effect [OF this assms(1)] show ?thesis by (simp only: w(1) kube_adapter.select_convs)
  next
    assume "kube_restart H K S c s \<lparr>loaded = False, api_state = k\<rparr> = (r, w)"
    from restart_effect [OF this assms(1)] show ?thesis by (simp only: w(1) kube_adapter.select_convs)
  qed
qed

lemma adapter_stop_effect:
  assumes "rt_stop (kubernetes_adapter H K S) c s k = (r, k')"
  shows "(\<forall>ns' n'. ns' \<noteq> k8s_namespace S \<or> n' \<noteq> deployment_name (pipeline_id c) \<longrightarrow>
      replicas k' ns' n' = replicas k ns' n') \<and>
    (r = Inr () \<longrightarrow> replicas k' (k8s_namespace S) (deployment_name (pipeline_id c)) \<in> {None, Some 0})"
proof -
  from assms obtain w where w: "k' = api_state w" "kube_stop K S c s \<lparr>loaded = False, api_state = k\<rparr> = (r, w)"
    by (auto simp: kubernetes_adapter_def fresh_adapter_eq)
  from stop_effect [OF w(2)] show ?thesis unfolding w(1) by simp
qed

lemma kubernetes_contract:
  "runtime_contract (kubernetes_adapter H K S) (deployment_up replicas S) (\<lambda>c s. deployable c) (\<noteq>)"
proof
  fix c :: pipeline_config and s :: pipeline_state and k names k' q r1 r2
  let ?A = "kubernetes_adapter H K S"
  show "\<not> deployment_up replicas S k' (pipeline_id c)" if "rt_stop ?A c s k = (Inr (), k')"
    using adapter_stop_effect [OF that] by (auto simp: deployment_up_def)
  show "deployment_up replicas S k' q = deployment_up replicas S k q"
    if "pipeline_id c \<noteq> q" "rt_stop ?A c s k = (r2, k')"
    using adapter_stop_effect [OF that(2)] that(1) by (simp add: deployment_up_def)
  assume d: "deployable c"
  show "deployment_up replicas S k' (pipeline_id c)" if "rt_start ?A c s k = (Inr names, k')"
    using adapter_effect [OF d disjI1 [OF that]] by (simp add: deployment_up_def)
  show "deployment_up replicas S k' (pipeline_id c)" if "rt_restart ?A c s k = (Inr names, k')"
    using adapter_effect [OF d disjI2 [OF that]] by (simp add: deployment_up_def)
  assume q: "pipeline_id c \<noteq> q"
  show "deployment_up replicas S k' q = deployment_up replicas S k q" if "rt_start ?A c s k = (r1, k')"
    using adapter_effect [OF d disjI1 [OF that]] q by (simp add: deployment_up_def)
  show "deployment_up replicas S k' q = deployment_up replicas S k q" if "rt_restart ?A c s k = (r1, k')"
    using adapter_effect [OF d disjI2 [OF that]] q by (simp add: deployment_up_def)
qed

end

sublocale kubernetes_cluster \<subseteq> kubernetes_runtime: runtime_contract "kubernetes_adapter H K S" "deployment_up replicas S"
  "\<lambda>c s. deployable c" "(\<noteq>)"
  by (rule kubernetes_contract)

section \<open>A cluster in memory\<close>

text \<open>The replica counts by namespace and name; \<open>inside\<close> says whether a client runs in the cluster.\<close>

type_synonym memory_cluster = "((string \<times> string) \<times> int) list"

definition memory_replicas :: "memory_cluster \<Rightarrow> string \<Rightarrow> string \<Rightarrow> int option" where
  "memory_replicas k ns n = map_of k (ns, n)"

definition kube_tokens :: "token list" where
  "kube_tokens = [Lit ''replicas: '', Braced ''REPLICAS'']"

definition kube_host :: host where
  "kube_host = sample_host\<lparr>file_text := (\<lambda>p.
     if p = ''/opt/k8s/producer-deployment-template.yaml'' then Some (unparse kube_tokens)
     else file_text sample_host p)\<rparr>"

definition memory_kube :: "bool \<Rightarrow> memory_cluster kube_api" where
  "memory_kube inside =
     \<lparr>k_load_incluster = (\<lambda>k. (if inside then Inr () else Inl (OtherError ''ConfigException'' []), k)),
      k_load_context = (\<lambda>ctx. ret_io ()),
      k_create = (\<lambda>ns m k.
        case (manifest_name m, manifest_replicas m) of
          (Some n, Some i) \<Rightarrow>
            if map_of k (ns, n) = None then (Inr (), AList.update (ns, n) i k)
            else (Inl (ApiException 409 ''Conflict''), k)
        | _ \<Rightarrow> (Inl (ApiException 422 ''Unprocessable''), k)),
      k_patch = (\<lambda>n ns m k.
        if map_of k (ns, n) = None then (Inl (ApiException 404 ''Not Found''), k)
        else (Inr (), case manifest_replicas m of Some i \<Rightarrow> AList.update (ns, n) i k | None \<Rightarrow> k)),
      k_patch_scale = (\<lambda>n ns m k.
        if map_of k (ns, n) = None then (Inl (ApiException 404 ''Not Found''), k)
        else case manifest_replicas m of
               Some i \<Rightarrow> (Inr (), AList.update (ns, n) i k)
             | None \<Rightarrow> (Inl (ApiException 422 ''Unprocessable''), k)),
      k_pods = (\<lambda>ns sel. ret_io []), k_pod_log = (\<lambda>pod ns tail. ret_io []),
      k_ready_replicas = (\<lambda>n ns k. (case map_of k (ns, n) of
                                       None \<Rightarrow> Inl (ApiException 404 ''Not Found'')
                                     | Some i \<Rightarrow> Inr (if 0 < i then Some i else None), k)),
      k_now = (\<lambda>_. ''now''),
      k_yaml_load = (\<lambda>_. parsed_deployment kube_host default_settings sample_config 1)\<rparr>"

lemma manifest_replicas_scale [simp]: "manifest_replicas (scale_body i) = Some i"
  by (simp add: manifest_replicas_def scale_body_def dict_get_def)

interpretation mem_kube: kubernetes_cluster "memory_kube inside" memory_replicas kube_host default_settings
  "\<lambda>c. c = sample_config" for inside
  by unfold_locales
    (auto simp: memory_kube_def memory_replicas_def io_simps fun_eq_iff update_conv' split: if_splits option.splits)

section \<open>Properties\<close>

text \<open>
  C10: The desired state is the replica count. In a cluster that keeps the API's laws, a start
  or a restart that returns leaves one replica declared for the pipeline's Deployment, whether
  it existed or not, and reports its name; a stop that returns leaves none, a missing
  Deployment included; and whatever the calls return or raise, no other Deployment changes.
\<close>

theorem kubernetes_desired_state:
  assumes "kubernetes_cluster K replicas H S deployable" and "deployable c"
    and "rt_start (kubernetes_adapter H K S) c s k = (r1, k1)"
    and "rt_restart (kubernetes_adapter H K S) c s k = (r2, k2)"
    and "rt_stop (kubernetes_adapter H K S) c s k = (r3, k3)"
    and "n = deployment_name (pipeline_id c)"
  shows "(\<forall>ns' n'. ns' \<noteq> k8s_namespace S \<or> n' \<noteq> n \<longrightarrow>
      replicas k1 ns' n' = replicas k ns' n' \<and> replicas k2 ns' n' = replicas k ns' n' \<and>
      replicas k3 ns' n' = replicas k ns' n') \<and>
    (\<forall>p. r1 = Inr p \<longrightarrow> p = (n, []) \<and> replicas k1 (k8s_namespace S) n = Some 1) \<and>
    (\<forall>p. r2 = Inr p \<longrightarrow> p = (n, []) \<and> replicas k2 (k8s_namespace S) n = Some 1) \<and>
    (r3 = Inr () \<longrightarrow> replicas k3 (k8s_namespace S) n \<in> {None, Some 0})"
  using kubernetes_cluster.adapter_effect [OF assms(1,2) disjI1 [OF assms(3)]]
    kubernetes_cluster.adapter_effect [OF assms(1,2) disjI2 [OF assms(4)]]
    kubernetes_cluster.adapter_stop_effect [OF assms(1,5)]
  unfolding assms(6) by (intro conjI) blast+

text \<open>The sample pipeline on the memory cluster: a first start creates, a restart patches.\<close>

lemma kube_render: "\<exists>m. render_producer_deployment kube_host (k_yaml_load (memory_kube inside)) default_settings sample_config 1 = Inr m"
proof -
  have t: "staleness_threshold_for sample_config = Inr (Fin 60)"
    using spec_for_registered [of OPCUA] by (simp add: staleness_threshold_for_def sample_config_def)
  have "deployment_template kube_host = Inr (unparse kube_tokens)"
    by (simp add: deployment_template_def kube_host_def Let_def)
  moreover have "substitute env (unparse kube_tokens) = Inr (concat (map (token_value env) kube_tokens))"
    if "map_of env ''REPLICAS'' \<noteq> None" for env
    by (rule substitute_unparse) (use that in \<open>simp_all add: kube_tokens_def name_ok_def ident_char_def
      ident_start_def ascii_letters_def\<close>)
  ultimately obtain t0 where "deployment_text kube_host default_settings sample_config 1 = Inr t0"
    using t by (simp add: deployment_text_def deployment_values_def)
  moreover have "\<exists>t. render_telegraf_config kube_host sample_config b CONNECTOR_DIR d = Inr t" for b d
    by (rule render_total [of _ "unparse sample_tokens"]) (simp add: kube_host_def sample_host_def template_dirs_def)
  moreover obtain m where m: "parsed_deployment kube_host default_settings sample_config 1 = Inr m"
    "\<exists>vars. py_get_path ENV_PATH m = Inr (VList vars)"
    using t producer_manifest_env by (simp add: parsed_deployment_def)
  moreover have "k_yaml_load (memory_kube inside) s = Inr m" for s by (simp add: memory_kube_def m(1))
  ultimately show ?thesis by (metis render_producer_InrI)
qed

abbreviation mem_adapter :: "bool \<Rightarrow> memory_cluster runtime_adapter" where
  "mem_adapter inside \<equiv> kubernetes_adapter kube_host (memory_kube inside) default_settings"

lemma memory_apply:
  "\<exists>w'. apply_deployment kube_host (memory_kube True) default_settings sample_config 1 w = (Inr (), w')"
proof -
  obtain m where m: "render_producer_deployment kube_host (k_yaml_load (memory_kube True)) default_settings sample_config 1 = Inr m"
    using kube_render by blast
  note r = mem_kube.rendered [OF refl m]
  have load: "\<exists>w1. kube_load (memory_kube True) default_settings w = (Inr (), w1)"
    by (simp add: kube_load_def io_simps on_api_def memory_kube_def)
  then obtain w1 where l: "kube_load (memory_kube True) default_settings w = (Inr (), w1)" by blast
  have create: "k_create (memory_kube True) (k8s_namespace default_settings) m k =
      (let key = (k8s_namespace default_settings, deployment_name (pipeline_id sample_config)) in
       if map_of k key = None then (Inr (), AList.update key 1 k) else (Inl (ApiException 409 ''Conflict''), k))" for k
    using r by (auto simp: memory_kube_def Let_def)
  have patch: "\<exists>k'. k_patch (memory_kube True) (deployment_name (pipeline_id sample_config)) (k8s_namespace default_settings) m k = (Inr (), k')"
    if "map_of k (k8s_namespace default_settings, deployment_name (pipeline_id sample_config)) \<noteq> None" for k
    using that by (simp add: memory_kube_def)
  show ?thesis
  proof (cases "map_of (api_state w1) (k8s_namespace default_settings, deployment_name (pipeline_id sample_config)) = None")
    case True
    with m l create show ?thesis by (simp add: apply_deployment_def io_simps on_api_def)
  next
    case False
    then obtain k' where "k_patch (memory_kube True) (deployment_name (pipeline_id sample_config)) (k8s_namespace default_settings) m (api_state w1) = (Inr (), k')"
      using patch by blast
    with m l create r(3) False show ?thesis by (auto simp: apply_deployment_def io_simps on_api_def)
  qed
qed

lemma memory_calls:
  "\<exists>k1. rt_start (mem_adapter True) sample_config s k = (Inr (''producer-p1'', []), k1)"
  "\<exists>k2. rt_stop (mem_adapter True) sample_config s k = (Inr (), k2)"
proof -
  have n: "deployment_name (pipeline_id sample_config) = ''producer-p1''" by (simp add: deployment_name_def sample_config_def)
  show "\<exists>k1. rt_start (mem_adapter True) sample_config s k = (Inr (''producer-p1'', []), k1)"
    using memory_apply [of "\<lparr>loaded = False, api_state = k\<rparr>"] n
    by (auto simp: kubernetes_adapter_def fresh_adapter_def kube_start_def io_simps)
  show "\<exists>k2. rt_stop (mem_adapter True) sample_config s k = (Inr (), k2)"
    by (cases "map_of k (k8s_namespace default_settings, deployment_name (pipeline_id sample_config))")
      (auto simp: kubernetes_adapter_def fresh_adapter_def kube_stop_def scale_deployment_def with_server_def
        kube_load_def io_simps on_api_def memory_kube_def)
qed

lemma memory_restart_call:
  "\<exists>r k2. rt_restart (mem_adapter True) sample_config s k = (r, k2)"
  by (meson surj_pair)

lemma kubernetes_desired_state_witness:
  "\<exists>k1 k3. rt_start (mem_adapter True) sample_config (idle_state ''p1'') [((''default'', ''other''), 4)] =
       (Inr (''producer-p1'', []), k1) \<and>
     memory_replicas k1 ''default'' ''producer-p1'' = Some 1 \<and> memory_replicas k1 ''default'' ''other'' = Some 4 \<and>
     rt_stop (mem_adapter True) sample_config (idle_state ''p1'') [((''default'', ''other''), 4)] = (Inr (), k3) \<and>
     memory_replicas k3 ''default'' ''producer-p1'' \<in> {None, Some 0}"
proof -
  let ?k = "[((''default'', ''other''), 4)]" and ?s = "idle_state ''p1''"
  obtain k1 where k1: "rt_start (mem_adapter True) sample_config ?s ?k = (Inr (''producer-p1'', []), k1)"
    using memory_calls(1) by blast
  obtain k3 where k3: "rt_stop (mem_adapter True) sample_config ?s ?k = (Inr (), k3)" using memory_calls(2) by blast
  obtain r k2 where k2: "rt_restart (mem_adapter True) sample_config ?s ?k = (r, k2)" using memory_restart_call by blast
  have n: "''producer-p1'' = deployment_name (pipeline_id sample_config)" by (simp add: deployment_name_def sample_config_def)
  have "k8s_namespace default_settings = ''default''" by (simp add: default_settings_def)
  moreover have "memory_replicas ?k ''default'' ''other'' = Some 4" by (simp add: memory_replicas_def)
  moreover have "''other'' \<noteq> ''producer-p1''" by simp
  ultimately show ?thesis
    using kubernetes_desired_state [OF mem_kube.kubernetes_cluster_axioms refl k1 k2 k3 n] k1 k3 by metis
qed

text \<open>
  The probe waits longer than the staleness threshold. For a finite threshold \<open>x\<close>, the
  pipeline's own or the default of its source, the manifest's values carry an initial delay
  that is an integer and, for a threshold that is not negative, more than 29 and at most 30
  seconds above it; a threshold that is not a number or infinite raises before anything is
  rendered.
\<close>

lemma probe_delay_exceeds_threshold:
  "\<exists>t. staleness_threshold_for c = Inr t \<and>
     (case t of
        Fin x \<Rightarrow> \<exists>env n. deployment_values H S c r = Inr env \<and>
          map_of env ''PROBE_INITIAL_DELAY_S'' = Some (str_of_int n) \<and>
          map_of env ''STALENESS_THRESHOLD_S'' = Some (py_str (float_repr H) (VFloat t)) \<and>
          (0 \<le> x \<longrightarrow> x + 29 < of_int n \<and> of_int n \<le> x + 30)
      | NaN \<Rightarrow> deployment_values H S c r = Inl (ValueError ''cannot convert float NaN to integer'')
      | _ \<Rightarrow> deployment_values H S c r = Inl (OverflowError ''cannot convert float infinity to integer''))"
proof -
  obtain t where t: "staleness_threshold_for c = Inr t"
    by (cases "staleness_threshold_s (source_options c)")
      (simp_all add: staleness_threshold_for_def spec_for_registered)
  show ?thesis
  proof (cases t)
    case (Fin x)
    define n where "n = (if 0 \<le> x then \<lfloor>x\<rfloor> else \<lceil>x\<rceil>) + 30"
    have "x + 29 < of_int n \<and> of_int n \<le> x + 30" if "0 \<le> x"
      using that by (simp add: n_def) linarith
    with t Fin show ?thesis by (auto simp: deployment_values_def n_def)
  qed (use t in \<open>simp_all add: deployment_values_def\<close>)
qed

lemma with_server_error: "kube_load K S w = (Inl e, w1) \<Longrightarrow> with_server K S m w = (Inl e, w1)"
  by (simp add: with_server_def io_simps)

text \<open>
  C28: Outside a cluster nothing is deployed into the ambient context. When the in-cluster
  configuration is missing and no context is named, every operation of the adapter raises, and
  apart from the attempt to load that configuration it makes no call to any API server.
\<close>

theorem no_ambient_context:
  assumes "k_load_incluster K k = (Inl e, k1)" and "is_config_exception e" and "kube_context S \<in> {None, Some []}"
  shows "rt_stop (kubernetes_adapter H K S) c s k = (Inl (RuntimeError ''no explicit kube_context''), k1) \<and>
    rt_logs (kubernetes_adapter H K S) name tail k = (Inl (RuntimeError ''no explicit kube_context''), k1) \<and>
    rt_is_running (kubernetes_adapter H K S) name k = (Inl (RuntimeError ''no explicit kube_context''), k1) \<and>
    (\<exists>e' k'. rt_start (kubernetes_adapter H K S) c s k = (Inl e', k') \<and>
       rt_restart (kubernetes_adapter H K S) c s k = (Inl e', k') \<and> k' \<in> {k, k1})"
proof -
  have l: "kube_load K S \<lparr>loaded = False, api_state = k\<rparr> =
      (Inl (RuntimeError ''no explicit kube_context''), \<lparr>loaded = False, api_state = k1\<rparr>)"
    using assms by (auto simp: kube_load_def io_simps on_api_def)
  note w = with_server_error [OF l]
  have a: "\<exists>e' w'. apply_deployment H K S c 1 \<lparr>loaded = False, api_state = k\<rparr> = (Inl e', w') \<and> api_state w' \<in> {k, k1}"
    by (cases "render_producer_deployment H (k_yaml_load K) S c 1") (auto simp: apply_deployment_def io_simps l)
  then show ?thesis
    by (auto simp: w kubernetes_adapter_def fresh_adapter_def kube_stop_def scale_deployment_def pod_logs_def
        pods_for_def deployment_ready_def kube_start_def kube_restart_def io_simps)
qed

lemma no_ambient_context_witness:
  "rt_stop (mem_adapter False) sample_config (idle_state ''p1'') [((''default'', ''producer-p1''), 1)] =
     (Inl (RuntimeError ''no explicit kube_context''), [((''default'', ''producer-p1''), 1)])"
proof -
  let ?k = "[((''default'', ''producer-p1''), 1)]"
  have l: "k_load_incluster (memory_kube False) ?k = (Inl (OtherError ''ConfigException'' []), ?k)"
    by (simp add: memory_kube_def)
  have e: "is_config_exception (OtherError ''ConfigException'' [])" by (simp add: is_config_exception_def)
  have c: "kube_context default_settings \<in> {None, Some []}" by (simp add: default_settings_def)
  show ?thesis using no_ambient_context [OF l e c] by blast
qed

end
