(* ===== verification/Task_Manager.thy ===== *)
theory Task_Manager
  imports Pipeline_Repo Provisioning Kubernetes_Runtime
begin

text \<open>
  \<^verbatim>\<open>task_manager/app/main.py\<close>: the handlers of the REST API, over the repository, the runtime
  adapter and provisioning. A handler returns the value FastAPI serialises, or raises; an
  \<open>HTTPException\<close> carries its status, every other exception becomes a 500. The lemmas say for each
  handler what its answer stands for in Redis, in the runtime and in Kafka.
\<close>

section \<open>The process\<close>

text \<open>
  Every request makes its own adapter; it is the argument \<open>tm_adapter\<close> over the runtime's state.
\<close>

record ('r, 'v, 'k, 'a, 'c) tm_env =
  tm_redis_client :: "('r, 'v) redis_client"
  tm_adapter :: "'k runtime_adapter"
  tm_services :: "('a, 'c) provision_env"
  tm_settings :: settings

record ('r, 'k, 'a, 'c) tm_world =
  tm_redis :: 'r
  tm_runtime :: 'k
  tm_platform :: "('a, 'c) provision_world"

definition get_runtime :: "settings \<Rightarrow> 'k runtime_adapter \<Rightarrow> 'k runtime_adapter \<Rightarrow> 'k runtime_adapter" where
  "get_runtime S kubernetes docker =
     (if runtime_mode S = ''kubernetes'' then kubernetes
      else if runtime_mode S = ''docker'' then docker
      else redis_only_adapter)"

definition on_redis :: "('r, 'x) io \<Rightarrow> (('r, 'k, 'a, 'c) tm_world, 'x) io" where
  "on_redis m w = (case m (tm_redis w) of (x, r) \<Rightarrow> (x, w\<lparr>tm_redis := r\<rparr>))"

definition on_runtime :: "('k, 'x) io \<Rightarrow> (('r, 'k, 'a, 'c) tm_world, 'x) io" where
  "on_runtime m w = (case m (tm_runtime w) of (x, k) \<Rightarrow> (x, w\<lparr>tm_runtime := k\<rparr>))"

definition on_platform :: "(('a, 'c) provision_world, 'x) io \<Rightarrow> (('r, 'k, 'a, 'c) tm_world, 'x) io" where
  "on_platform m w = (case m (tm_platform w) of (x, p) \<Rightarrow> (x, w\<lparr>tm_platform := p\<rparr>))"

lemmas tm_lifts = on_redis_def on_runtime_def on_platform_def

text \<open>\<open>a or b\<close> for optional strings.\<close>

fun str_or :: "string option \<Rightarrow> string \<Rightarrow> string" where
  "str_or None d = d"
| "str_or (Some s) d = (if s = [] then d else s)"

section \<open>Creating and reading\<close>

record create_response =
  created_config :: pipeline_config
  created_state :: pipeline_state
  created_table :: string

definition request_config :: "pipeline_create_request \<Rightarrow> int \<Rightarrow> string \<Rightarrow> pipeline_config" where
  "request_config q n now =
     \<lparr>pipeline_id = req_pipeline_id q, pipeline_type = req_pipeline_type q,
      airflow_dag_id = req_airflow_dag_id q, user_id = str_or (req_user_id q) ''0'',
      collection_number = n, table_name = str_or (req_table_name q) ''events'',
      table_schema = req_table_schema q, source_type = req_source_type q,
      topic = str_or (req_topic q) (''pipeline.'' @ req_pipeline_id q @ ''.events''),
      batch_size = req_batch_size q, flush_interval_seconds = req_flush_interval_seconds q,
      source_options = req_source_options q, created_at = now, config_updated_at = now\<rparr>"

definition provision_or_rollback ::
  "('r, 'v, 'k, 'a, 'c) tm_env \<Rightarrow> pipeline_config \<Rightarrow> (('r, 'k, 'a, 'c) tm_world, unit) io" where
  "provision_or_rollback E c =
     (if pipeline_type c = LIVE
      then catch_io (on_platform (provision (tm_services E) (tm_settings E) c)) (\<lambda>e.
             bind_io (on_redis (repo_delete_pipeline (tm_redis_client E) (pipeline_id c))) (\<lambda>_.
               raise_io (HTTPException 502 (''provisioning failed: '' @ exn_str e))))
      else ret_io ())"

text \<open>An explicit collection number, unless it is zero, or the next of the user's counter.\<close>

definition collection_number_for ::
  "('r, 'v, 'k, 'a, 'c) tm_env \<Rightarrow> pipeline_create_request \<Rightarrow> (('r, 'k, 'a, 'c) tm_world, int) io" where
  "collection_number_for E q =
     (let next = on_redis (next_collection_number (tm_redis_client E) (str_or (req_user_id q) ''0'')) in
      case req_collection_number q of
        Some n \<Rightarrow> if n \<noteq> 0 then ret_io n else next
      | None \<Rightarrow> next)"

definition register_and_provision ::
  "('r, 'v, 'k, 'a, 'c) tm_env \<Rightarrow> pipeline_create_request \<Rightarrow> int \<Rightarrow> (('r, 'k, 'a, 'c) tm_world, create_response) io" where
  "register_and_provision E q n w =
     (case make_pipeline_config (request_config q n (utc_now_iso (tm_redis_client E) (tm_redis w))) of
        Inl e \<Rightarrow> (Inl e, w)
      | Inr c \<Rightarrow>
          bind_io
            (catch_io (on_redis (repo_create_pipeline (tm_redis_client E) c))
               (\<lambda>e. if is_value_error e then raise_io (HTTPException 409 (exn_str e)) else raise_io e)) (\<lambda>s.
          bind_io (provision_or_rollback E c) (\<lambda>_.
            case config_ch_unique_identifier c of
              Inl e \<Rightarrow> raise_io e
            | Inr table \<Rightarrow> ret_io \<lparr>created_config = c, created_state = s, created_table = table\<rparr>)) w)"

definition create_pipeline ::
  "('r, 'v, 'k, 'a, 'c) tm_env \<Rightarrow> pipeline_create_request \<Rightarrow> (('r, 'k, 'a, 'c) tm_world, create_response) io" where
  "create_pipeline E q =
     (if req_pipeline_type q = NORMAL \<and> str_or (req_airflow_dag_id q) [] = []
      then raise_io (HTTPException 400 ''airflow_dag_id required for normal pipelines'')
      else
        bind_io (on_redis (get_config (tm_redis_client E) (req_pipeline_id q))) (\<lambda>existing.
          if existing \<noteq> None then raise_io (HTTPException 409 (''Pipeline already exists: '' @ req_pipeline_id q))
          else bind_io (collection_number_for E q) (register_and_provision E q)))"

fun list_entries ::
  "('r, 'v) redis_client \<Rightarrow> string list \<Rightarrow> ('r, (pipeline_config \<times> pipeline_state) list) io" where
  "list_entries R [] = ret_io []"
| "list_entries R (pid # pids) =
     bind_io (get_config R pid) (\<lambda>c.
     bind_io (get_state R pid) (\<lambda>s.
     bind_io (list_entries R pids) (\<lambda>rest.
       ret_io (case (c, s) of (Some c', Some s') \<Rightarrow> (c', s') # rest | _ \<Rightarrow> rest))))"

definition list_pipelines ::
  "('r, 'v, 'k, 'a, 'c) tm_env \<Rightarrow> (('r, 'k, 'a, 'c) tm_world, (pipeline_config \<times> pipeline_state) list) io" where
  "list_pipelines E w =
     on_redis (list_entries (tm_redis_client E) (list_pipeline_ids (tm_redis_client E) (tm_redis w))) w"

text \<open>The guard that the lifecycle handlers share.\<close>

definition live_config ::
  "('r, 'v, 'k, 'a, 'c) tm_env \<Rightarrow> string \<Rightarrow> (('r, 'k, 'a, 'c) tm_world, pipeline_config) io" where
  "live_config E pid =
     bind_io (on_redis (get_config (tm_redis_client E) pid)) (\<lambda>found.
       case found of
         None \<Rightarrow> raise_io (HTTPException 404 ''Pipeline not found'')
       | Some c \<Rightarrow>
           if pipeline_type c = NORMAL
           then raise_io (HTTPException 400 ''normal pipelines are managed by Airflow, not by this service'')
           else ret_io c)"

definition get_status ::
  "('r, 'v, 'k, 'a, 'c) tm_env \<Rightarrow> string \<Rightarrow> (('r, 'k, 'a, 'c) tm_world, pipeline_config \<times> pipeline_state option) io" where
  "get_status E pid =
     bind_io (live_config E pid) (\<lambda>c.
     bind_io (on_redis (get_state (tm_redis_client E) pid)) (\<lambda>s. ret_io (c, s)))"

section \<open>Lifecycle\<close>

type_synonym ('r, 'k, 'a, 'c) lifecycle = "(('r, 'k, 'a, 'c) tm_world, string \<times> pipeline_state) io"

definition set_state ::
  "('r, 'v, 'k, 'a, 'c) tm_env \<Rightarrow> string \<Rightarrow> state_update \<Rightarrow> (('r, 'k, 'a, 'c) tm_world, pipeline_state) io" where
  "set_state E pid u = on_redis (update_state (tm_redis_client E) pid u)"

definition announce ::
  "('r, 'v, 'k, 'a, 'c) tm_env \<Rightarrow> event_type \<Rightarrow> string \<Rightarrow> pipeline_state \<Rightarrow> ('r, 'k, 'a, 'c) lifecycle" where
  "announce E ty message s =
     bind_io (on_redis (publish_state_event (tm_redis_client E) s ty)) (\<lambda>_. ret_io (message, s))"

text \<open>
  What start, stop and restart share: the call of the runtime, the state saved and the 502
  raised when it fails, the state saved and the event published when it returns.
\<close>

definition runtime_step ::
  "('r, 'v, 'k, 'a, 'c) tm_env \<Rightarrow> string \<Rightarrow> ('k, 'x) io \<Rightarrow> (exn \<Rightarrow> state_update) \<Rightarrow> string \<Rightarrow>
     ('x \<Rightarrow> state_update) \<Rightarrow> event_type \<Rightarrow> string \<Rightarrow> ('r, 'k, 'a, 'c) lifecycle" where
  "runtime_step E pid call on_failure failure on_success ty message =
     bind_io
       (catch_io (on_runtime call) (\<lambda>e.
          bind_io (set_state E pid (on_failure e)) (\<lambda>_. raise_io (HTTPException 502 (failure @ exn_str e))))) (\<lambda>x.
     bind_io (set_state E pid (on_success x)) (announce E ty message))"

definition start_now ::
  "('r, 'v, 'k, 'a, 'c) tm_env \<Rightarrow> string \<Rightarrow> pipeline_config \<Rightarrow> ('r, 'k, 'a, 'c) lifecycle" where
  "start_now E pid c =
     bind_io (set_state E pid (no_update\<lparr>set_desired := Some DESIRED_RUNNING, set_status := Some STARTING,
         set_error := Some []\<rparr>)) (\<lambda>s.
     runtime_step E pid (rt_start (tm_adapter E) c s)
       (\<lambda>e. no_update\<lparr>set_desired := Some DESIRED_STOPPED, set_status := Some FAILED, set_error := Some (exn_str e)\<rparr>)
       ''failed to start pipeline: ''
       (\<lambda>names. no_update\<lparr>set_status := Some RUNNING, set_producer := Some (Some (fst names)), set_error := Some []\<rparr>)
       EV_START ''Started'')"

definition start_pipeline :: "('r, 'v, 'k, 'a, 'c) tm_env \<Rightarrow> string \<Rightarrow> ('r, 'k, 'a, 'c) lifecycle" where
  "start_pipeline E pid =
     bind_io (live_config E pid) (\<lambda>c.
     bind_io (on_redis (get_state (tm_redis_client E) pid)) (\<lambda>found.
       case found of
         Some s \<Rightarrow> if desired_state s = DESIRED_RUNNING then ret_io (''Already running'', s) else start_now E pid c
       | None \<Rightarrow> start_now E pid c))"

definition stop_now ::
  "('r, 'v, 'k, 'a, 'c) tm_env \<Rightarrow> string \<Rightarrow> pipeline_config \<Rightarrow> ('r, 'k, 'a, 'c) lifecycle" where
  "stop_now E pid c =
     bind_io (set_state E pid (no_update\<lparr>set_desired := Some DESIRED_STOPPED, set_status := Some STOPPING\<rparr>)) (\<lambda>s.
     runtime_step E pid (rt_stop (tm_adapter E) c s)
       (\<lambda>e. no_update\<lparr>set_status := Some FAILED, set_error := Some (exn_str e)\<rparr>)
       ''failed to stop pipeline: ''
       (\<lambda>_. no_update\<lparr>set_status := Some STOPPED, set_producer := Some None, set_error := Some []\<rparr>)
       EV_STOP ''Stopped'')"

definition stop_pipeline :: "('r, 'v, 'k, 'a, 'c) tm_env \<Rightarrow> string \<Rightarrow> ('r, 'k, 'a, 'c) lifecycle" where
  "stop_pipeline E pid =
     bind_io (live_config E pid) (\<lambda>c.
     bind_io (on_redis (get_state (tm_redis_client E) pid)) (\<lambda>found.
       case found of
         Some s \<Rightarrow> if desired_state s = DESIRED_STOPPED then ret_io (''Already stopped'', s) else stop_now E pid c
       | None \<Rightarrow> stop_now E pid c))"

definition restart_pipeline :: "('r, 'v, 'k, 'a, 'c) tm_env \<Rightarrow> string \<Rightarrow> ('r, 'k, 'a, 'c) lifecycle" where
  "restart_pipeline E pid =
     bind_io (live_config E pid) (\<lambda>c.
     bind_io (on_redis (get_state (tm_redis_client E) pid)) (\<lambda>found.
       case found of
         None \<Rightarrow> raise_io (HTTPException 404 ''Pipeline state not found'')
       | Some s \<Rightarrow>
           runtime_step E pid (rt_restart (tm_adapter E) c s)
             (\<lambda>e. no_update\<lparr>set_status := Some FAILED, set_error := Some (exn_str e)\<rparr>)
             ''failed to restart pipeline: ''
             (\<lambda>names. no_update\<lparr>set_desired := Some DESIRED_RUNNING, set_status := Some RUNNING,
                set_producer := Some (Some (fst names)), set_error := Some []\<rparr>)
             EV_START ''Restarted''))"

text \<open>\<open>role\<close> is one of the two the query pattern admits.\<close>

datatype log_role = Producer_Role | Consumer_Role

fun role_name :: "log_role \<Rightarrow> string" where
  "role_name Producer_Role = ''producer''"
| "role_name Consumer_Role = ''consumer''"

record logs_response =
  logs_pipeline :: string
  logs_role :: log_role
  logs_container :: string
  logs_text :: string

definition get_pipeline_logs ::
  "('r, 'v, 'k, 'a, 'c) tm_env \<Rightarrow> string \<Rightarrow> log_role \<Rightarrow> int \<Rightarrow> (('r, 'k, 'a, 'c) tm_world, logs_response) io" where
  "get_pipeline_logs E pid role tail =
     bind_io (on_redis (get_state (tm_redis_client E) pid)) (\<lambda>found.
       case found of
         None \<Rightarrow> raise_io (HTTPException 404 ''Pipeline not found'')
       | Some s \<Rightarrow>
           let name = (case role of Consumer_Role \<Rightarrow> consumer_container s | Producer_Role \<Rightarrow> producer_container s) in
           if str_or name [] = []
           then raise_io (HTTPException 404 (''No '' @ role_name role @ '' container registered''))
           else bind_io (on_runtime (rt_logs (tm_adapter E) (str_or name []) tail)) (\<lambda>text.
                  ret_io \<lparr>logs_pipeline = pid, logs_role = role, logs_container = str_or name [], logs_text = text\<rparr>))"

section \<open>Deleting\<close>

definition DRAIN_TIMEOUT_S :: rat where
  "DRAIN_TIMEOUT_S = 30"

text \<open>
  \<open>n\<close> bounds the readings of the drain; \<open>None\<close> is a wait that has not ended after \<open>n\<close> of them.
\<close>

definition drain_topic ::
  "nat \<Rightarrow> ('r, 'v, 'k, 'a, 'c) tm_env \<Rightarrow> pipeline_config \<Rightarrow> ('r, 'k, 'a, 'c) tm_world \<Rightarrow>
     (bool result \<times> ('r, 'k, 'a, 'c) tm_world) option" where
  "drain_topic n E c w =
     map_option (\<lambda>(r, a). (r, w\<lparr>tm_platform := (tm_platform w)\<lparr>pw_kafka := a\<rparr>\<rparr>))
       (wait_for_drain n (admin_of (tm_services E)) (consumer_group_id (tm_settings E)) c DRAIN_TIMEOUT_S
          (pw_kafka (tm_platform w)))"

definition delete_record ::
  "('r, 'v, 'k, 'a, 'c) tm_env \<Rightarrow> string \<Rightarrow> (('r, 'k, 'a, 'c) tm_world, unit) io" where
  "delete_record E pid = on_redis (repo_delete_pipeline (tm_redis_client E) pid)"

definition delete_pipeline ::
  "nat \<Rightarrow> ('r, 'v, 'k, 'a, 'c) tm_env \<Rightarrow> string \<Rightarrow> ('r, 'k, 'a, 'c) tm_world \<Rightarrow>
     (unit result \<times> ('r, 'k, 'a, 'c) tm_world) option" where
  "delete_pipeline n E pid w =
     (case on_redis (get_config (tm_redis_client E) pid) w of
        (Inl e, w1) \<Rightarrow> Some (Inl e, w1)
      | (Inr None, w1) \<Rightarrow> Some (Inl (HTTPException 404 ''Pipeline not found''), w1)
      | (Inr (Some c), w1) \<Rightarrow>
          if pipeline_type c \<noteq> LIVE then Some (delete_record E pid w1)
          else
            (case stop_pipeline E pid w1 of
               (Inl e, w2) \<Rightarrow> Some (Inl e, w2)
             | (Inr _, w2) \<Rightarrow>
                 (case drain_topic n E c w2 of
                    None \<Rightarrow> None
                  | Some (Inl e, w3) \<Rightarrow> Some (Inl e, w3)
                  | Some (Inr False, w3) \<Rightarrow>
                      Some (Inl (HTTPException 409 ''not everything in its topic is written yet''), w3)
                  | Some (Inr True, w3) \<Rightarrow>
                      Some (bind_io (on_platform (on_admin (delete_topic (admin_of (tm_services E)) c)))
                        (\<lambda>_. delete_record E pid) w3))))"

section \<open>What the handlers leave\<close>

text \<open>
  The record of one pipeline, as the repository reads it; \<open>only_state\<close> says that nothing but the
  state of one pipeline differs between two worlds, as far as the repository can tell.
\<close>

definition has_record ::
  "('r, 'v, 'k, 'a, 'c) tm_env \<Rightarrow> ('r, 'k, 'a, 'c) tm_world \<Rightarrow> pipeline_config \<Rightarrow> pipeline_state \<Rightarrow> bool" where
  "has_record E w c s \<longleftrightarrow>
     stored_config (tm_redis_client E) (tm_redis w) (pipeline_id c) = Inr (Some c) \<and>
     stored_state (tm_redis_client E) (tm_redis w) (pipeline_id c) = Inr (Some s) \<and>
     st_pipeline_id s = pipeline_id c"

definition only_state ::
  "('r, 'v, 'k, 'a, 'c) tm_env \<Rightarrow> string \<Rightarrow> ('r, 'k, 'a, 'c) tm_world \<Rightarrow> ('r, 'k, 'a, 'c) tm_world \<Rightarrow> bool" where
  "only_state E pid w w' \<longleftrightarrow>
     (\<forall>p. stored_config (tm_redis_client E) (tm_redis w') p = stored_config (tm_redis_client E) (tm_redis w) p) \<and>
     (\<forall>p. p \<noteq> pid \<longrightarrow> stored_state (tm_redis_client E) (tm_redis w') p = stored_state (tm_redis_client E) (tm_redis w) p)"

lemma only_state_refl [simp]: "only_state E pid w w"
  by (simp add: only_state_def)

lemma only_state_trans: "only_state E pid w w1 \<Longrightarrow> only_state E pid w1 w2 \<Longrightarrow> only_state E pid w w2"
  by (simp add: only_state_def)

lemma only_state_world [simp]:
  "only_state E pid (w\<lparr>tm_runtime := k\<rparr>) w' = only_state E pid w w'"
  "only_state E pid w (w'\<lparr>tm_runtime := k\<rparr>) = only_state E pid w w'"
  "only_state E pid (w\<lparr>tm_platform := a\<rparr>) w' = only_state E pid w w'"
  "only_state E pid w (w'\<lparr>tm_platform := a\<rparr>) = only_state E pid w w'"
  by (simp_all add: only_state_def)

lemma has_record_world [simp]:
  "has_record E (w\<lparr>tm_runtime := k\<rparr>) c s = has_record E w c s"
  "has_record E (w\<lparr>tm_platform := a\<rparr>) c s = has_record E w c s"
  by (simp_all add: has_record_def)

lemma on_redis_get [simp]:
  "on_redis (get_config R pid) w = (stored_config R (tm_redis w) pid, w)"
  "on_redis (get_state R pid) w = (stored_state R (tm_redis w) pid, w)"
  by (simp_all add: on_redis_def get_config_eq get_state_eq)

lemma set_state_found:
  assumes "redis_store (tm_redis_client E)" and "has_record E w c s" and "pid = pipeline_id c"
  obtains s' w' where "set_state E pid u w = (Inr s', w')"
    and "s' = (apply_update u s)\<lparr>updated_at := updated_at s'\<rparr>"
    and "has_record E w' c s'" and "only_state E pid w w'"
    and "tm_runtime w' = tm_runtime w" and "tm_platform w' = tm_platform w"
proof -
  from assms(2,3) have f: "stored_state (tm_redis_client E) (tm_redis w) pid = Inr (Some s)" "st_pipeline_id s = pid"
    by (simp_all add: has_record_def)
  obtain r s' where u: "update_state (tm_redis_client E) pid u (tm_redis w) = (Inr s', r)"
    "s' = (apply_update u s)\<lparr>updated_at := updated_at s'\<rparr>"
    "\<And>p. stored_config (tm_redis_client E) r p = stored_config (tm_redis_client E) (tm_redis w) p"
    "\<And>p. stored_state (tm_redis_client E) r p =
       (if p = pid then Inr (Some s') else stored_state (tm_redis_client E) (tm_redis w) p)"
    by (rule redis_store.update_state_found [OF assms(1) f]) blast
  have "st_pipeline_id s' = pid" by (subst u(2)) (simp add: f(2))
  with u assms(2,3) show thesis
    by (intro that [of s' "w\<lparr>tm_redis := r\<rparr>"])
      (simp_all add: set_state_def on_redis_def has_record_def only_state_def)
qed

lemma announce_eq:
  assumes "redis_store (tm_redis_client E)"
  shows "\<exists>w'. announce E ty m s w = (Inr (m, s), w') \<and> tm_runtime w' = tm_runtime w \<and>
    tm_platform w' = tm_platform w \<and> only_state E pid w w' \<and> (\<forall>c t. has_record E w' c t = has_record E w c t)"
proof -
  note [simp] = redis_store.stored_after_publish [OF assms]
  show ?thesis
    by (simp add: announce_def publish_state_event_def on_redis_def io_simps Let_def only_state_def has_record_def)
qed

lemma live_config_eq:
  "has_record E w c s \<Longrightarrow> pipeline_type c = LIVE \<Longrightarrow> live_config E (pipeline_id c) w = (Inr c, w)"
  by (simp add: live_config_def io_simps has_record_def)

text \<open>
  The tail of start, stop and restart: record the failure and raise, or record the success and
  announce it.
\<close>

lemma failure_tail:
  assumes "redis_store (tm_redis_client E)" and "has_record E w c s" and "pid = pipeline_id c"
  shows "\<exists>s' w'. bind_io (set_state E pid u) (\<lambda>_. raise_io x) w = (Inl x, w') \<and>
    s' = (apply_update u s)\<lparr>updated_at := updated_at s'\<rparr> \<and> has_record E w' c s' \<and>
    only_state E pid w w' \<and> tm_runtime w' = tm_runtime w \<and> tm_platform w' = tm_platform w"
proof -
  obtain s' w' where "set_state E pid u w = (Inr s', w')" "s' = (apply_update u s)\<lparr>updated_at := updated_at s'\<rparr>"
    "has_record E w' c s'" "only_state E pid w w'" "tm_runtime w' = tm_runtime w" "tm_platform w' = tm_platform w"
    by (rule set_state_found [OF assms])
  then show ?thesis by (intro exI [of _ s'] exI [of _ w']) (simp add: io_simps)
qed

lemma success_tail:
  assumes "redis_store (tm_redis_client E)" and "has_record E w c s" and "pid = pipeline_id c"
  shows "\<exists>s' w'. bind_io (set_state E pid u) (announce E ty m) w = (Inr (m, s'), w') \<and>
    s' = (apply_update u s)\<lparr>updated_at := updated_at s'\<rparr> \<and> has_record E w' c s' \<and>
    only_state E pid w w' \<and> tm_runtime w' = tm_runtime w \<and> tm_platform w' = tm_platform w"
proof -
  obtain s' w1 where s: "set_state E pid u w = (Inr s', w1)" "s' = (apply_update u s)\<lparr>updated_at := updated_at s'\<rparr>"
    "has_record E w1 c s'" "only_state E pid w w1" "tm_runtime w1 = tm_runtime w" "tm_platform w1 = tm_platform w"
    by (rule set_state_found [OF assms])
  obtain w' where "announce E ty m s' w1 = (Inr (m, s'), w')" "tm_runtime w' = tm_runtime w1"
    "tm_platform w' = tm_platform w1" "only_state E pid w1 w'" "\<forall>c t. has_record E w' c t = has_record E w1 c t"
    using announce_eq [OF assms(1)] by blast
  with s show ?thesis
    by (intro exI [of _ s'] exI [of _ w']) (auto simp: io_simps intro: only_state_trans)
qed

text \<open>What the shared step leaves, by what the runtime answers.\<close>

definition stepped ::
  "('r, 'v, 'k, 'a, 'c) tm_env \<Rightarrow> pipeline_config \<Rightarrow> ('r, 'k, 'a, 'c) tm_world \<Rightarrow> pipeline_state \<Rightarrow> 'k \<Rightarrow>
     ('r, 'k, 'a, 'c) tm_world \<Rightarrow> bool" where
  "stepped E c w s k w' \<longleftrightarrow> has_record E w' c s \<and> only_state E (pipeline_id c) w w' \<and> tm_runtime w' = k \<and>
     tm_platform w' = tm_platform w"

lemma runtime_step_cases:
  fixes call :: "('k, 'x) io"
  assumes R: "redis_store (tm_redis_client E)" and rec: "has_record E w c s" and pid: "pid = pipeline_id c"
    and x: "call (tm_runtime w) = (x, k)"
  shows "\<exists>s' w'. runtime_step E pid call fu failure su ty m w =
      (case x of Inr v \<Rightarrow> Inr (m, s') | Inl e \<Rightarrow> Inl (HTTPException 502 (failure @ exn_str e)), w') \<and>
    s' = (apply_update (case x of Inr v \<Rightarrow> su v | Inl e \<Rightarrow> fu e) s)\<lparr>updated_at := updated_at s'\<rparr> \<and>
    stepped E c w s' k w'"
proof -
  have rec2: "has_record E (w\<lparr>tm_runtime := k\<rparr>) c s" using rec by simp
  show ?thesis
  proof (cases x)
    case (Inl e)
    let ?h = "HTTPException 502 (failure @ exn_str e)"
    obtain s' w' where t: "bind_io (set_state E pid (fu e)) (\<lambda>_. raise_io ?h) (w\<lparr>tm_runtime := k\<rparr>) = (Inl ?h :: 'x result, w')"
      "s' = (apply_update (fu e) s)\<lparr>updated_at := updated_at s'\<rparr>"
      "has_record E w' c s'" "only_state E pid (w\<lparr>tm_runtime := k\<rparr>) w'"
      "tm_runtime w' = tm_runtime (w\<lparr>tm_runtime := k\<rparr>)" "tm_platform w' = tm_platform (w\<lparr>tm_runtime := k\<rparr>)"
      using failure_tail [OF R rec2 pid, of "fu e" ?h] by blast
    have "runtime_step E pid call fu failure su ty m w = (Inl ?h, w')"
      using x Inl t(1) by (simp add: runtime_step_def bind_io_def [of "catch_io _ _"] catch_io_def on_runtime_def)
    moreover have "stepped E c w s' k w'" using t pid by (simp add: stepped_def)
    ultimately show ?thesis using t(2) Inl by auto
  next
    case (Inr v)
    obtain s' w' where t: "bind_io (set_state E pid (su v)) (announce E ty m) (w\<lparr>tm_runtime := k\<rparr>) = (Inr (m, s'), w')"
      "s' = (apply_update (su v) s)\<lparr>updated_at := updated_at s'\<rparr>"
      "has_record E w' c s'" "only_state E pid (w\<lparr>tm_runtime := k\<rparr>) w'"
      "tm_runtime w' = tm_runtime (w\<lparr>tm_runtime := k\<rparr>)" "tm_platform w' = tm_platform (w\<lparr>tm_runtime := k\<rparr>)"
      using success_tail [OF R rec2 pid, of "su v" ty m] by blast
    have "runtime_step E pid call fu failure su ty m w = (Inr (m, s'), w')"
      using x Inr t(1) by (simp add: runtime_step_def bind_io_def [of "catch_io _ _"] catch_io_def on_runtime_def)
    moreover have "stepped E c w s' k w'" using t pid by (simp add: stepped_def)
    ultimately show ?thesis using t(2) Inr by auto
  qed
qed

text \<open>The same after a state has been saved first, as start and stop do.\<close>

lemma saved_step_cases:
  assumes R: "redis_store (tm_redis_client E)" and rec: "has_record E w c s" and pid: "pid = pipeline_id c"
  obtains s1 x k s' w' where "s1 = (apply_update u s)\<lparr>updated_at := updated_at s1\<rparr>" "call s1 (tm_runtime w) = (x, k)"
    "bind_io (set_state E pid u) (\<lambda>s1. runtime_step E pid (call s1) fu failure su ty m) w =
       (case x of Inr v \<Rightarrow> Inr (m, s') | Inl e \<Rightarrow> Inl (HTTPException 502 (failure @ exn_str e)), w')"
    "s' = (apply_update (case x of Inr v \<Rightarrow> su v | Inl e \<Rightarrow> fu e) s1)\<lparr>updated_at := updated_at s'\<rparr>"
    "stepped E c w s' k w'"
proof -
  obtain s1 w1 where s1: "set_state E pid u w = (Inr s1, w1)" "s1 = (apply_update u s)\<lparr>updated_at := updated_at s1\<rparr>"
    "has_record E w1 c s1" "only_state E pid w w1" "tm_runtime w1 = tm_runtime w" "tm_platform w1 = tm_platform w"
    by (rule set_state_found [OF R rec pid])
  obtain x k where x: "call s1 (tm_runtime w) = (x, k)" by fastforce
  with s1(5) have "call s1 (tm_runtime w1) = (x, k)" by simp
  from runtime_step_cases [where call = "call s1", OF R s1(3) pid this, of fu failure su ty m]
  obtain s' w' where "runtime_step E pid (call s1) fu failure su ty m w1 =
       (case x of Inr v \<Rightarrow> Inr (m, s') | Inl e \<Rightarrow> Inl (HTTPException 502 (failure @ exn_str e)), w')"
    "s' = (apply_update (case x of Inr v \<Rightarrow> su v | Inl e \<Rightarrow> fu e) s1)\<lparr>updated_at := updated_at s'\<rparr>"
    "stepped E c w1 s' k w'" by blast
  moreover from this(3) s1 pid have "stepped E c w s' k w'" by (auto simp: stepped_def intro: only_state_trans)
  ultimately show thesis using that [OF s1(2) x] s1(1) by (simp add: bind_io_def [of "set_state _ _ _"])
qed

lemma found_state: "has_record E w c s \<Longrightarrow> on_redis (get_state (tm_redis_client E) (pipeline_id c)) w = (Inr (Some s), w)"
  by (simp add: has_record_def)

lemma stop_pipeline_eq:
  "has_record E w c s \<Longrightarrow> pipeline_type c = LIVE \<Longrightarrow>
     stop_pipeline E (pipeline_id c) w =
       (if desired_state s = DESIRED_STOPPED then (Inr (''Already stopped'', s), w) else stop_now E (pipeline_id c) c w)"
  using live_config_eq [of E w c s] found_state [of E w c s]
  by (simp add: stop_pipeline_def bind_io_def ret_io_def)

lemma start_pipeline_eq:
  "has_record E w c s \<Longrightarrow> pipeline_type c = LIVE \<Longrightarrow>
     start_pipeline E (pipeline_id c) w =
       (if desired_state s = DESIRED_RUNNING then (Inr (''Already running'', s), w) else start_now E (pipeline_id c) c w)"
  using live_config_eq [of E w c s] found_state [of E w c s]
  by (simp add: start_pipeline_def bind_io_def ret_io_def)

text \<open>What the runtime may touch besides the pipeline it is called for.\<close>

definition runtime_frame :: "('k \<Rightarrow> string \<Rightarrow> bool) \<Rightarrow> (string \<Rightarrow> string \<Rightarrow> bool) \<Rightarrow> string \<Rightarrow> 'k \<Rightarrow> 'k \<Rightarrow> bool" where
  "runtime_frame up apart pid k k' \<longleftrightarrow> (\<forall>q. apart pid q \<longrightarrow> up k' q = up k q)"

section \<open>Properties\<close>

text \<open>
  C5: The caller of a start finds out now. For a live pipeline whose record wants it stopped,
  over any runtime that keeps the adapter's contract, a start either answers \<open>Started\<close>, and then
  the producer is up and the stored state is running, wanted running, with its producer's name
  and no error, and is the one returned; or it raises a 502, and then the stored state has
  failed and is wanted stopped. Nothing else is stored, and the producers of pipelines apart
  are as they were.
\<close>

theorem start_pipeline_outcome:
  assumes R: "redis_store (tm_redis_client E)" and A: "runtime_contract (tm_adapter E) up owned apart"
    and rec: "has_record E w c s" and live: "pipeline_type c = LIVE" and want: "desired_state s = DESIRED_STOPPED"
    and own: "\<And>t. producer_container t = producer_container s \<Longrightarrow> owned c t"
    and run: "start_pipeline E (pipeline_id c) w = (r, w')"
  shows "\<exists>s'. has_record E w' c s' \<and> only_state E (pipeline_id c) w w' \<and> tm_platform w' = tm_platform w \<and>
    runtime_frame up apart (pipeline_id c) (tm_runtime w) (tm_runtime w') \<and>
    (case r of
       Inr (message, t) \<Rightarrow> message = ''Started'' \<and> t = s' \<and> up (tm_runtime w') (pipeline_id c) \<and>
         status s' = RUNNING \<and> desired_state s' = DESIRED_RUNNING \<and> producer_container s' \<noteq> None \<and> last_error s' = Some []
     | Inl e \<Rightarrow> \<exists>reason. e = HTTPException 502 (''failed to start pipeline: '' @ reason) \<and>
         status s' = FAILED \<and> desired_state s' = DESIRED_STOPPED \<and> last_error s' = Some reason)"
proof -
  from run start_pipeline_eq [OF rec live] want have run': "start_now E (pipeline_id c) c w = (r, w')" by simp
  let ?u = "no_update\<lparr>set_desired := Some DESIRED_RUNNING, set_status := Some STARTING, set_error := Some []\<rparr>"
  let ?su = "\<lambda>names :: string \<times> string. no_update\<lparr>set_status := Some RUNNING,
      set_producer := Some (Some (fst names)), set_error := Some []\<rparr>"
  let ?fu = "\<lambda>e. no_update\<lparr>set_desired := Some DESIRED_STOPPED, set_status := Some FAILED, set_error := Some (exn_str e)\<rparr>"
  obtain s1 x k s' w1 where c: "s1 = (apply_update ?u s)\<lparr>updated_at := updated_at s1\<rparr>"
    "rt_start (tm_adapter E) c s1 (tm_runtime w) = (x, k)"
    "start_now E (pipeline_id c) c w =
       (case x of Inr v \<Rightarrow> Inr (''Started'', s')
        | Inl e \<Rightarrow> Inl (HTTPException 502 (''failed to start pipeline: '' @ exn_str e)), w1)"
    "s' = (apply_update (case x of Inr v \<Rightarrow> ?su v | Inl e \<Rightarrow> ?fu e) s1)\<lparr>updated_at := updated_at s'\<rparr>"
    "stepped E c w s' k w1"
    unfolding start_now_def
    by (rule saved_step_cases [where call = "rt_start (tm_adapter E) c" and u = ?u and fu = ?fu and su = ?su, OF R rec refl])
  have s1: "producer_container s1 = producer_container s" "desired_state s1 = DESIRED_RUNNING"
    by (subst c(1), simp add: no_update_def)+
  have o: "owned c s1" using own s1(1) .
  have w: "w' = w1" using run' c(3) by simp
  have frame: "runtime_frame up apart (pipeline_id c) (tm_runtime w) (tm_runtime w')"
    using runtime_contract.start_frame [OF A o _ c(2)] c(5) w by (simp add: runtime_frame_def stepped_def)
  have res: "case r of
       Inr (message, t) \<Rightarrow> message = ''Started'' \<and> t = s' \<and> up (tm_runtime w') (pipeline_id c) \<and>
         status s' = RUNNING \<and> desired_state s' = DESIRED_RUNNING \<and> producer_container s' \<noteq> None \<and> last_error s' = Some []
     | Inl e \<Rightarrow> \<exists>reason. e = HTTPException 502 (''failed to start pipeline: '' @ reason) \<and>
         status s' = FAILED \<and> desired_state s' = DESIRED_STOPPED \<and> last_error s' = Some reason"
  proof (cases x)
    case (Inl e)
    then have "status s' = FAILED \<and> desired_state s' = DESIRED_STOPPED \<and> last_error s' = Some (exn_str e)"
      by (subst (1 2 3) c(4)) (simp add: no_update_def)
    with Inl run' c(3) show ?thesis by auto
  next
    case (Inr names)
    then have "status s' = RUNNING \<and> desired_state s' = DESIRED_RUNNING \<and> producer_container s' \<noteq> None \<and> last_error s' = Some []"
      by (subst (1 2 3 4) c(4)) (simp add: no_update_def s1)
    moreover have "up (tm_runtime w') (pipeline_id c)"
      using runtime_contract.start_up [OF A o] c(2,5) Inr w by (cases names) (auto simp: stepped_def)
    ultimately show ?thesis using Inr run' c(3) by auto
  qed
  show ?thesis using frame res c(5) w by (intro exI [of _ s']) (simp add: stepped_def)
qed

lemma stop_now_effect:
  assumes R: "redis_store (tm_redis_client E)" and rec: "has_record E w c s"
    and run: "stop_now E (pipeline_id c) c w = (r, w')"
  obtains s1 x k s' where "producer_container s1 = producer_container s"
    "rt_stop (tm_adapter E) c s1 (tm_runtime w) = (x, k)" "stepped E c w s' k w'" "desired_state s' = DESIRED_STOPPED"
    "case x of
       Inr _ \<Rightarrow> r = Inr (''Stopped'', s') \<and> status s' = STOPPED \<and> producer_container s' = None \<and> last_error s' = Some []
     | Inl e \<Rightarrow> r = Inl (HTTPException 502 (''failed to stop pipeline: '' @ exn_str e)) \<and> status s' = FAILED \<and>
         last_error s' = Some (exn_str e) \<and> producer_container s' = producer_container s"
proof -
  let ?u = "no_update\<lparr>set_desired := Some DESIRED_STOPPED, set_status := Some STOPPING\<rparr>"
  let ?su = "\<lambda>x :: unit. no_update\<lparr>set_status := Some STOPPED, set_producer := Some None, set_error := Some []\<rparr>"
  let ?fu = "\<lambda>e. no_update\<lparr>set_status := Some FAILED, set_error := Some (exn_str e)\<rparr>"
  obtain s1 x k s' w1 where c: "s1 = (apply_update ?u s)\<lparr>updated_at := updated_at s1\<rparr>"
    "rt_stop (tm_adapter E) c s1 (tm_runtime w) = (x, k)"
    "stop_now E (pipeline_id c) c w =
       (case x of Inr v \<Rightarrow> Inr (''Stopped'', s')
        | Inl e \<Rightarrow> Inl (HTTPException 502 (''failed to stop pipeline: '' @ exn_str e)), w1)"
    "s' = (apply_update (case x of Inr v \<Rightarrow> ?su v | Inl e \<Rightarrow> ?fu e) s1)\<lparr>updated_at := updated_at s'\<rparr>"
    "stepped E c w s' k w1"
    unfolding stop_now_def
    by (rule saved_step_cases [where call = "rt_stop (tm_adapter E) c" and u = ?u and fu = ?fu and su = ?su, OF R rec refl])
  have s1: "producer_container s1 = producer_container s" "desired_state s1 = DESIRED_STOPPED"
    by (subst c(1), simp add: no_update_def)+
  have w: "w' = w1" using run c(3) by simp
  have d: "desired_state s' = DESIRED_STOPPED"
    by (subst c(4)) (cases x; simp add: no_update_def s1)
  have res: "case x of
       Inr _ \<Rightarrow> r = Inr (''Stopped'', s') \<and> status s' = STOPPED \<and> producer_container s' = None \<and> last_error s' = Some []
     | Inl e \<Rightarrow> r = Inl (HTTPException 502 (''failed to stop pipeline: '' @ exn_str e)) \<and> status s' = FAILED \<and>
         last_error s' = Some (exn_str e) \<and> producer_container s' = producer_container s"
  proof (cases x)
    case (Inl e)
    then have "status s' = FAILED \<and> last_error s' = Some (exn_str e) \<and> producer_container s' = producer_container s"
      by (subst (1 2 3) c(4)) (simp add: no_update_def s1)
    with Inl run c(3) show ?thesis by auto
  next
    case (Inr u)
    then have "status s' = STOPPED \<and> producer_container s' = None \<and> last_error s' = Some []"
      by (subst (1 2 3) c(4)) (simp add: no_update_def s1)
    with Inr run c(3) show ?thesis by auto
  qed
  show thesis using that [OF s1(1) c(2) _ d res] c(5) w by simp
qed

text \<open>
  C6: The caller of a stop finds out now. For a live pipeline whose record wants it running,
  over any runtime that keeps the adapter's contract, a stop either answers \<open>Stopped\<close>, and then
  the producer is down and the stored state is stopped, wanted stopped, without a producer; or
  it raises a 502, and then the stored state has failed and still names its producer. Nothing
  else is stored, and the producers of pipelines apart are as they were.
\<close>

theorem stop_pipeline_outcome:
  assumes R: "redis_store (tm_redis_client E)" and A: "runtime_contract (tm_adapter E) up owned apart"
    and rec: "has_record E w c s" and live: "pipeline_type c = LIVE" and want: "desired_state s = DESIRED_RUNNING"
    and own: "\<And>t. producer_container t = producer_container s \<Longrightarrow> owned c t"
    and run: "stop_pipeline E (pipeline_id c) w = (r, w')"
  shows "\<exists>s'. has_record E w' c s' \<and> only_state E (pipeline_id c) w w' \<and> tm_platform w' = tm_platform w \<and>
    desired_state s' = DESIRED_STOPPED \<and>
    runtime_frame up apart (pipeline_id c) (tm_runtime w) (tm_runtime w') \<and>
    (case r of
       Inr (message, t) \<Rightarrow> message = ''Stopped'' \<and> t = s' \<and> \<not> up (tm_runtime w') (pipeline_id c) \<and>
         status s' = STOPPED \<and> producer_container s' = None \<and> last_error s' = Some []
     | Inl e \<Rightarrow> \<exists>reason. e = HTTPException 502 (''failed to stop pipeline: '' @ reason) \<and>
         status s' = FAILED \<and> last_error s' = Some reason \<and> producer_container s' = producer_container s)"
proof -
  from run stop_pipeline_eq [OF rec live] want have run': "stop_now E (pipeline_id c) c w = (r, w')" by simp
  obtain s1 x k s' where c: "producer_container s1 = producer_container s"
    "rt_stop (tm_adapter E) c s1 (tm_runtime w) = (x, k)" "stepped E c w s' k w'" "desired_state s' = DESIRED_STOPPED"
    "case x of
       Inr _ \<Rightarrow> r = Inr (''Stopped'', s') \<and> status s' = STOPPED \<and> producer_container s' = None \<and> last_error s' = Some []
     | Inl e \<Rightarrow> r = Inl (HTTPException 502 (''failed to stop pipeline: '' @ exn_str e)) \<and> status s' = FAILED \<and>
         last_error s' = Some (exn_str e) \<and> producer_container s' = producer_container s"
    by (rule stop_now_effect [OF R rec run'])
  have o: "owned c s1" using own c(1) .
  have "runtime_frame up apart (pipeline_id c) (tm_runtime w) (tm_runtime w')"
    using runtime_contract.stop_frame [OF A o _ c(2)] c(3) by (simp add: runtime_frame_def stepped_def)
  moreover have "\<not> up (tm_runtime w') (pipeline_id c)" if "x = Inr u" for u
    using runtime_contract.stop_down [OF A o] c(2,3) that by (auto simp: stepped_def)
  ultimately show ?thesis using c(3-5) by (intro exI [of _ s']) (cases x; auto simp: stepped_def)
qed

text \<open>
  C19: A stop that failed is never tried again. After a stop has raised, the record wants the
  pipeline stopped; so the next stop answers \<open>Already stopped\<close> and changes nothing, and a delete,
  however it ends, makes no call to the runtime either: when it deletes the topic and the record,
  the producer that could not be stopped is left as it was.
\<close>

theorem failed_stop_is_never_retried:
  assumes R: "redis_store (tm_redis_client E)" and rec: "has_record E w c s" and live: "pipeline_type c = LIVE"
    and want: "desired_state s = DESIRED_RUNNING" and run: "stop_pipeline E (pipeline_id c) w = (Inl e, w')"
  shows "\<exists>s'. has_record E w' c s' \<and> status s' = FAILED \<and> desired_state s' = DESIRED_STOPPED \<and>
    stop_pipeline E (pipeline_id c) w' = (Inr (''Already stopped'', s'), w') \<and>
    (\<forall>n r w2. delete_pipeline n E (pipeline_id c) w' = Some (r, w2) \<longrightarrow> tm_runtime w2 = tm_runtime w')"
proof -
  from run stop_pipeline_eq [OF rec live] want have run': "stop_now E (pipeline_id c) c w = (Inl e, w')" by simp
  obtain s' k where c: "stepped E c w s' k w'" "desired_state s' = DESIRED_STOPPED" "status s' = FAILED"
    by (rule stop_now_effect [OF R rec run']) (auto split: sum.split_asm)
  then have s': "has_record E w' c s'" "status s' = FAILED" by (simp_all add: stepped_def)
  have stopped: "stop_pipeline E (pipeline_id c) w' = (Inr (''Already stopped'', s'), w')"
    using stop_pipeline_eq [OF s'(1) live] c(2) by simp
  have "tm_runtime w2 = tm_runtime w'" if "delete_pipeline n E (pipeline_id c) w' = Some (r, w2)" for n r w2
  proof -
    have "on_redis (get_config (tm_redis_client E) (pipeline_id c)) w' = (Inr (Some c), w')"
      using s'(1) by (simp add: has_record_def)
    with that stopped live show ?thesis
      by (auto simp: delete_pipeline_def drain_topic_def delete_record_def bind_io_def on_platform_def on_redis_def
          split: option.splits sum.splits bool.splits prod.splits)
  qed
  with s' c(2) stopped show ?thesis by blast
qed

section \<open>Creating\<close>

text \<open>What a request can store: its numbers aside, the validators pass and its floats are finite.\<close>

definition request_ok :: "pipeline_create_request \<Rightarrow> bool" where
  "request_ok q \<longleftrightarrow> storable (request_config q 1 [])"

lemma request_ok_storable: "request_ok q \<Longrightarrow> storable (request_config q n now)"
  by (auto simp: request_ok_def storable_def make_pipeline_config_def request_config_def split: sum.splits)

lemma request_config_simps [simp]:
  "pipeline_id (request_config q n now) = req_pipeline_id q"
  "pipeline_type (request_config q n now) = req_pipeline_type q"
  "collection_number (request_config q n now) = n"
  by (simp_all add: request_config_def)

text \<open>Everything but one pipeline's record is as it was.\<close>

definition others_kept ::
  "('r, 'v, 'k, 'a, 'c) tm_env \<Rightarrow> string \<Rightarrow> ('r, 'k, 'a, 'c) tm_world \<Rightarrow> ('r, 'k, 'a, 'c) tm_world \<Rightarrow> bool" where
  "others_kept E pid w w' \<longleftrightarrow>
     (\<forall>p. p \<noteq> pid \<longrightarrow>
        stored_config (tm_redis_client E) (tm_redis w') p = stored_config (tm_redis_client E) (tm_redis w) p \<and>
        stored_state (tm_redis_client E) (tm_redis w') p = stored_state (tm_redis_client E) (tm_redis w) p)"

lemma collection_number_for_frame:
  assumes "redis_store (tm_redis_client E)" and "counters_ok (tm_redis_client E) (tm_redis w)"
    and "collection_number_for E q w = (r, w1)"
  shows "stored_config (tm_redis_client E) (tm_redis w1) p = stored_config (tm_redis_client E) (tm_redis w) p \<and>
    stored_state (tm_redis_client E) (tm_redis w1) p = stored_state (tm_redis_client E) (tm_redis w) p \<and>
    tm_runtime w1 = tm_runtime w \<and> tm_platform w1 = tm_platform w"
  using assms(3) redis_store.next_collection_number_frame [OF assms(1,2)]
  by (auto simp: collection_number_for_def Let_def on_redis_def ret_io_def split: option.splits if_splits prod.splits)

text \<open>The part after the number: a record and everything it needs, or no record.\<close>

lemma register_and_provision_cases:
  assumes R: "redis_store (tm_redis_client E)" and ok: "request_ok q"
    and free: "stored_config (tm_redis_client E) (tm_redis w) (req_pipeline_id q) = Inr None"
    and live: "req_pipeline_type q = LIVE"
    and run: "register_and_provision E q n w = (r, w')"
  obtains (created) c s table where
    "r = Inr \<lparr>created_config = c, created_state = s, created_table = table\<rparr>"
    "pipeline_id c = req_pipeline_id q" "has_record E w' c s" "status s = CREATED \<and> desired_state s = DESIRED_STOPPED"
    "config_ch_unique_identifier c = Inr table" "tm_runtime w' = tm_runtime w"
    "provision (tm_services E) (tm_settings E) c (tm_platform w) = (Inr (), tm_platform w')"
    "others_kept E (req_pipeline_id q) w w'"
  | (rolled_back) c e where
    "r = Inl (HTTPException 502 (''provisioning failed: '' @ exn_str e))"
    "provision (tm_services E) (tm_settings E) c (tm_platform w) = (Inl e, tm_platform w')"
    "stored_config (tm_redis_client E) (tm_redis w') (req_pipeline_id q) = Inr None"
    "stored_state (tm_redis_client E) (tm_redis w') (req_pipeline_id q) = Inr None"
    "tm_runtime w' = tm_runtime w" "others_kept E (req_pipeline_id q) w w'"
proof -
  let ?R = "tm_redis_client E"
  define c where "c = request_config q n (utc_now_iso ?R (tm_redis w))"
  have st: "storable c" using request_ok_storable [OF ok] by (simp add: c_def)
  have mk: "make_pipeline_config c = Inr c" using st by (simp add: storable_def)
  have pid: "pipeline_id c = req_pipeline_id q" and ty: "pipeline_type c = LIVE" using live by (simp_all add: c_def)
  obtain s r1 where new: "repo_create_pipeline ?R c (tm_redis w) = (Inr s, r1)" "s = initial_state (updated_at s) c"
    "\<And>p. stored_config ?R r1 p = (if p = pipeline_id c then Inr (Some c) else stored_config ?R (tm_redis w) p)"
    "\<And>p. stored_state ?R r1 p = (if p = pipeline_id c then Inr (Some s) else stored_state ?R (tm_redis w) p)"
    using redis_store.repo_create_pipeline_new [OF R st, of "tm_redis w"] free unfolding pid by blast
  obtain x p1 where p: "provision (tm_services E) (tm_settings E) c (tm_platform w) = (x, p1)" by fastforce
  show thesis
  proof (cases x)
    case (Inr u)
    then obtain table where t: "config_ch_unique_identifier c = Inr table" using provision_identifier p by blast
    have "r = Inr \<lparr>created_config = c, created_state = s, created_table = table\<rparr>" "w' = w\<lparr>tm_redis := r1, tm_platform := p1\<rparr>"
      using run new(1) mk p Inr t ty
      by (auto simp: register_and_provision_def c_def [symmetric] bind_io_def catch_io_def provision_or_rollback_def
          tm_lifts ret_io_def)
    moreover have "st_pipeline_id s = pipeline_id c" "status s = CREATED \<and> desired_state s = DESIRED_STOPPED"
      by (subst new(2), simp add: initial_state_def)+
    ultimately show thesis using created [of c s table] new(3,4) t p Inr pid by (simp add: has_record_def others_kept_def)
  next
    case (Inl e)
    obtain r2 where d: "repo_delete_pipeline ?R (pipeline_id c) r1 = (Inr (), r2)"
      "\<And>q. stored_config ?R r2 q = (if q = pipeline_id c then Inr None else stored_config ?R r1 q)"
      "\<And>q. stored_state ?R r2 q = (if q = pipeline_id c then Inr None else stored_state ?R r1 q)"
      using redis_store.repo_delete_pipeline_gone [OF R, of "pipeline_id c" r1] by blast
    have "r = Inl (HTTPException 502 (''provisioning failed: '' @ exn_str e))"
      "w' = w\<lparr>tm_platform := p1, tm_redis := r2\<rparr>"
      using run new(1) mk p Inl ty d(1)
      by (auto simp: register_and_provision_def c_def [symmetric] bind_io_def catch_io_def provision_or_rollback_def
          tm_lifts raise_io_def)
    then show thesis using rolled_back [of e c] p Inl d new(3,4) pid by (simp add: others_kept_def)
  qed
qed


section \<open>Deleting\<close>

lemma stop_pipeline_redis:
  assumes R: "redis_store (tm_redis_client E)" and rec: "has_record E w c s" and live: "pipeline_type c = LIVE"
    and run: "stop_pipeline E (pipeline_id c) w = (r, w1)"
  shows "only_state E (pipeline_id c) w w1"
proof (cases "desired_state s = DESIRED_STOPPED")
  case True
  with run stop_pipeline_eq [OF rec live] show ?thesis by auto
next
  case False
  with run stop_pipeline_eq [OF rec live] have s: "stop_now E (pipeline_id c) c w = (r, w1)" by simp
  obtain s' k where "stepped E c w s' k w1" by (rule stop_now_effect [OF R rec s])
  then show ?thesis by (simp add: stepped_def)
qed

lemma drain_topic_frame:
  "drain_topic n E c w = Some (x, w') \<Longrightarrow> tm_redis w' = tm_redis w \<and> tm_runtime w' = tm_runtime w"
  by (auto simp: drain_topic_def)

lemma drain_topic_ends:
  assumes "drain_clock (admin_of (tm_services E))" and "31 \<le> n"
  shows "\<exists>x w'. drain_topic n E c w = Some (x, w')"
proof -
  obtain m where m: "n = Suc m" "30 \<le> m" using assms(2) by (cases n) auto
  have t: "DRAIN_TIMEOUT_S \<le> of_nat m" using m(2) by (simp add: DRAIN_TIMEOUT_S_def)
  obtain r w1 where s: "bind_io (kd_start (admin_of (tm_services E))) (\<lambda>_. ka_start (admin_of (tm_services E)))
      (pw_kafka (tm_platform w)) = (r, w1)" by fastforce
  obtain y where "drain_body n (admin_of (tm_services E)) (consumer_group_id (tm_settings E)) c DRAIN_TIMEOUT_S w1 = Some y"
    using drain_clock.drain_body_ends [OF assms(1) t] m(1) by blast
  with s show ?thesis by (cases r) (auto simp: drain_topic_def wait_for_drain_def split: prod.splits)
qed

text \<open>How a delete of a live pipeline with a record runs.\<close>

lemma delete_pipeline_cases:
  assumes rec: "has_record E w c s" and live: "pipeline_type c = LIVE"
    and run: "delete_pipeline n E (pipeline_id c) w = Some (r, w')"
  obtains (stopping) e where "stop_pipeline E (pipeline_id c) w = (Inl e, w')" "r = Inl e"
  | (draining) a w1 x where "stop_pipeline E (pipeline_id c) w = (Inr a, w1)" "drain_topic n E c w1 = Some (x, w')"
      "x \<noteq> Inr True" "\<exists>e. r = Inl e"
  | (deleting) a w1 w2 x p where "stop_pipeline E (pipeline_id c) w = (Inr a, w1)"
      "drain_topic n E c w1 = Some (Inr True, w2)" "delete_topic (admin_of (tm_services E)) c (pw_kafka (tm_platform w2)) = (x, p)"
      "case x of
         Inl e \<Rightarrow> r = Inl e \<and> w' = w2\<lparr>tm_platform := (tm_platform w2)\<lparr>pw_kafka := p\<rparr>\<rparr>
       | Inr _ \<Rightarrow> (r, w') = delete_record E (pipeline_id c) (w2\<lparr>tm_platform := (tm_platform w2)\<lparr>pw_kafka := p\<rparr>\<rparr>)"
proof -
  have g: "on_redis (get_config (tm_redis_client E) (pipeline_id c)) w = (Inr (Some c), w)"
    using rec by (simp add: has_record_def)
  obtain a w1 where s: "stop_pipeline E (pipeline_id c) w = (a, w1)" by fastforce
  show thesis
  proof (cases a)
    case (Inl e)
    with run g live s stopping show thesis by (simp add: delete_pipeline_def)
  next
    case (Inr v)
    with run g live s obtain x w2 where d: "drain_topic n E c w1 = Some (x, w2)"
      by (auto simp: delete_pipeline_def split: option.splits)
    show thesis
    proof (cases "x = Inr True")
      case False
      with run g live s Inr d show thesis
        by (intro draining [of v w1 x]) (auto simp: delete_pipeline_def split: sum.splits bool.splits)
    next
      case True
      obtain y p where y: "delete_topic (admin_of (tm_services E)) c (pw_kafka (tm_platform w2)) = (y, p)" by fastforce
      with run g live s Inr d True show thesis
        by (intro deleting [of v w1 w2 y p])
          (auto simp: delete_pipeline_def bind_io_def on_platform_def on_admin_def split: sum.splits)
    qed
  qed
qed

text \<open>
  C3: A delete ends, and forgets a pipeline only after its events are safe. With a clock that
  does not go back, thirty-one readings of the offsets are enough. When a live pipeline's delete
  answers, the stop before it had answered, the wait after it had found the topic drained,
  Kafka had then deleted the topic, and the record is gone; when it raises, the configuration is
  still stored, so that the delete can be repeated. No other pipeline's record changes.
\<close>

theorem delete_pipeline_outcome:
  assumes R: "redis_store (tm_redis_client E)" and clock: "drain_clock (admin_of (tm_services E))"
    and rec: "has_record E w c s" and live: "pipeline_type c = LIVE" and n: "31 \<le> n"
  shows "\<exists>r w'. delete_pipeline n E (pipeline_id c) w = Some (r, w') \<and> others_kept E (pipeline_id c) w w' \<and>
    (case r of
       Inl e \<Rightarrow> stored_config (tm_redis_client E) (tm_redis w') (pipeline_id c) = Inr (Some c)
     | Inr _ \<Rightarrow>
         stored_config (tm_redis_client E) (tm_redis w') (pipeline_id c) = Inr None \<and>
         stored_state (tm_redis_client E) (tm_redis w') (pipeline_id c) = Inr None \<and>
         (\<exists>a w1 w2. stop_pipeline E (pipeline_id c) w = (Inr a, w1) \<and> drain_topic n E c w1 = Some (Inr True, w2) \<and>
            delete_topic (admin_of (tm_services E)) c (pw_kafka (tm_platform w2)) =
              (Inr (), pw_kafka (tm_platform w')) \<and> tm_runtime w' = tm_runtime w1))"
proof -
  let ?pid = "pipeline_id c" and ?R = "tm_redis_client E"
  have ends: "drain_topic n E c w1 \<noteq> None" for w1 using drain_topic_ends [OF clock n] by (metis option.distinct(1))
  have "delete_pipeline n E ?pid w \<noteq> None"
    using rec live
    by (auto simp: ends delete_pipeline_def has_record_def split: prod.splits sum.splits option.splits bool.splits)
  then obtain r w' where run: "delete_pipeline n E ?pid w = Some (r, w')" by auto
  note stopped = stop_pipeline_redis [OF R rec live]
  have kept: "others_kept E ?pid w w1 \<and> stored_config ?R (tm_redis w1) ?pid = Inr (Some c)"
    if "only_state E ?pid w w1" for w1
    using that rec by (simp add: only_state_def others_kept_def has_record_def)
  from rec live run show ?thesis
  proof (cases rule: delete_pipeline_cases)
    case (stopping e)
    then show ?thesis using run kept [OF stopped [OF stopping(1)]] by (intro exI [of _ r] exI [of _ w']) simp
  next
    case (draining a w1 x)
    then show ?thesis using run kept [OF stopped [OF draining(1)]] drain_topic_frame [OF draining(2)]
      by (intro exI [of _ r] exI [of _ w']) (auto simp: others_kept_def)
  next
    case (deleting a w1 w2 x p)
    note k = kept [OF stopped [OF deleting(1)]] drain_topic_frame [OF deleting(2)]
    show ?thesis
    proof (cases x)
      case (Inl e)
      with deleting k run show ?thesis by (intro exI [of _ r] exI [of _ w']) (auto simp: others_kept_def)
    next
      case (Inr u)
      obtain r2 where d: "repo_delete_pipeline ?R ?pid (tm_redis w2) = (Inr (), r2)"
        "\<And>q. stored_config ?R r2 q = (if q = ?pid then Inr None else stored_config ?R (tm_redis w2) q)"
        "\<And>q. stored_state ?R r2 q = (if q = ?pid then Inr None else stored_state ?R (tm_redis w2) q)"
        using redis_store.repo_delete_pipeline_gone [OF R, of ?pid "tm_redis w2"] by blast
      with deleting(4) Inr have w': "r = Inr ()" "w' = w2\<lparr>tm_platform := (tm_platform w2)\<lparr>pw_kafka := p\<rparr>, tm_redis := r2\<rparr>"
        by (simp_all add: delete_record_def on_redis_def)
      with d k deleting(1,2,3) Inr run show ?thesis
        by (intro exI [of _ r] exI [of _ w']) (auto simp: others_kept_def)
    qed
  qed
qed

section \<open>Witnesses\<close>

text \<open>A process over the stores in memory, and the sample pipeline in a given state.\<close>

definition sample_env ::
  "bool \<Rightarrow> (fake_redis, doc, memory_cluster, memory_kafka, string list) tm_env" where
  "sample_env inside =
     \<lparr>tm_redis_client = fake_client, tm_adapter = mem_adapter inside, tm_services = memory_services,
      tm_settings = default_settings\<rparr>"

definition record_world :: "pipeline_state \<Rightarrow> (fake_redis, memory_cluster, memory_kafka, string list) tm_world" where
  "record_world s =
     \<lparr>tm_redis = \<lparr>fake_data = [(pipeline_config_key ''p1'', DocConfig sample_config),
                            (pipeline_state_key ''p1'', DocState s)],
                 fake_published = []\<rparr>,
      tm_runtime = [], tm_platform = empty_platform\<rparr>"

definition sample_world ::
  "desired_state \<Rightarrow> (fake_redis, memory_cluster, memory_kafka, string list) tm_world" where
  "sample_world d = record_world ((idle_state ''p1'')\<lparr>desired_state := d\<rparr>)"

lemma sample_id [simp]: "pipeline_id sample_config = ''p1''" "pipeline_type sample_config = LIVE"
  by (simp_all add: sample_config_def)

lemma sample_env_simps [simp]:
  "tm_redis_client (sample_env inside) = fake_client" "tm_adapter (sample_env inside) = mem_adapter inside"
  "admin_of (tm_services (sample_env inside)) = memory_admin"
  by (simp_all add: sample_env_def memory_services_def)

lemma record_world_record:
  "st_pipeline_id s = ''p1'' \<Longrightarrow> has_record (sample_env inside) (record_world s) sample_config s"
proof -
  have "make_pipeline_config sample_config = Inr sample_config" using sample_storable by (simp add: storable_def)
  then show "st_pipeline_id s = ''p1'' \<Longrightarrow> ?thesis"
    by (simp add: has_record_def stored_config_def stored_state_def record_world_def fake_client_def fake_get_def key_simps)
qed

lemma sample_record: "has_record (sample_env inside) (sample_world d) sample_config ((idle_state ''p1'')\<lparr>desired_state := d\<rparr>)"
  unfolding sample_world_def by (rule record_world_record) (simp add: idle_state_def)

lemma sample_contract:
  "runtime_contract (tm_adapter (sample_env inside)) (deployment_up memory_replicas default_settings)
     (\<lambda>c s. c = sample_config) (\<noteq>)"
  using mem_kube.kubernetes_contract by simp

lemma sample_redis: "redis_store (tm_redis_client (sample_env inside))"
  using fake.redis_store_axioms by simp

lemma start_pipeline_outcome_witness:
  "\<exists>r w' s'. start_pipeline (sample_env True) ''p1'' (sample_world DESIRED_STOPPED) = (r, w') \<and>
     has_record (sample_env True) w' sample_config s' \<and>
     (case r of
        Inr (message, t) \<Rightarrow> message = ''Started'' \<and> deployment_up memory_replicas default_settings (tm_runtime w') ''p1''
      | Inl e \<Rightarrow> status s' = FAILED)"
proof -
  obtain r w' where run: "start_pipeline (sample_env True) (pipeline_id sample_config) (sample_world DESIRED_STOPPED) = (r, w')"
    by fastforce
  from start_pipeline_outcome [OF sample_redis sample_contract sample_record _ _ _ run] show ?thesis
    using run by (auto split: sum.splits)
qed

lemma stop_pipeline_outcome_witness:
  "\<exists>r w' s'. stop_pipeline (sample_env True) ''p1'' (sample_world DESIRED_RUNNING) = (r, w') \<and>
     has_record (sample_env True) w' sample_config s' \<and> desired_state s' = DESIRED_STOPPED \<and>
     (case r of
        Inr (message, t) \<Rightarrow> message = ''Stopped'' \<and> \<not> deployment_up memory_replicas default_settings (tm_runtime w') ''p1''
      | Inl e \<Rightarrow> status s' = FAILED)"
proof -
  obtain r w' where run: "stop_pipeline (sample_env True) (pipeline_id sample_config) (sample_world DESIRED_RUNNING) = (r, w')"
    by fastforce
  from stop_pipeline_outcome [OF sample_redis sample_contract sample_record _ _ _ run] show ?thesis
    using run by (auto split: sum.splits)
qed

text \<open>Outside a cluster the stop of the sample pipeline fails.\<close>

lemma sample_stop_fails:
  "\<exists>e w'. stop_pipeline (sample_env False) (pipeline_id sample_config) (sample_world DESIRED_RUNNING) = (Inl e, w')"
proof -
  obtain r w' where run: "stop_pipeline (sample_env False) (pipeline_id sample_config) (sample_world DESIRED_RUNNING) = (r, w')"
    by fastforce
  then have now: "stop_now (sample_env False) (pipeline_id sample_config) sample_config (sample_world DESIRED_RUNNING) = (r, w')"
    using stop_pipeline_eq [OF sample_record sample_id(2), of False DESIRED_RUNNING] by simp
  have fails: "rt_stop (mem_adapter False) c s k \<noteq> (Inr u, k')" for c s k u k'
    by (auto simp: kubernetes_adapter_def fresh_adapter_def kube_stop_def scale_deployment_def with_server_def
        kube_load_def io_simps on_api_def memory_kube_def is_config_exception_def default_settings_def)
  have "\<exists>e. r = Inl e"
    by (rule stop_now_effect [OF sample_redis sample_record now]) (auto simp: fails split: sum.split_asm)
  with run show ?thesis by blast
qed

lemma failed_stop_is_never_retried_witness:
  "\<exists>e w' s'. stop_pipeline (sample_env False) ''p1'' (sample_world DESIRED_RUNNING) = (Inl e, w') \<and>
     stop_pipeline (sample_env False) ''p1'' w' = (Inr (''Already stopped'', s'), w') \<and> status s' = FAILED"
proof -
  obtain e w' where run: "stop_pipeline (sample_env False) (pipeline_id sample_config) (sample_world DESIRED_RUNNING) = (Inl e, w')"
    using sample_stop_fails by blast
  from failed_stop_is_never_retried [OF sample_redis sample_record sample_id(2) _ run] show ?thesis
    using run by auto
qed

definition sample_request :: pipeline_create_request where
  "sample_request =
     \<lparr>req_pipeline_id = ''p1'', req_pipeline_type = LIVE, req_airflow_dag_id = None, req_user_id = Some ''7'',
      req_collection_number = None, req_table_name = Some ''t'', req_table_schema = table_schema sample_config,
      req_source_type = OPCUA, req_topic = None, req_batch_size = 500, req_flush_interval_seconds = 60,
      req_source_options = source_options sample_config\<rparr>"

lemma sample_request_ok: "request_ok sample_request" "req_pipeline_type sample_request = LIVE"
  by code_simp+

definition vacant_world :: "(fake_redis, memory_cluster, memory_kafka, string list) tm_world" where
  "vacant_world = \<lparr>tm_redis = empty_redis, tm_runtime = [], tm_platform = empty_platform\<rparr>"


lemma delete_pipeline_outcome_witness:
  "\<exists>r w'. delete_pipeline 31 (sample_env True) ''p1'' (sample_world DESIRED_RUNNING) = Some (r, w') \<and>
     others_kept (sample_env True) ''p1'' (sample_world DESIRED_RUNNING) w'"
proof -
  have clock: "drain_clock (admin_of (tm_services (sample_env True)))" using mem_clock.drain_clock_axioms by simp
  from delete_pipeline_outcome [OF sample_redis clock sample_record [of True DESIRED_RUNNING] sample_id(2) order.refl]
  show ?thesis by auto
qed

end
