(* ===== verification/Controller.thy ===== *)
theory Controller
  imports Task_Manager
begin

text \<open>
  \<^verbatim>\<open>controller/app/main.py\<close>: the desired-state controller. The pub/sub handler and the reconcile
  loop decide for which pipelines an action is queued; the action, under the lock of its
  pipeline, starts or stops it through the runtime adapter. The lemmas show what an action
  leaves, that it settles its pipeline, and that one pass of the loop settles all of them.
\<close>

section \<open>Decisions\<close>

definition controller_runtime :: "settings \<Rightarrow> 'k runtime_adapter \<Rightarrow> 'k runtime_adapter" where
  "controller_runtime S docker = (if runtime_mode S = ''docker'' then docker else redis_only_adapter)"

definition IDLE :: "pipeline_status list" where
  "IDLE = [CREATED, STOPPED, FAILED]"

definition ALREADY_STOPPED :: "pipeline_status list" where
  "ALREADY_STOPPED = [STOPPED, STOPPING, CREATED, FAILED]"

definition needs_action :: "pipeline_state \<Rightarrow> bool" where
  "needs_action s \<longleftrightarrow>
     desired_state s = DESIRED_RUNNING \<and> status s \<in> set IDLE \<or>
     desired_state s = DESIRED_STOPPED \<and> status s \<notin> set ALREADY_STOPPED"

text \<open>
  One pass of the reconcile loop: the pipelines an action is queued for. \<open>busy\<close> says whose lock
  is held. An exception ends the pass and is logged; what was queued before it stays queued.
\<close>

fun reconcile_scan ::
  "('r, 'v, 'k, 'a, 'c) tm_env \<Rightarrow> (string \<Rightarrow> bool) \<Rightarrow> ('r, 'k, 'a, 'c) tm_world \<Rightarrow> string list \<Rightarrow> string list" where
  "reconcile_scan E busy w [] = []"
| "reconcile_scan E busy w (pid # pids) =
     (case fst (get_state (tm_redis_client E) pid (tm_redis w)) of
        Inl _ \<Rightarrow> []
      | Inr s \<Rightarrow>
          (case fst (get_config (tm_redis_client E) pid (tm_redis w)) of
             Inl _ \<Rightarrow> []
           | Inr c \<Rightarrow>
               (case (s, c) of
                  (Some s', Some c') \<Rightarrow>
                    if pipeline_type_value (pipeline_type c') = ''live'' \<and> \<not> busy pid \<and> needs_action s'
                    then pid # reconcile_scan E busy w pids
                    else reconcile_scan E busy w pids
                | _ \<Rightarrow> reconcile_scan E busy w pids)))"

definition reconcile_pass ::
  "('r, 'v, 'k, 'a, 'c) tm_env \<Rightarrow> (string \<Rightarrow> bool) \<Rightarrow> ('r, 'k, 'a, 'c) tm_world \<Rightarrow> string list" where
  "reconcile_pass E busy w = reconcile_scan E busy w (list_pipeline_ids (tm_redis_client E) (tm_redis w))"

text \<open>
  One message of the subscription: the identifier an action is queued for, if any, with which
  the locks are looked up. \<open>loads\<close> is \<open>json.loads\<close> of the decoded data, which may raise; so may \<open>get\<close>
  on a payload that is no dict, and the lookup of a value that cannot be a key. Each is logged.
\<close>

fun hashable :: "pyval \<Rightarrow> bool" where
  "hashable (VList _) = False"
| "hashable (VDict _) = False"
| "hashable _ = True"

definition pubsub_message ::
  "(string \<Rightarrow> pyval result) \<Rightarrow> (pyval \<Rightarrow> bool) \<Rightarrow> string \<Rightarrow> string \<Rightarrow> pyval option" where
  "pubsub_message loads busy kind data =
     (if kind \<noteq> ''message'' then None
      else case loads data of
             Inr (VDict payload) \<Rightarrow>
               (case dict_get payload ''pipeline_id'' of
                  Some v \<Rightarrow> if \<not> py_truthy v \<or> \<not> hashable v \<or> busy v then None else Some v
                | None \<Rightarrow> None)
           | _ \<Rightarrow> None)"

section \<open>The action\<close>

text \<open>It is given the state read before the first save, not the one saved.\<close>

definition act ::
  "('r, 'v, 'k, 'a, 'c) tm_env \<Rightarrow> string \<Rightarrow> (('r, 'k, 'a, 'c) tm_world, unit) io" where
  "act E pid =
     bind_io (on_redis (get_state (tm_redis_client E) pid)) (\<lambda>found.
     bind_io (on_redis (get_config (tm_redis_client E) pid)) (\<lambda>config.
       case (found, config) of
         (Some s, Some c) \<Rightarrow>
           (case desired_state s of
              DESIRED_RUNNING \<Rightarrow>
                if status s \<in> {RUNNING, STARTING} then ret_io ()
                else
                  bind_io (set_state E pid (no_update\<lparr>set_status := Some STARTING, set_error := Some []\<rparr>)) (\<lambda>_.
                  bind_io
                    (catch_io
                      (bind_io (on_runtime (rt_start (tm_adapter E) c s)) (\<lambda>names.
                         set_state E pid (no_update\<lparr>set_status := Some STARTING, set_producer := Some (Some (fst names)),
                           set_consumer := Some (Some (snd names))\<rparr>)))
                      (\<lambda>e. set_state E pid (no_update\<lparr>set_desired := Some DESIRED_STOPPED,
                           set_status := Some FAILED, set_error := Some (exn_str e)\<rparr>)))
                    (\<lambda>_. ret_io ()))
            | DESIRED_STOPPED \<Rightarrow>
                if status s \<in> set ALREADY_STOPPED then ret_io ()
                else
                  bind_io (set_state E pid (no_update\<lparr>set_status := Some STOPPING\<rparr>)) (\<lambda>_.
                  bind_io
                    (catch_io
                      (bind_io (on_runtime (rt_stop (tm_adapter E) c s)) (\<lambda>_.
                         set_state E pid (no_update\<lparr>set_status := Some STOPPED, set_producer := Some None,
                           set_consumer := Some None\<rparr>)))
                      (\<lambda>e. set_state E pid (no_update\<lparr>set_status := Some FAILED, set_error := Some (exn_str e)\<rparr>)))
                    (\<lambda>_. ret_io ())))
       | _ \<Rightarrow> ret_io ()))"

text \<open>The actions queued by a pass, in the order in which they get to run.\<close>

fun run_acts ::
  "('r, 'v, 'k, 'a, 'c) tm_env \<Rightarrow> string list \<Rightarrow> ('r, 'k, 'a, 'c) tm_world \<Rightarrow> ('r, 'k, 'a, 'c) tm_world" where
  "run_acts E [] w = w"
| "run_acts E (pid # pids) w = run_acts E pids (snd (act E pid w))"

section \<open>What an action leaves\<close>

lemma stamped:
  assumes "s' = t\<lparr>updated_at := updated_at s'\<rparr>"
  shows "status s' = status t" "desired_state s' = desired_state t" "last_error s' = last_error t"
    "producer_container s' = producer_container t" "consumer_container s' = consumer_container t"
  by (subst assms, simp)+

text \<open>
  The part after the first save: the call of the runtime, then one more save on either branch.
\<close>

lemma called_then_saved:
  fixes call :: "('k, 'x) io"
  assumes R: "redis_store (tm_redis_client E)" and rec: "has_record E w c s" and pid: "pid = pipeline_id c"
    and x: "call (tm_runtime w) = (x, k)"
  shows "\<exists>s' w'. catch_io (bind_io (on_runtime call) (\<lambda>v. set_state E pid (su v))) (\<lambda>e. set_state E pid (fu e)) w =
      (Inr s', w') \<and>
    s' = (apply_update (case x of Inr v \<Rightarrow> su v | Inl e \<Rightarrow> fu e) s)\<lparr>updated_at := updated_at s'\<rparr> \<and>
    stepped E c w s' k w'"
proof -
  have rec2: "has_record E (w\<lparr>tm_runtime := k\<rparr>) c s" using rec by simp
  let ?u = "case x of Inr v \<Rightarrow> su v | Inl e \<Rightarrow> fu e"
  obtain s' w' where t: "set_state E pid ?u (w\<lparr>tm_runtime := k\<rparr>) = (Inr s', w')"
    "s' = (apply_update ?u s)\<lparr>updated_at := updated_at s'\<rparr>" "has_record E w' c s'"
    "only_state E pid (w\<lparr>tm_runtime := k\<rparr>) w'" "tm_runtime w' = tm_runtime (w\<lparr>tm_runtime := k\<rparr>)"
    "tm_platform w' = tm_platform (w\<lparr>tm_runtime := k\<rparr>)"
    by (rule set_state_found [OF R rec2 pid])
  have "stepped E c w s' k w'" using t pid by (simp add: stepped_def)
  with t(1,2) x show ?thesis
    by (intro exI [of _ s'] exI [of _ w']) (cases x; simp add: catch_io_def bind_io_def on_runtime_def)
qed

lemma saved_called_saved:
  fixes call :: "('k, 'x) io"
  assumes R: "redis_store (tm_redis_client E)" and rec: "has_record E w c s" and pid: "pid = pipeline_id c"
    and x: "call (tm_runtime w) = (x, k)"
  shows "\<exists>s1 s' w'. bind_io (set_state E pid u) (\<lambda>_. bind_io
        (catch_io (bind_io (on_runtime call) (\<lambda>v. set_state E pid (su v))) (\<lambda>e. set_state E pid (fu e)))
        (\<lambda>_. ret_io ())) w = (Inr (), w') \<and>
    s1 = (apply_update u s)\<lparr>updated_at := updated_at s1\<rparr> \<and>
    s' = (apply_update (case x of Inr v \<Rightarrow> su v | Inl e \<Rightarrow> fu e) s1)\<lparr>updated_at := updated_at s'\<rparr> \<and>
    stepped E c w s' k w'"
proof -
  obtain s1 w1 where s1: "set_state E pid u w = (Inr s1, w1)" "s1 = (apply_update u s)\<lparr>updated_at := updated_at s1\<rparr>"
    "has_record E w1 c s1" "only_state E pid w w1" "tm_runtime w1 = tm_runtime w" "tm_platform w1 = tm_platform w"
    by (rule set_state_found [OF R rec pid])
  from x s1(5) have "call (tm_runtime w1) = (x, k)" by simp
  from called_then_saved [OF R s1(3) pid, of call, OF this, of su fu] obtain s' w' where
    "catch_io (bind_io (on_runtime call) (\<lambda>v. set_state E pid (su v))) (\<lambda>e. set_state E pid (fu e)) w1 = (Inr s', w')"
    "s' = (apply_update (case x of Inr v \<Rightarrow> su v | Inl e \<Rightarrow> fu e) s1)\<lparr>updated_at := updated_at s'\<rparr>"
    "stepped E c w1 s' k w'" by blast
  moreover from this(3) s1 pid have "stepped E c w s' k w'" by (auto simp: stepped_def intro: only_state_trans)
  ultimately show ?thesis using s1(1,2)
    by (intro exI [of _ s1] exI [of _ s'] exI [of _ w']) (simp add: bind_io_def ret_io_def)
qed

lemma act_settled:
  assumes "has_record E w c s" and "if desired_state s = DESIRED_RUNNING then status s \<in> {RUNNING, STARTING}
    else status s \<in> set ALREADY_STOPPED"
  shows "act E (pipeline_id c) w = (Inr (), w)"
  using assms by (cases "desired_state s") (simp_all add: act_def has_record_def bind_io_def ret_io_def)

text \<open>
  A start under way or a failure is what is left of a start; a stop or a failure of a stop. The
  runtime is called once, with the state the action began with.
\<close>

lemma act_starts:
  assumes R: "redis_store (tm_redis_client E)" and rec: "has_record E w c s"
    and want: "desired_state s = DESIRED_RUNNING" "status s \<notin> {RUNNING, STARTING}"
  obtains x k s' w' where "rt_start (tm_adapter E) c s (tm_runtime w) = (x, k)"
    "act E (pipeline_id c) w = (Inr (), w')" "stepped E c w s' k w'"
    "case x of
       Inr (p, q) \<Rightarrow> status s' = STARTING \<and> desired_state s' = DESIRED_RUNNING \<and> producer_container s' = Some p \<and>
         consumer_container s' = Some q
     | Inl e \<Rightarrow> status s' = FAILED \<and> desired_state s' = DESIRED_STOPPED \<and> last_error s' = Some (exn_str e)"
proof -
  let ?u = "no_update\<lparr>set_status := Some STARTING, set_error := Some []\<rparr>"
  let ?su = "\<lambda>names :: string \<times> string. no_update\<lparr>set_status := Some STARTING,
      set_producer := Some (Some (fst names)), set_consumer := Some (Some (snd names))\<rparr>"
  let ?fu = "\<lambda>e. no_update\<lparr>set_desired := Some DESIRED_STOPPED, set_status := Some FAILED, set_error := Some (exn_str e)\<rparr>"
  obtain x k where x: "rt_start (tm_adapter E) c s (tm_runtime w) = (x, k)" by fastforce
  from saved_called_saved [OF R rec refl, of "rt_start (tm_adapter E) c s", OF x, of ?u ?su ?fu]
  obtain s1 s' w' where c: "bind_io (set_state E (pipeline_id c) ?u) (\<lambda>_. bind_io
        (catch_io (bind_io (on_runtime (rt_start (tm_adapter E) c s)) (\<lambda>v. set_state E (pipeline_id c) (?su v)))
          (\<lambda>e. set_state E (pipeline_id c) (?fu e))) (\<lambda>_. ret_io ())) w = (Inr (), w')"
    "s1 = (apply_update ?u s)\<lparr>updated_at := updated_at s1\<rparr>"
    "s' = (apply_update (case x of Inr v \<Rightarrow> ?su v | Inl e \<Rightarrow> ?fu e) s1)\<lparr>updated_at := updated_at s'\<rparr>"
    "stepped E c w s' k w'" by blast
  have "act E (pipeline_id c) w = (Inr (), w')"
    using rec want c(1) by (simp add: act_def bind_io_def [of "on_redis _"] has_record_def)
  moreover have "case x of
       Inr (p, q) \<Rightarrow> status s' = STARTING \<and> desired_state s' = DESIRED_RUNNING \<and> producer_container s' = Some p \<and>
         consumer_container s' = Some q
     | Inl e \<Rightarrow> status s' = FAILED \<and> desired_state s' = DESIRED_STOPPED \<and> last_error s' = Some (exn_str e)"
    using stamped [OF c(3)] stamped [OF c(2)] want by (cases x) (auto simp: no_update_def)
  ultimately show thesis by (intro that [OF x _ c(4)])
qed

lemma act_stops:
  assumes R: "redis_store (tm_redis_client E)" and rec: "has_record E w c s"
    and want: "desired_state s = DESIRED_STOPPED" "status s \<notin> set ALREADY_STOPPED"
  obtains x k s' w' where "rt_stop (tm_adapter E) c s (tm_runtime w) = (x, k)"
    "act E (pipeline_id c) w = (Inr (), w')" "stepped E c w s' k w'" "desired_state s' = DESIRED_STOPPED"
    "case x of
       Inr _ \<Rightarrow> status s' = STOPPED \<and> producer_container s' = None \<and> consumer_container s' = None
     | Inl e \<Rightarrow> status s' = FAILED \<and> last_error s' = Some (exn_str e) \<and> producer_container s' = producer_container s"
proof -
  let ?u = "no_update\<lparr>set_status := Some STOPPING\<rparr>"
  let ?su = "\<lambda>_ :: unit. no_update\<lparr>set_status := Some STOPPED, set_producer := Some None, set_consumer := Some None\<rparr>"
  let ?fu = "\<lambda>e. no_update\<lparr>set_status := Some FAILED, set_error := Some (exn_str e)\<rparr>"
  obtain x k where x: "rt_stop (tm_adapter E) c s (tm_runtime w) = (x, k)" by fastforce
  from saved_called_saved [OF R rec refl, of "rt_stop (tm_adapter E) c s", OF x, of ?u ?su ?fu]
  obtain s1 s' w' where c: "bind_io (set_state E (pipeline_id c) ?u) (\<lambda>_. bind_io
        (catch_io (bind_io (on_runtime (rt_stop (tm_adapter E) c s)) (\<lambda>v. set_state E (pipeline_id c) (?su v)))
          (\<lambda>e. set_state E (pipeline_id c) (?fu e))) (\<lambda>_. ret_io ())) w = (Inr (), w')"
    "s1 = (apply_update ?u s)\<lparr>updated_at := updated_at s1\<rparr>"
    "s' = (apply_update (case x of Inr v \<Rightarrow> ?su v | Inl e \<Rightarrow> ?fu e) s1)\<lparr>updated_at := updated_at s'\<rparr>"
    "stepped E c w s' k w'" by blast
  have "act E (pipeline_id c) w = (Inr (), w')"
    using rec want c(1) by (simp add: act_def bind_io_def [of "on_redis _"] has_record_def)
  moreover have "desired_state s' = DESIRED_STOPPED"
    using stamped [OF c(3)] stamped [OF c(2)] want by (cases x) (auto simp: no_update_def)
  moreover have "case x of
       Inr _ \<Rightarrow> status s' = STOPPED \<and> producer_container s' = None \<and> consumer_container s' = None
     | Inl e \<Rightarrow> status s' = FAILED \<and> last_error s' = Some (exn_str e) \<and> producer_container s' = producer_container s"
    using stamped [OF c(3)] stamped [OF c(2)] by (cases x) (auto simp: no_update_def)
  ultimately show thesis by (intro that [OF x _ c(4)])
qed

text \<open>
  C14: What an action the controller queued leaves. For a pipeline whose state calls for one, over
  any runtime that keeps the adapter's contract, the action raises nothing. A start leaves the
  producer up and the state starting with both names stored, or the state failed and wanted
  stopped; a stop leaves the producer down and the state stopped without names, or the state
  failed with the producer's name kept. Nothing else is stored, and producers of pipelines apart are as
  they were.
\<close>

theorem controller_act_outcome:
  assumes R: "redis_store (tm_redis_client E)" and A: "runtime_contract (tm_adapter E) up owned apart"
    and rec: "has_record E w c s" and own: "owned c s" and needs: "needs_action s"
  shows "\<exists>s' w'. act E (pipeline_id c) w = (Inr (), w') \<and> has_record E w' c s' \<and>
    only_state E (pipeline_id c) w w' \<and> tm_platform w' = tm_platform w \<and>
    runtime_frame up apart (pipeline_id c) (tm_runtime w) (tm_runtime w') \<and>
    (case desired_state s of
       DESIRED_RUNNING \<Rightarrow>
         status s' = STARTING \<and> desired_state s' = DESIRED_RUNNING \<and> up (tm_runtime w') (pipeline_id c) \<and>
           producer_container s' \<noteq> None \<and> consumer_container s' \<noteq> None \<or>
         status s' = FAILED \<and> desired_state s' = DESIRED_STOPPED \<and> last_error s' \<noteq> None
     | DESIRED_STOPPED \<Rightarrow> desired_state s' = DESIRED_STOPPED \<and>
         (status s' = STOPPED \<and> \<not> up (tm_runtime w') (pipeline_id c) \<and> producer_container s' = None \<and>
            consumer_container s' = None \<or>
          status s' = FAILED \<and> last_error s' \<noteq> None \<and> producer_container s' = producer_container s))"
proof (cases "desired_state s")
  case DESIRED_RUNNING
  with needs have "status s \<notin> {RUNNING, STARTING}" by (auto simp: needs_action_def IDLE_def)
  with DESIRED_RUNNING obtain x k s' w' where c: "rt_start (tm_adapter E) c s (tm_runtime w) = (x, k)"
    "act E (pipeline_id c) w = (Inr (), w')" "stepped E c w s' k w'"
    "case x of
       Inr (p, q) \<Rightarrow> status s' = STARTING \<and> desired_state s' = DESIRED_RUNNING \<and> producer_container s' = Some p \<and>
         consumer_container s' = Some q
     | Inl e \<Rightarrow> status s' = FAILED \<and> desired_state s' = DESIRED_STOPPED \<and> last_error s' = Some (exn_str e)"
    by (rule act_starts [OF R rec])
  have "runtime_frame up apart (pipeline_id c) (tm_runtime w) (tm_runtime w')"
    using runtime_contract.start_frame [OF A own _ c(1)] c(3) by (simp add: runtime_frame_def stepped_def)
  moreover have "up (tm_runtime w') (pipeline_id c)" if "x = Inr names" for names
    using runtime_contract.start_up [OF A own, of "tm_runtime w" names k] c(1,3) that by (simp add: stepped_def)
  ultimately show ?thesis using DESIRED_RUNNING c(2-4)
    by (intro exI [of _ s'] exI [of _ w']) (auto simp: stepped_def split: sum.splits)
next
  case DESIRED_STOPPED
  with needs have "status s \<notin> set ALREADY_STOPPED" by (simp add: needs_action_def)
  with DESIRED_STOPPED obtain x k s' w' where c: "rt_stop (tm_adapter E) c s (tm_runtime w) = (x, k)"
    "act E (pipeline_id c) w = (Inr (), w')" "stepped E c w s' k w'" "desired_state s' = DESIRED_STOPPED"
    "case x of
       Inr _ \<Rightarrow> status s' = STOPPED \<and> producer_container s' = None \<and> consumer_container s' = None
     | Inl e \<Rightarrow> status s' = FAILED \<and> last_error s' = Some (exn_str e) \<and> producer_container s' = producer_container s"
    by (rule act_stops [OF R rec])
  have "runtime_frame up apart (pipeline_id c) (tm_runtime w) (tm_runtime w')"
    using runtime_contract.stop_frame [OF A own _ c(1)] c(3) by (simp add: runtime_frame_def stepped_def)
  moreover have "\<not> up (tm_runtime w') (pipeline_id c)" if "x = Inr u" for u
    using runtime_contract.stop_down [OF A own, of "tm_runtime w" k] c(1,3) that by (simp add: stepped_def)
  ultimately show ?thesis using DESIRED_STOPPED c(2-5)
    by (intro exI [of _ s'] exI [of _ w']) (auto simp: stepped_def split: sum.splits)
qed

section \<open>Reconciliation\<close>

text \<open>
  Every queued action leaves a state that calls for no further one, whichever way it ends.
\<close>

lemma act_calms:
  assumes R: "redis_store (tm_redis_client E)" and rec: "has_record E w c s" and needs: "needs_action s"
  obtains s' w' where "act E (pipeline_id c) w = (Inr (), w')" "has_record E w' c s'"
    "only_state E (pipeline_id c) w w'" "\<not> needs_action s'"
proof (cases "desired_state s")
  case DESIRED_RUNNING
  with needs have "status s \<notin> {RUNNING, STARTING}" by (auto simp: needs_action_def IDLE_def)
  with DESIRED_RUNNING show thesis
    by (rule act_starts [OF R rec])
      (rule that, auto simp: stepped_def needs_action_def IDLE_def ALREADY_STOPPED_def split: sum.splits)
next
  case DESIRED_STOPPED
  with needs have "status s \<notin> set ALREADY_STOPPED" by (simp add: needs_action_def)
  with DESIRED_STOPPED show thesis
    by (rule act_stops [OF R rec])
      (rule that, auto simp: stepped_def needs_action_def ALREADY_STOPPED_def split: sum.splits)
qed

definition calm :: "('r, 'v, 'k, 'a, 'c) tm_env \<Rightarrow> ('r, 'k, 'a, 'c) tm_world \<Rightarrow> string \<Rightarrow> bool" where
  "calm E w p \<longleftrightarrow> (\<forall>s. stored_state (tm_redis_client E) (tm_redis w) p = Inr (Some s) \<longrightarrow> \<not> needs_action s)"

definition recorded :: "('r, 'v, 'k, 'a, 'c) tm_env \<Rightarrow> ('r, 'k, 'a, 'c) tm_world \<Rightarrow> string \<Rightarrow> bool" where
  "recorded E w p \<longleftrightarrow>
     (\<exists>c s. stored_config (tm_redis_client E) (tm_redis w) p = Inr (Some c) \<and>
        stored_state (tm_redis_client E) (tm_redis w) p = Inr (Some s) \<and> pipeline_id c = p \<and> st_pipeline_id s = p)"

lemma recorded_iff: "recorded E w p \<longleftrightarrow> (\<exists>c s. pipeline_id c = p \<and> has_record E w c s)"
  by (auto simp: recorded_def has_record_def)

lemma act_recorded:
  assumes R: "redis_store (tm_redis_client E)" and rec: "recorded E w p" and needs: "\<not> calm E w p"
  shows "\<exists>w'. act E p w = (Inr (), w') \<and> only_state E p w w' \<and> calm E w' p \<and> recorded E w' p"
proof -
  obtain c s where r: "pipeline_id c = p" "has_record E w c s" using rec by (auto simp: recorded_iff)
  with needs have "needs_action s" by (auto simp: calm_def has_record_def)
  then obtain s' w' where "act E (pipeline_id c) w = (Inr (), w')" "has_record E w' c s'"
    "only_state E (pipeline_id c) w w'" "\<not> needs_action s'" by (rule act_calms [OF R r(2)])
  with r(1) show ?thesis by (auto simp: calm_def has_record_def recorded_def)
qed

lemma only_state_calm: "only_state E p w w' \<Longrightarrow> q \<noteq> p \<Longrightarrow> calm E w' q = calm E w q"
  by (simp add: only_state_def calm_def)

lemma only_state_recorded: "only_state E p w w' \<Longrightarrow> q \<noteq> p \<Longrightarrow> recorded E w' q = recorded E w q"
  by (simp add: only_state_def recorded_def)

lemma run_acts_calm:
  assumes R: "redis_store (tm_redis_client E)"
  shows "distinct ps \<Longrightarrow> \<forall>p\<in>set ps. recorded E w p \<and> \<not> calm E w p \<Longrightarrow>
    (\<forall>p\<in>set ps. calm E (run_acts E ps w) p) \<and>
    (\<forall>q. q \<notin> set ps \<longrightarrow> stored_state (tm_redis_client E) (tm_redis (run_acts E ps w)) q =
       stored_state (tm_redis_client E) (tm_redis w) q) \<and>
    (\<forall>q. stored_config (tm_redis_client E) (tm_redis (run_acts E ps w)) q =
       stored_config (tm_redis_client E) (tm_redis w) q)"
proof (induction ps arbitrary: w)
  case (Cons p ps)
  then obtain w1 where a: "act E p w = (Inr (), w1)" "only_state E p w w1" "calm E w1 p"
    using act_recorded [OF R, of w p] by auto
  have "\<forall>q\<in>set ps. recorded E w1 q \<and> \<not> calm E w1 q"
    using Cons.prems only_state_calm [OF a(2)] only_state_recorded [OF a(2)] by (metis distinct.simps(2) list.set_intros(2))
  with Cons.prems(1) have ih: "\<forall>q\<in>set ps. calm E (run_acts E ps w1) q"
    "\<forall>q. q \<notin> set ps \<longrightarrow> stored_state (tm_redis_client E) (tm_redis (run_acts E ps w1)) q =
       stored_state (tm_redis_client E) (tm_redis w1) q"
    "\<forall>q. stored_config (tm_redis_client E) (tm_redis (run_acts E ps w1)) q =
       stored_config (tm_redis_client E) (tm_redis w1) q"
    using Cons.IH [of w1] by simp_all
  have "calm E (run_acts E ps w1) p" using a(3) ih(2) Cons.prems(1) by (simp add: calm_def)
  with ih a(1,2) show ?case by (simp add: only_state_def)
qed simp

text \<open>What a pass queues when it can read every record.\<close>

lemma reconcile_scan_recorded:
  "\<forall>p\<in>set ps. recorded E w p \<Longrightarrow>
     reconcile_scan E busy w ps =
       filter (\<lambda>p. \<not> busy p \<and> \<not> calm E w p \<and>
         (\<exists>c. stored_config (tm_redis_client E) (tm_redis w) p = Inr (Some c) \<and> pipeline_type c = LIVE)) ps"
proof (induction ps)
  case (Cons p ps)
  then obtain c s where "pipeline_id c = p" "has_record E w c s" by (auto simp: recorded_iff)
  then have "stored_config (tm_redis_client E) (tm_redis w) p = Inr (Some c)"
    "stored_state (tm_redis_client E) (tm_redis w) p = Inr (Some s)" by (auto simp: has_record_def)
  with Cons show ?case
    by (cases "pipeline_type c") (simp_all add: get_config_eq get_state_eq calm_def)
qed simp

lemma reconcile_scan_sound:
  "p \<in> set (reconcile_scan E busy w ps) \<Longrightarrow>
     \<not> calm E w p \<and> (\<exists>c. stored_config (tm_redis_client E) (tm_redis w) p = Inr (Some c) \<and> pipeline_type c = LIVE)"
proof (induction ps)
  case (Cons q ps)
  let ?s = "stored_state (tm_redis_client E) (tm_redis w) q" and ?c = "stored_config (tm_redis_client E) (tm_redis w) q"
  from Cons.prems have "(\<exists>s c. ?s = Inr s \<and> ?c = Inr c)"
    by (cases ?s; cases ?c) (simp_all add: get_config_eq get_state_eq)
  then obtain s c where sc: "?s = Inr s" "?c = Inr c" by blast
  show ?case
  proof (cases "s = None \<or> c = None")
    case True
    with Cons sc show ?thesis by (auto simp: get_config_eq get_state_eq split: option.splits)
  next
    case False
    then obtain s' c' where "s = Some s'" "c = Some c'" by auto
    with Cons sc show ?thesis
      by (cases "pipeline_type c'") (auto simp: get_config_eq get_state_eq calm_def split: if_splits)
  qed
qed simp

lemma stored_config_listed:
  assumes "redis_store R" and "ids_ok R r" and "stored_config R r p = Inr (Some c)"
  shows "p \<in> set (list_pipeline_ids R r)"
proof -
  have "r_get R (pipeline_config_key p) r \<noteq> None" using assms(3) by (auto simp: stored_config_def split: option.splits)
  then show ?thesis using redis_store.list_pipeline_ids_spec(1) [OF assms(1,2)] by simp
qed

text \<open>
  C15: One pass of the reconcile loop is enough. When every listed pipeline has a readable record
  and no action is under way, the actions of the pipelines it queues, in whatever order they run
  and however the runtime answers, leave no live pipeline whose state calls for another: the next
  pass queues nothing. No configuration changes, and no state of a pipeline that was not queued.
\<close>

theorem reconcile_settles:
  assumes R: "redis_store (tm_redis_client E)" and ids: "ids_ok (tm_redis_client E) (tm_redis w)"
    and rec: "\<forall>p\<in>set (list_pipeline_ids (tm_redis_client E) (tm_redis w)). recorded E w p"
    and queued: "distinct ps" "set ps = set (reconcile_pass E (\<lambda>_. False) w)"
  shows "reconcile_pass E busy (run_acts E ps w) = [] \<and>
    (\<forall>p c s. stored_config (tm_redis_client E) (tm_redis (run_acts E ps w)) p = Inr (Some c) \<longrightarrow> pipeline_type c = LIVE \<longrightarrow>
       stored_state (tm_redis_client E) (tm_redis (run_acts E ps w)) p = Inr (Some s) \<longrightarrow> \<not> needs_action s) \<and>
    (\<forall>q. stored_config (tm_redis_client E) (tm_redis (run_acts E ps w)) q = stored_config (tm_redis_client E) (tm_redis w) q) \<and>
    (\<forall>q. q \<notin> set ps \<longrightarrow> stored_state (tm_redis_client E) (tm_redis (run_acts E ps w)) q =
       stored_state (tm_redis_client E) (tm_redis w) q)"
proof -
  let ?R = "tm_redis_client E" and ?w' = "run_acts E ps w"
  have ps: "p \<in> set ps \<longleftrightarrow> p \<in> set (list_pipeline_ids ?R (tm_redis w)) \<and> \<not> calm E w p \<and>
      (\<exists>c. stored_config ?R (tm_redis w) p = Inr (Some c) \<and> pipeline_type c = LIVE)" for p
    using reconcile_scan_recorded [OF rec, of "\<lambda>_. False"] queued(2) by (simp add: reconcile_pass_def)
  with rec have "\<forall>p\<in>set ps. recorded E w p \<and> \<not> calm E w p" by blast
  note run = run_acts_calm [OF R queued(1) this]
  have calm: "calm E ?w' p" if "stored_config ?R (tm_redis ?w') p = Inr (Some c)" "pipeline_type c = LIVE" for p c
  proof (cases "p \<in> set ps")
    case True
    with run show ?thesis by simp
  next
    case False
    from that(1) run have c: "stored_config ?R (tm_redis w) p = Inr (Some c)" by simp
    with False ps that(2) stored_config_listed [OF R ids c] have "calm E w p" by blast
    with False run show ?thesis by (simp add: calm_def)
  qed
  have "p \<notin> set (reconcile_scan E busy ?w' qs)" for p qs
    using reconcile_scan_sound [of p E busy ?w' qs] calm [of p] by blast
  then have "reconcile_pass E busy ?w' = []" unfolding reconcile_pass_def by (metis last_in_set)
  with run calm show ?thesis unfolding calm_def by blast
qed

lemma controller_never_kubernetes: "controller_runtime default_settings docker = redis_only_adapter"
  by (simp add: controller_runtime_def default_settings_def)

section \<open>Witnesses\<close>

text \<open>The sample pipeline, wanted running, in the cluster in memory.\<close>

lemma sample_needs_start: "needs_action ((idle_state ''p1'')\<lparr>desired_state := DESIRED_RUNNING\<rparr>)"
  by (simp add: needs_action_def IDLE_def idle_state_def)

lemma controller_act_outcome_witness:
  "\<exists>s' w'. act (sample_env True) ''p1'' (sample_world DESIRED_RUNNING) = (Inr (), w') \<and>
     has_record (sample_env True) w' sample_config s' \<and> status s' \<in> {STARTING, FAILED}"
proof -
  obtain s' w' where "act (sample_env True) (pipeline_id sample_config) (sample_world DESIRED_RUNNING) = (Inr (), w')"
    "has_record (sample_env True) w' sample_config s'" "status s' = STARTING \<or> status s' = FAILED"
    using controller_act_outcome [OF sample_redis [of True] sample_contract [of True] sample_record [of True] _ sample_needs_start]
    by auto
  then show ?thesis by auto
qed

lemma reconcile_settles_witness:
  "reconcile_pass (sample_env True) (\<lambda>_. False) (sample_world DESIRED_RUNNING) = [''p1''] \<and>
   reconcile_pass (sample_env True) (\<lambda>_. False) (run_acts (sample_env True) [''p1''] (sample_world DESIRED_RUNNING)) = []"
proof -
  let ?E = "sample_env True" and ?w = "sample_world DESIRED_RUNNING"
  have "list_pipeline_ids (tm_redis_client ?E) (tm_redis ?w) = [''p1'']" by code_simp
  moreover have "ids_ok (tm_redis_client ?E) (tm_redis ?w)"
    by (auto simp: ids_ok_def sample_world_def record_world_def fake_client_def fake_get_def key_simps pipeline_id_ok_def ascii_letters_def
        decimal_digits_def split: if_splits)
  moreover have r: "recorded ?E ?w ''p1''" unfolding recorded_iff using sample_record sample_id(1) by blast
  moreover have "reconcile_pass ?E (\<lambda>_. False) ?w = [''p1'']" by code_simp
  ultimately show ?thesis
    using reconcile_settles [OF sample_redis [of True], of ?w "[''p1'']" "\<lambda>_. False"] by simp
qed

end
