(* ===== verification/Watchdog.thy ===== *)
theory Watchdog
  imports Controller
begin

text \<open>
  \<^verbatim>\<open>watchdog/app/main.py\<close>: the health check of the pipelines that are wanted running, and the
  restart. The lemmas say when a check restarts, what a restart leaves and how the controller
  takes over a restart that failed.
\<close>

section \<open>Time\<close>

text \<open>
  A \<open>datetime\<close>: an instant in seconds, and whether it carries an offset. Subtracting a naive one
  from an aware one raises. \<open>wd_parse\<close> is \<open>datetime.fromisoformat\<close>, \<open>wd_clock\<close> the time of day.
\<close>

record datetime =
  instant :: rat
  aware :: bool

record 'w watchdog_env =
  wd_clock :: "'w \<Rightarrow> rat"
  wd_parse :: "string \<Rightarrow> datetime result"
  wd_timeout :: int

fun since :: "rat \<Rightarrow> datetime \<Rightarrow> rat result" where
  "since now d =
     (if aware d then Inr (now - instant d)
      else Inl (TypeError ''can't subtract offset-naive and offset-aware datetimes''))"

text \<open>The age of the last heartbeat, if there is one; an unreadable one counts as overdue.\<close>

definition heartbeat_age :: "'w watchdog_env \<Rightarrow> rat \<Rightarrow> pipeline_state \<Rightarrow> rat option result" where
  "heartbeat_age W now s =
     (if str_or (last_heartbeat_at s) [] = [] then Inr None
      else
        (case (case wd_parse W (str_or (last_heartbeat_at s) []) of Inl e \<Rightarrow> Inl e | Inr d \<Rightarrow> since now d) of
           Inr age \<Rightarrow> Inr (Some age)
         | Inl e \<Rightarrow> if is_value_error e then Inr (Some (of_int (wd_timeout W) + 1)) else Inl e))"

section \<open>The check\<close>

definition watchdog_restart ::
  "('r, 'v, 'k, 'a, 'c) tm_env \<Rightarrow> string \<Rightarrow> pipeline_config \<Rightarrow> pipeline_state \<Rightarrow> (('r, 'k, 'a, 'c) tm_world, unit) io" where
  "watchdog_restart E pid c s =
     bind_io
       (catch_io
         (bind_io (set_state E pid (no_update\<lparr>set_status := Some STARTING\<rparr>)) (\<lambda>_.
          bind_io (on_runtime (rt_restart (tm_adapter E) c s)) (\<lambda>names.
            set_state E pid (no_update\<lparr>set_status := Some STARTING, set_producer := Some (Some (fst names)),
              set_consumer := Some (Some (snd names)), set_error := Some []\<rparr>))))
         (\<lambda>e. set_state E pid (no_update\<lparr>set_status := Some FAILED,
            set_error := Some (''watchdog restart failed: '' @ exn_str e)\<rparr>)))
       (\<lambda>_. ret_io ())"

text \<open>The first of the containers that has a name and does not run.\<close>

fun any_stopped :: "'k runtime_adapter \<Rightarrow> string option list \<Rightarrow> ('k, bool) io" where
  "any_stopped A [] = ret_io False"
| "any_stopped A (name # names) =
     (if str_or name [] = [] then any_stopped A names
      else bind_io (rt_is_running A (str_or name [])) (\<lambda>running.
             if running then any_stopped A names else ret_io True))"

definition check_containers ::
  "('r, 'v, 'k, 'a, 'c) tm_env \<Rightarrow> string \<Rightarrow> pipeline_config \<Rightarrow> pipeline_state \<Rightarrow> (('r, 'k, 'a, 'c) tm_world, unit) io" where
  "check_containers E pid c s =
     bind_io (on_runtime (any_stopped (tm_adapter E) [producer_container s, consumer_container s])) (\<lambda>stopped.
       if stopped then watchdog_restart E pid c s else ret_io ())"

definition check_live ::
  "('r, 'v, 'k, 'a, 'c) tm_env \<Rightarrow> ('r, 'k, 'a, 'c) tm_world watchdog_env \<Rightarrow> string \<Rightarrow> pipeline_config \<Rightarrow>
     pipeline_state \<Rightarrow> (('r, 'k, 'a, 'c) tm_world, unit) io" where
  "check_live E W pid c s w =
     (case heartbeat_age W (wd_clock W w) s of
        Inl e \<Rightarrow> (Inl e, w)
      | Inr (Some age) \<Rightarrow>
          if of_int (wd_timeout W) < age then watchdog_restart E pid c s w else check_containers E pid c s w
      | Inr None \<Rightarrow> check_containers E pid c s w)"

definition watchdog_check ::
  "('r, 'v, 'k, 'a, 'c) tm_env \<Rightarrow> ('r, 'k, 'a, 'c) tm_world watchdog_env \<Rightarrow> string \<Rightarrow>
     (('r, 'k, 'a, 'c) tm_world, unit) io" where
  "watchdog_check E W pid =
     bind_io (on_redis (get_state (tm_redis_client E) pid)) (\<lambda>found.
     bind_io (on_redis (get_config (tm_redis_client E) pid)) (\<lambda>config.
       case (found, config) of
         (Some s, Some c) \<Rightarrow>
           if desired_state s \<noteq> DESIRED_RUNNING then ret_io ()
           else if status s = STARTING then ret_io ()
           else check_live E W pid c s
       | _ \<Rightarrow> ret_io ()))"

text \<open>One pass of the loop: a check that raises is logged and the next one runs.\<close>

fun watchdog_checks ::
  "('r, 'v, 'k, 'a, 'c) tm_env \<Rightarrow> ('r, 'k, 'a, 'c) tm_world watchdog_env \<Rightarrow> string list \<Rightarrow>
     ('r, 'k, 'a, 'c) tm_world \<Rightarrow> ('r, 'k, 'a, 'c) tm_world" where
  "watchdog_checks E W [] w = w"
| "watchdog_checks E W (pid # pids) w = watchdog_checks E W pids (snd (watchdog_check E W pid w))"

definition watchdog_pass ::
  "('r, 'v, 'k, 'a, 'c) tm_env \<Rightarrow> ('r, 'k, 'a, 'c) tm_world watchdog_env \<Rightarrow>
     ('r, 'k, 'a, 'c) tm_world \<Rightarrow> ('r, 'k, 'a, 'c) tm_world" where
  "watchdog_pass E W w = watchdog_checks E W (list_pipeline_ids (tm_redis_client E) (tm_redis w)) w"

section \<open>What a check leaves\<close>

lemma watchdog_restart_cases:
  assumes R: "redis_store (tm_redis_client E)" and rec: "has_record E w c s"
  obtains x k s' w' where "rt_restart (tm_adapter E) c s (tm_runtime w) = (x, k)"
    "watchdog_restart E (pipeline_id c) c s w = (Inr (), w')" "stepped E c w s' k w'"
    "desired_state s' = desired_state s"
    "case x of
       Inr (p, q) \<Rightarrow> status s' = STARTING \<and> producer_container s' = Some p \<and> consumer_container s' = Some q \<and>
         last_error s' = Some []
     | Inl e \<Rightarrow> status s' = FAILED \<and> last_error s' = Some (''watchdog restart failed: '' @ exn_str e) \<and>
         producer_container s' = producer_container s"
proof -
  let ?u = "no_update\<lparr>set_status := Some STARTING\<rparr>"
  let ?su = "\<lambda>names :: string \<times> string. no_update\<lparr>set_status := Some STARTING,
      set_producer := Some (Some (fst names)), set_consumer := Some (Some (snd names)), set_error := Some []\<rparr>"
  let ?fu = "\<lambda>e. no_update\<lparr>set_status := Some FAILED, set_error := Some (''watchdog restart failed: '' @ exn_str e)\<rparr>"
  obtain s1 w1 where s1: "set_state E (pipeline_id c) ?u w = (Inr s1, w1)"
    "s1 = (apply_update ?u s)\<lparr>updated_at := updated_at s1\<rparr>" "has_record E w1 c s1"
    "only_state E (pipeline_id c) w w1" "tm_runtime w1 = tm_runtime w" "tm_platform w1 = tm_platform w"
    by (rule set_state_found [OF R rec refl])
  obtain x k where x: "rt_restart (tm_adapter E) c s (tm_runtime w) = (x, k)" by fastforce
  with s1(5) have "rt_restart (tm_adapter E) c s (tm_runtime w1) = (x, k)" by simp
  from called_then_saved [OF R s1(3) refl, of "rt_restart (tm_adapter E) c s", OF this, of ?su ?fu]
  obtain s' w' where c: "catch_io (bind_io (on_runtime (rt_restart (tm_adapter E) c s))
        (\<lambda>v. set_state E (pipeline_id c) (?su v))) (\<lambda>e. set_state E (pipeline_id c) (?fu e)) w1 = (Inr s', w')"
    "s' = (apply_update (case x of Inr v \<Rightarrow> ?su v | Inl e \<Rightarrow> ?fu e) s1)\<lparr>updated_at := updated_at s'\<rparr>"
    "stepped E c w1 s' k w'" by blast
  have "watchdog_restart E (pipeline_id c) c s w = (Inr (), w')"
    using s1(1) c(1)
    by (simp add: watchdog_restart_def catch_io_def bind_io_def [of "set_state _ _ _"] bind_io_def [of "catch_io _ _"]
        bind_io_def [of "\<lambda>s. case _ s of _ \<Rightarrow> _"] ret_io_def)
  moreover from c(3) s1 have "stepped E c w s' k w'" by (auto simp: stepped_def intro: only_state_trans)
  moreover have "desired_state s' = desired_state s"
    using stamped [OF c(2)] stamped [OF s1(2)] by (cases x) (auto simp: no_update_def)
  moreover have "case x of
       Inr (p, q) \<Rightarrow> status s' = STARTING \<and> producer_container s' = Some p \<and> consumer_container s' = Some q \<and>
         last_error s' = Some []
     | Inl e \<Rightarrow> status s' = FAILED \<and> last_error s' = Some (''watchdog restart failed: '' @ exn_str e) \<and>
         producer_container s' = producer_container s"
    using stamped [OF c(2)] stamped [OF s1(2)] by (cases x) (auto simp: no_update_def)
  ultimately show thesis by (intro that [OF x])
qed

definition supervised :: "pipeline_state \<Rightarrow> bool" where
  "supervised s \<longleftrightarrow> desired_state s = DESIRED_RUNNING \<and> status s \<noteq> STARTING"

definition overdue :: "'w watchdog_env \<Rightarrow> rat \<Rightarrow> pipeline_state \<Rightarrow> bool" where
  "overdue W now s \<longleftrightarrow> (\<exists>age. heartbeat_age W now s = Inr (Some age) \<and> of_int (wd_timeout W) < age)"

text \<open>The heartbeat could be read, and the runtime says of a container that it does not run.\<close>

definition found_stopped ::
  "('r, 'v, 'k, 'a, 'c) tm_env \<Rightarrow> ('r, 'k, 'a, 'c) tm_world watchdog_env \<Rightarrow> ('r, 'k, 'a, 'c) tm_world \<Rightarrow>
     pipeline_state \<Rightarrow> bool" where
  "found_stopped E W w s \<longleftrightarrow> (\<exists>age. heartbeat_age W (wd_clock W w) s = Inr age) \<and>
     fst (any_stopped (tm_adapter E) [producer_container s, consumer_container s] (tm_runtime w)) = Inr True"

lemma watchdog_check_eq:
  assumes "has_record E w c s"
  shows "watchdog_check E W (pipeline_id c) w =
    (if supervised s then check_live E W (pipeline_id c) c s w else (Inr (), w))"
  using assms by (simp add: watchdog_check_def supervised_def has_record_def bind_io_def ret_io_def)

lemma check_live_cases:
  obtains (overdue) "overdue W (wd_clock W w) s" "check_live E W pid c s w = watchdog_restart E pid c s w"
  | (stopped) k where "\<not> overdue W (wd_clock W w) s" "found_stopped E W w s"
      "check_live E W pid c s w = watchdog_restart E pid c s (w\<lparr>tm_runtime := k\<rparr>)"
  | (fine) r k where "\<not> overdue W (wd_clock W w) s" "\<not> found_stopped E W w s"
      "check_live E W pid c s w = (r, w\<lparr>tm_runtime := k\<rparr>)"
proof (cases "heartbeat_age W (wd_clock W w) s")
  case (Inl e)
  then show thesis using fine [of "Inl e" "tm_runtime w"] by (simp add: overdue_def found_stopped_def check_live_def)
next
  case (Inr age)
  show thesis
  proof (cases "overdue W (wd_clock W w) s")
    case True
    then show thesis using overdue by (auto simp: overdue_def check_live_def)
  next
    case False
    with Inr have c: "check_live E W pid c s w = check_containers E pid c s w"
      by (cases age) (auto simp: overdue_def check_live_def)
    obtain x k where x: "any_stopped (tm_adapter E) [producer_container s, consumer_container s] (tm_runtime w) = (x, k)"
      by fastforce
    show thesis
    proof (cases "x = Inr True")
      case True
      then show thesis using stopped [of k] False Inr x c
        by (simp add: found_stopped_def check_containers_def on_runtime_def bind_io_def [of "on_runtime _"]
            del: any_stopped.simps)
    next
      case x': False
      then show thesis using fine [of "map_sum id (\<lambda>_. ()) x" k] False Inr x c
        by (cases x) (simp_all add: found_stopped_def check_containers_def on_runtime_def bind_io_def [of "on_runtime _"]
            ret_io_def del: any_stopped.simps)
    qed
  qed
qed


text \<open>
  C17: A pipeline that the controller has started is supervised by nobody. After a start that
  returned, the stored state is starting; the watchdog's check of that pipeline then changes
  nothing and asks the runtime nothing, whatever the clock and the heartbeat say; the reconcile
  loop does not queue it; and an action on it changes nothing. No operation of either service
  makes a starting pipeline a running one, so that a producer that dies stays down.
\<close>

theorem controller_start_is_unsupervised:
  assumes R: "redis_store (tm_redis_client E)" and rec: "has_record E w c s" and needs: "needs_action s"
    and want: "desired_state s = DESIRED_RUNNING"
    and started: "rt_start (tm_adapter E) c s (tm_runtime w) = (Inr names, k)"
  shows "\<exists>s' w'. act E (pipeline_id c) w = (Inr (), w') \<and> has_record E w' c s' \<and> status s' = STARTING \<and>
    watchdog_check E W (pipeline_id c) (w'\<lparr>tm_runtime := k2\<rparr>) = (Inr (), w'\<lparr>tm_runtime := k2\<rparr>) \<and>
    act E (pipeline_id c) (w'\<lparr>tm_runtime := k2\<rparr>) = (Inr (), w'\<lparr>tm_runtime := k2\<rparr>) \<and>
    pipeline_id c \<notin> set (reconcile_pass E busy (w'\<lparr>tm_runtime := k2\<rparr>))"
proof -
  from needs want have "status s \<notin> {RUNNING, STARTING}" by (auto simp: needs_action_def IDLE_def)
  with want obtain x k1 s' w' where c: "rt_start (tm_adapter E) c s (tm_runtime w) = (x, k1)"
    "act E (pipeline_id c) w = (Inr (), w')" "stepped E c w s' k1 w'"
    "case x of
       Inr (p, q) \<Rightarrow> status s' = STARTING \<and> desired_state s' = DESIRED_RUNNING \<and> producer_container s' = Some p \<and>
         consumer_container s' = Some q
     | Inl e \<Rightarrow> status s' = FAILED \<and> desired_state s' = DESIRED_STOPPED \<and> last_error s' = Some (exn_str e)"
    by (rule act_starts [OF R rec])
  from c(1,4) started have s': "status s' = STARTING" "desired_state s' = DESIRED_RUNNING" by (cases names, auto)+
  from c(3) have r: "has_record E w' c s'" by (simp add: stepped_def)
  have r2: "has_record E (w'\<lparr>tm_runtime := k2\<rparr>) c s'" using r by simp
  have "calm E (w'\<lparr>tm_runtime := k2\<rparr>) (pipeline_id c)"
    using r s' by (simp add: calm_def has_record_def needs_action_def IDLE_def)
  then have "pipeline_id c \<notin> set (reconcile_pass E busy (w'\<lparr>tm_runtime := k2\<rparr>))"
    using reconcile_scan_sound [of "pipeline_id c" E busy "w'\<lparr>tm_runtime := k2\<rparr>"] unfolding reconcile_pass_def by blast
  moreover have "watchdog_check E W (pipeline_id c) (w'\<lparr>tm_runtime := k2\<rparr>) = (Inr (), w'\<lparr>tm_runtime := k2\<rparr>)"
    by (simp add: watchdog_check_eq [OF r2] supervised_def s')
  moreover have "act E (pipeline_id c) (w'\<lparr>tm_runtime := k2\<rparr>) = (Inr (), w'\<lparr>tm_runtime := k2\<rparr>)"
    by (rule act_settled [OF r2]) (simp add: s')
  ultimately show ?thesis using c(2) r s'(1) by blast
qed

text \<open>A check that raises does not keep the next one from running.\<close>

lemma watchdog_checks_append:
  "watchdog_checks E W (ps @ qs) w = watchdog_checks E W qs (watchdog_checks E W ps w)"
  by (induction ps arbitrary: w) simp_all

section \<open>Witnesses\<close>

text \<open>A process without a runtime, as the two services have it unless configured for Docker.\<close>

definition bare_env :: "(fake_redis, doc, memory_cluster, memory_kafka, string list) tm_env" where
  "bare_env = (sample_env True)\<lparr>tm_adapter := redis_only_adapter\<rparr>"

lemma bare_record: "has_record bare_env (sample_world d) sample_config ((idle_state ''p1'')\<lparr>desired_state := d\<rparr>)"
  using sample_record [of True d] by (simp add: has_record_def bare_env_def)

text \<open>A sample clock, and a reader of timestamps that knows a single one.\<close>

definition sample_watch :: "'w watchdog_env" where
  "sample_watch =
     \<lparr>wd_clock = (\<lambda>_. 100), wd_parse = (\<lambda>t. if t = ''t0'' then Inr \<lparr>instant = 0, aware = True\<rparr> else Inl (ValueError t)),
      wd_timeout = 30\<rparr>"

text \<open>The sample pipeline running, with a heartbeat at the instant zero.\<close>

definition late_state :: pipeline_state where
  "late_state = (idle_state ''p1'')\<lparr>desired_state := DESIRED_RUNNING, status := RUNNING, last_heartbeat_at := Some ''t0''\<rparr>"

lemma late_record: "has_record (sample_env True) (record_world late_state) sample_config late_state"
  by (rule record_world_record) (simp add: late_state_def idle_state_def)

lemma late_overdue: "overdue sample_watch 100 late_state" "wd_clock sample_watch v = 100"
  by (simp_all add: overdue_def heartbeat_age_def late_state_def sample_watch_def)


lemma controller_start_is_unsupervised_witness:
  "\<exists>w'. act bare_env ''p1'' (sample_world DESIRED_RUNNING) = (Inr (), w') \<and>
     watchdog_check bare_env sample_watch ''p1'' (w'\<lparr>tm_runtime := []\<rparr>) = (Inr (), w'\<lparr>tm_runtime := []\<rparr>)"
proof -
  have R: "redis_store (tm_redis_client bare_env)" using sample_redis [of True] by (simp add: bare_env_def)
  have s: "rt_start (tm_adapter bare_env) c t k = (Inr (''redis-only-producer'', ''redis-only-consumer''), k)" for c t k
    by (simp add: bare_env_def redis_only_adapter_def ret_io_def)
  show ?thesis
    using controller_start_is_unsupervised [OF R bare_record [of DESIRED_RUNNING] sample_needs_start _ s,
        of sample_watch "[]" "\<lambda>_. False"] by auto
qed

end
