(* ===== verification/Leader_Lock.thy ===== *)
theory Leader_Lock
  imports Redis_Store
begin

text \<open>
  \<^verbatim>\<open>common/app_common/leader_lock.py\<close>: the Redis lease by which one instance of a singleton
  service leads. Each Redis command of the code is one step, so that instances interleave
  between a \<open>GET\<close> and the \<open>EXPIRE\<close> or \<open>DEL\<close> that follows it. The lemmas prove mutual exclusion
  for renewals in time, takeover after a crash, the refinement of an election with one leader,
  and exhibit the run in which a late release lets two instances lead.
\<close>

section \<open>Keys with a time to live\<close>

text \<open>Times are seconds. \<open>ls_deadline\<close> observes when a key expires.\<close>

record 's lock_store =
  ls_now :: "'s \<Rightarrow> nat"
  ls_get :: "string \<Rightarrow> 's \<Rightarrow> string option"
  ls_set_nx_ex :: "string \<Rightarrow> string \<Rightarrow> nat \<Rightarrow> 's \<Rightarrow> bool \<times> 's"
  ls_expire :: "string \<Rightarrow> nat \<Rightarrow> 's \<Rightarrow> 's"
  ls_delete :: "string \<Rightarrow> 's \<Rightarrow> 's"
  ls_wait :: "nat \<Rightarrow> 's \<Rightarrow> 's"
  ls_deadline :: "string \<Rightarrow> 's \<Rightarrow> nat"

text \<open>The documented behaviour of \<open>SET NX EX\<close>, \<open>GET\<close>, \<open>EXPIRE\<close>, \<open>DEL\<close> and of time.\<close>

locale expiring_store =
  fixes L :: "'s lock_store"
  assumes set_taken: "ls_get L k s \<noteq> None \<Longrightarrow> ls_set_nx_ex L k v ttl s = (False, s)"
    and set_free: "ls_get L k s = None \<Longrightarrow> 0 < ttl \<Longrightarrow> \<exists>s'. ls_set_nx_ex L k v ttl s = (True, s') \<and>
      ls_get L k s' = Some v \<and> ls_deadline L k s' = ls_now L s + ttl \<and> ls_now L s' = ls_now L s"
    and get_expire: "0 < ttl \<Longrightarrow> ls_get L k (ls_expire L k ttl s) = ls_get L k s"
    and deadline_expire: "ls_get L k s \<noteq> None \<Longrightarrow> ls_deadline L k (ls_expire L k ttl s) = ls_now L s + ttl"
    and get_delete: "ls_get L k (ls_delete L k s) = None"
    and now_commands: "ls_now L (ls_expire L k ttl s) = ls_now L s" "ls_now L (ls_delete L k s) = ls_now L s"
    and now_wait: "ls_now L (ls_wait L d s) = ls_now L s + d"
    and get_wait: "ls_get L k (ls_wait L d s) = (if ls_now L s + d < ls_deadline L k s then ls_get L k s else None)"
    and deadline_wait: "ls_deadline L k (ls_wait L d s) = ls_deadline L k s"
begin

lemmas lock_store_simps = get_expire deadline_expire get_delete now_commands now_wait get_wait deadline_wait

end

section \<open>One instance\<close>

definition LOCK_TTL_S :: nat where "LOCK_TTL_S = 15"

lemma LOCK_TTL_S_pos [simp]: "0 < LOCK_TTL_S"
  by (simp add: LOCK_TTL_S_def)

definition RENEW_INTERVAL :: nat where "RENEW_INTERVAL = 5"

definition RETRY_INTERVAL :: nat where "RETRY_INTERVAL = 3"

text \<open>
  Where an instance stands: waiting to acquire, leading with the renewal asleep, between the
  \<open>GET\<close> and the \<open>EXPIRE\<close> of a renewal, told that the lock is lost, between the \<open>GET\<close> and the
  \<open>DEL\<close> of a release, or done. \<open>renewed_at\<close> records when the instance last set or extended
  the lease; no command reads it.
\<close>

datatype lock_phase = Waiting | Leading | Renewing | Lost | Releasing | Released

record lock_client =
  phase :: lock_phase
  is_leader :: bool
  renewed_at :: nat

definition new_client :: lock_client where
  "new_client = \<lparr>phase = Waiting, is_leader = False, renewed_at = 0\<rparr>"

definition try_acquire :: "'s lock_store \<Rightarrow> string \<Rightarrow> string \<Rightarrow> 's \<Rightarrow> bool \<times> 's" where
  "try_acquire L key identity s = ls_set_nx_ex L key identity LOCK_TTL_S s"

text \<open>One round of \<open>acquire_with_retry\<close>; on failure the instance sleeps \<open>RETRY_INTERVAL\<close>.\<close>

definition acquire_round :: "'s lock_store \<Rightarrow> string \<Rightarrow> string \<Rightarrow> lock_client \<Rightarrow> 's \<Rightarrow> lock_client \<times> 's" where
  "acquire_round L key identity c s =
     (case try_acquire L key identity s of
        (True, s') \<Rightarrow> (c\<lparr>is_leader := True, phase := Leading, renewed_at := ls_now L s\<rparr>, s')
      | (False, s') \<Rightarrow> (c, s'))"

text \<open>The two commands of one round of \<open>_renew_loop\<close>.\<close>

definition renew_check :: "'s lock_store \<Rightarrow> string \<Rightarrow> string \<Rightarrow> lock_client \<Rightarrow> 's \<Rightarrow> lock_client" where
  "renew_check L key identity c s =
     (if ls_get L key s \<noteq> Some identity then c\<lparr>is_leader := False, phase := Lost\<rparr>
      else c\<lparr>phase := Renewing\<rparr>)"

definition renew_expire :: "'s lock_store \<Rightarrow> string \<Rightarrow> lock_client \<Rightarrow> 's \<Rightarrow> lock_client \<times> 's" where
  "renew_expire L key c s =
     (c\<lparr>phase := Leading, renewed_at := ls_now L s\<rparr>, ls_expire L key LOCK_TTL_S s)"

text \<open>The commands of \<open>release\<close>, which first cancels the renewal wherever it stands.\<close>

definition release_check :: "'s lock_store \<Rightarrow> string \<Rightarrow> string \<Rightarrow> lock_client \<Rightarrow> 's \<Rightarrow> lock_client" where
  "release_check L key identity c s =
     (if is_leader c
      then if ls_get L key s = Some identity then c\<lparr>phase := Releasing\<rparr>
           else c\<lparr>is_leader := False, phase := Released\<rparr>
      else c\<lparr>phase := Released\<rparr>)"

definition release_delete :: "'s lock_store \<Rightarrow> string \<Rightarrow> lock_client \<Rightarrow> 's \<Rightarrow> lock_client \<times> 's" where
  "release_delete L key c s = (c\<lparr>is_leader := False, phase := Released\<rparr>, ls_delete L key s)"

section \<open>All instances of a service\<close>

record 's lock_system =
  store :: 's
  clients :: "string \<Rightarrow> lock_client"

datatype lock_event =
    Acquire string
  | RenewCheck string
  | RenewExpire string
  | ReleaseCheck string
  | ReleaseDelete string
  | Wait nat

definition set_client :: "string \<Rightarrow> lock_client \<times> 's \<Rightarrow> 's lock_system \<Rightarrow> 's lock_system" where
  "set_client i cs w = w\<lparr>clients := (clients w)(i := fst cs), store := snd cs\<rparr>"

fun lock_enabled :: "lock_event \<Rightarrow> 's lock_system \<Rightarrow> bool" where
  "lock_enabled (Acquire i) w = (phase (clients w i) = Waiting)"
| "lock_enabled (RenewCheck i) w = (phase (clients w i) = Leading)"
| "lock_enabled (RenewExpire i) w = (phase (clients w i) = Renewing)"
| "lock_enabled (ReleaseCheck i) w = (phase (clients w i) \<in> {Leading, Renewing, Lost})"
| "lock_enabled (ReleaseDelete i) w = (phase (clients w i) = Releasing)"
| "lock_enabled (Wait d) w = True"

fun lock_effect :: "'s lock_store \<Rightarrow> string \<Rightarrow> lock_event \<Rightarrow> 's lock_system \<Rightarrow> 's lock_system" where
  "lock_effect L key (Acquire i) w = set_client i (acquire_round L key i (clients w i) (store w)) w"
| "lock_effect L key (RenewCheck i) w = set_client i (renew_check L key i (clients w i) (store w), store w) w"
| "lock_effect L key (RenewExpire i) w = set_client i (renew_expire L key (clients w i) (store w)) w"
| "lock_effect L key (ReleaseCheck i) w = set_client i (release_check L key i (clients w i) (store w), store w) w"
| "lock_effect L key (ReleaseDelete i) w = set_client i (release_delete L key (clients w i) (store w)) w"
| "lock_effect L key (Wait d) w = w\<lparr>store := ls_wait L d (store w)\<rparr>"

text \<open>
  A run is timely with bound \<open>B\<close> when no instance that believes to lead lets more than \<open>B\<close>
  seconds pass since it last set or extended the lease.
\<close>

fun lock_timely :: "'s lock_store \<Rightarrow> nat \<Rightarrow> lock_event \<Rightarrow> 's lock_system \<Rightarrow> bool" where
  "lock_timely L B (Wait d) w =
     (\<forall>i. is_leader (clients w i) \<longrightarrow> ls_now L (store w) + d \<le> renewed_at (clients w i) + B)"
| "lock_timely L B _ w = True"

inductive lock_run ::
  "'s lock_store \<Rightarrow> string \<Rightarrow> (lock_event \<Rightarrow> 's lock_system \<Rightarrow> bool) \<Rightarrow> 's lock_system \<Rightarrow> lock_event list \<Rightarrow>
     's lock_system \<Rightarrow> bool" for L key ok where
  lock_done: "lock_run L key ok w [] w"
| lock_more: "lock_run L key ok w es w' \<Longrightarrow> lock_enabled e w' \<Longrightarrow> ok e w' \<Longrightarrow>
    lock_run L key ok w (es @ [e]) (lock_effect L key e w')"

definition fresh_system :: "'s \<Rightarrow> 's lock_system" where
  "fresh_system s = \<lparr>store = s, clients = (\<lambda>_. new_client)\<rparr>"

text \<open>A lease never outlives its time to live, whoever extends it, timely or not.\<close>

definition lease_bounded :: "'s lock_store \<Rightarrow> string \<Rightarrow> 's \<Rightarrow> bool" where
  "lease_bounded L key s \<longleftrightarrow> (ls_get L key s \<noteq> None \<longrightarrow> ls_deadline L key s \<le> ls_now L s + LOCK_TTL_S)"

section \<open>Mutual exclusion\<close>

text \<open>
  Whoever believes to lead holds the key, has set its deadline, and is in time; and only a
  phase of leading goes with the belief.
\<close>

definition client_inv :: "'s lock_store \<Rightarrow> string \<Rightarrow> nat \<Rightarrow> 's \<Rightarrow> string \<Rightarrow> lock_client \<Rightarrow> bool" where
  "client_inv L key B s i c \<longleftrightarrow>
     (is_leader c \<longleftrightarrow> phase c \<in> {Leading, Renewing, Releasing}) \<and>
     (is_leader c \<longrightarrow>
        ls_get L key s = Some i \<and> ls_deadline L key s = renewed_at c + LOCK_TTL_S \<and>
        ls_now L s \<le> renewed_at c + B)"

definition lock_inv :: "'s lock_store \<Rightarrow> string \<Rightarrow> nat \<Rightarrow> 's lock_system \<Rightarrow> bool" where
  "lock_inv L key B w \<longleftrightarrow> (\<forall>i. client_inv L key B (store w) i (clients w i))"

lemma client_inv_follower:
  "\<not> is_leader c \<Longrightarrow> client_inv L key B s i c \<longleftrightarrow> phase c \<notin> {Leading, Renewing, Releasing}"
  by (simp add: client_inv_def)

lemma lock_inv_set_client:
  assumes "client_inv L key B s i c" and "\<And>j. j \<noteq> i \<Longrightarrow> client_inv L key B s j (clients w j)"
  shows "lock_inv L key B (set_client i (c, s) w)"
  using assms by (simp add: lock_inv_def set_client_def)

lemma lock_inv_fresh: "lock_inv L key B (fresh_system s)"
  by (simp add: lock_inv_def client_inv_def fresh_system_def new_client_def)

lemma lock_invD:
  assumes "lock_inv L key B w" and "is_leader (clients w i)"
  shows "ls_get L key (store w) = Some i" and "ls_deadline L key (store w) = renewed_at (clients w i) + LOCK_TTL_S"
    and "ls_now L (store w) \<le> renewed_at (clients w i) + B" and "phase (clients w i) \<in> {Leading, Renewing, Releasing}"
  using assms unfolding lock_inv_def client_inv_def by blast+

lemma lock_inv_phase: "lock_inv L key B w \<Longrightarrow> phase (clients w i) \<in> {Leading, Renewing, Releasing} \<Longrightarrow> is_leader (clients w i)"
  unfolding lock_inv_def client_inv_def by blast

lemma lock_inv_others:
  assumes "lock_inv L key B w" and "is_leader (clients w i)" and "j \<noteq> i"
  shows "\<not> is_leader (clients w j)" and "client_inv L key B s j (clients w j)"
proof -
  show f: "\<not> is_leader (clients w j)"
    using lock_invD(1) [OF assms(1), of j] lock_invD(1) [OF assms(1,2)] assms(3) by auto
  from assms(1) have "client_inv L key B (store w) j (clients w j)" by (simp add: lock_inv_def)
  with f show "client_inv L key B s j (clients w j)" by (simp add: client_inv_follower)
qed

context expiring_store
begin

lemma acquire_round_cases:
  obtains (taken) "ls_get L key s \<noteq> None" "acquire_round L key i c s = (c, s)"
  | (free) s' where "ls_get L key s = None" "ls_get L key s' = Some i"
      "ls_deadline L key s' = ls_now L s + LOCK_TTL_S" "ls_now L s' = ls_now L s"
      "acquire_round L key i c s = (c\<lparr>is_leader := True, phase := Leading, renewed_at := ls_now L s\<rparr>, s')"
proof (cases "ls_get L key s = None")
  case True
  from set_free [OF True LOCK_TTL_S_pos, of i] True show thesis
    by (auto simp: acquire_round_def try_acquire_def intro!: free)
next
  case False
  with set_taken [OF False] show thesis by (intro taken) (simp_all add: acquire_round_def try_acquire_def)
qed

lemma lock_inv_step:
  assumes inv: "lock_inv L key B w" and en: "lock_enabled e w" and t: "lock_timely L B e w" and B: "B < LOCK_TTL_S"
  shows "lock_inv L key B (lock_effect L key e w)"
proof -
  have each: "client_inv L key B (store w) i (clients w i)" for i using inv by (simp add: lock_inv_def)
  show ?thesis
  proof (cases e)
    case (Acquire i)
    show ?thesis
    proof (cases rule: acquire_round_cases [of key "store w" i "clients w i"])
      case taken
      with inv show ?thesis by (simp add: Acquire set_client_def)
    next
      case (free s')
      then have f: "\<not> is_leader (clients w j)" for j using lock_invD(1) [OF inv, of j] by auto
      with each have "client_inv L key B s' j (clients w j)" for j by (simp add: client_inv_follower)
      with free show ?thesis
        by (simp only: Acquire lock_effect.simps) (rule lock_inv_set_client, simp_all add: client_inv_def)
    qed
  next
    case (RenewCheck i)
    with en lock_inv_phase [OF inv, of i] have l: "is_leader (clients w i)" by simp
    with lock_invD [OF inv l] have "client_inv L key B (store w) i (renew_check L key i (clients w i) (store w))"
      by (simp add: client_inv_def renew_check_def)
    then show ?thesis unfolding RenewCheck lock_effect.simps by (rule lock_inv_set_client) (rule each)
  next
    case (RenewExpire i)
    with en lock_inv_phase [OF inv, of i] have l: "is_leader (clients w i)" by simp
    show ?thesis unfolding RenewExpire lock_effect.simps renew_expire_def
    proof (rule lock_inv_set_client)
      show "client_inv L key B (ls_expire L key LOCK_TTL_S (store w)) i
          ((clients w i)\<lparr>phase := Leading, renewed_at := ls_now L (store w)\<rparr>)"
        using l lock_invD(1) [OF inv l] by (simp add: client_inv_def lock_store_simps)
    qed (rule lock_inv_others(2) [OF inv l])
  next
    case (ReleaseCheck i)
    with en each [of i] have "client_inv L key B (store w) i (release_check L key i (clients w i) (store w))"
      by (auto simp: client_inv_def release_check_def)
    then show ?thesis unfolding ReleaseCheck lock_effect.simps by (rule lock_inv_set_client) (rule each)
  next
    case (ReleaseDelete i)
    with en lock_inv_phase [OF inv, of i] have l: "is_leader (clients w i)" by simp
    show ?thesis unfolding ReleaseDelete lock_effect.simps release_delete_def
    proof (rule lock_inv_set_client)
      show "client_inv L key B (ls_delete L key (store w)) i ((clients w i)\<lparr>is_leader := False, phase := Released\<rparr>)"
        by (simp add: client_inv_def)
    qed (rule lock_inv_others(2) [OF inv l])
  next
    case (Wait d)
    have "client_inv L key B (ls_wait L d (store w)) i (clients w i)" for i
    proof (cases "is_leader (clients w i)")
      case True
      with t B lock_invD [OF inv True] show ?thesis by (auto simp: Wait client_inv_def lock_store_simps)
    next
      case False
      with each [of i] show ?thesis by (simp add: client_inv_follower)
    qed
    then show ?thesis by (simp add: Wait lock_inv_def)
  qed
qed

lemma lock_inv_run:
  "lock_run L key (lock_timely L B) w es w' \<Longrightarrow> B < LOCK_TTL_S \<Longrightarrow> lock_inv L key B w \<Longrightarrow> lock_inv L key B w'"
  by (induction rule: lock_run.induct) (auto intro: lock_inv_step)

lemma lease_bounded_step: "lease_bounded L key (store w) \<Longrightarrow> lease_bounded L key (store (lock_effect L key e w))"
proof (cases e)
  case (Acquire i)
  then show "lease_bounded L key (store w) \<Longrightarrow> ?thesis"
    by (cases rule: acquire_round_cases [of key "store w" i "clients w i"])
      (simp_all add: set_client_def lease_bounded_def)
next
  case (RenewExpire i)
  then show "lease_bounded L key (store w) \<Longrightarrow> ?thesis"
    by (cases "ls_get L key (store w)")
      (simp_all add: set_client_def renew_expire_def lease_bounded_def lock_store_simps)
next
  case (Wait d)
  then show "lease_bounded L key (store w) \<Longrightarrow> ?thesis"
    by (auto simp: lease_bounded_def lock_store_simps split: if_splits)
qed (simp_all add: set_client_def release_delete_def lease_bounded_def lock_store_simps)

lemma lease_bounded_run:
  "lock_run L key ok w es w' \<Longrightarrow> lease_bounded L key (store w) \<Longrightarrow> lease_bounded L key (store w')"
  by (induction rule: lock_run.induct) (simp_all add: lease_bounded_step)

lemma takeover:
  assumes "lease_bounded L key (store w)" and "phase (clients w i) = Waiting"
  shows "is_leader (clients (lock_effect L key (Acquire i) (lock_effect L key (Wait LOCK_TTL_S) w)) i)"
proof -
  have "ls_get L key (ls_wait L LOCK_TTL_S (store w)) = None"
    using assms(1) by (cases "ls_get L key (store w)") (auto simp: lease_bounded_def lock_store_simps)
  then show ?thesis
    by (cases rule: acquire_round_cases [of key "ls_wait L LOCK_TTL_S (store w)" i "clients w i"])
      (simp_all add: set_client_def)
qed

end

section \<open>The election it implements\<close>

text \<open>The abstract specification: one office, taken when vacant, held, and vacated.\<close>

inductive election_step :: "string option \<Rightarrow> string option \<Rightarrow> bool" where
  elect: "election_step None (Some i)"
| keep: "election_step a a"
| resign: "election_step (Some i) None"

definition leader_of :: "'s lock_store \<Rightarrow> string \<Rightarrow> 's lock_system \<Rightarrow> string option" where
  "leader_of L key w =
     (case ls_get L key (store w) of None \<Rightarrow> None
      | Some i \<Rightarrow> if is_leader (clients w i) then Some i else None)"

lemma leader_of_eq: "lock_inv L key B w \<Longrightarrow> leader_of L key w = Some i \<longleftrightarrow> is_leader (clients w i)"
  using lock_invD(1) [of L key B w i] by (auto simp: leader_of_def split: option.splits)

context expiring_store
begin

lemma belief_step:
  "is_leader (clients (lock_effect L key e w) j) \<Longrightarrow> is_leader (clients w j) \<or> ls_get L key (store w) = None"
proof (cases e)
  case (Acquire k)
  then show "is_leader (clients (lock_effect L key e w) j) \<Longrightarrow> ?thesis"
    by (cases rule: acquire_round_cases [of key "store w" k "clients w k"])
      (auto simp: set_client_def split: if_splits)
qed (auto simp: set_client_def renew_check_def renew_expire_def release_check_def release_delete_def split: if_splits)

lemma leader_refines:
  assumes inv: "lock_inv L key B w" and en: "lock_enabled e w" and t: "lock_timely L B e w" and B: "B < LOCK_TTL_S"
  shows "election_step (leader_of L key w) (leader_of L key (lock_effect L key e w))"
proof -
  let ?w = "lock_effect L key e w"
  have inv': "lock_inv L key B ?w" by (rule lock_inv_step [OF assms])
  have eq: "leader_of L key v = Some i \<longleftrightarrow> is_leader (clients v i)" if "lock_inv L key B v" for v i
    by (rule leader_of_eq [OF that])
  have get: "leader_of L key v = Some i \<Longrightarrow> ls_get L key (store v) = Some i" if "lock_inv L key B v" for v i
    using eq [OF that] lock_invD(1) [OF that] by blast
  show ?thesis
  proof (cases "leader_of L key w = None \<or> leader_of L key ?w = None \<or> leader_of L key ?w = leader_of L key w")
    case True
    then show ?thesis by (cases "leader_of L key w"; cases "leader_of L key ?w") (auto intro: election_step.intros)
  next
    case False
    then obtain i j where ij: "leader_of L key w = Some i" "leader_of L key ?w = Some j" by (metis not_Some_eq)
    with False have "i \<noteq> j" by auto
    from ij(2) eq [OF inv'] have "is_leader (clients w j) \<or> ls_get L key (store w) = None"
      by (intro belief_step) blast
    with get [OF inv ij(1)] eq [OF inv, of j] ij \<open>i \<noteq> j\<close> show ?thesis by auto
  qed
qed

lemma leader_refines_run:
  assumes "lock_run L key (lock_timely L B) w es w'" and "B < LOCK_TTL_S" and "lock_inv L key B w"
  shows "election_step\<^sup>*\<^sup>* (leader_of L key w) (leader_of L key w')"
  using assms
proof (induction rule: lock_run.induct)
  case (lock_more w es w' e)
  from lock_inv_run [OF lock_more.hyps(1) lock_more.prems] lock_more
  have "election_step (leader_of L key w') (leader_of L key (lock_effect L key e w'))" by (intro leader_refines) auto
  with lock_more show ?case by (meson rtranclp.rtrancl_into_rtrancl)
qed simp

end

section \<open>A store with expiry\<close>

record ttl_store =
  ttl_now :: nat
  ttl_data :: "(string \<times> string \<times> nat) list"

definition ttl_get :: "string \<Rightarrow> ttl_store \<Rightarrow> string option" where
  "ttl_get k s = (case map_of (ttl_data s) k of None \<Rightarrow> None | Some (v, d) \<Rightarrow> if ttl_now s < d then Some v else None)"

definition ttl_set_nx_ex :: "string \<Rightarrow> string \<Rightarrow> nat \<Rightarrow> ttl_store \<Rightarrow> bool \<times> ttl_store" where
  "ttl_set_nx_ex k v ttl s =
     (if ttl_get k s = None then (True, s\<lparr>ttl_data := (k, v, ttl_now s + ttl) # ttl_data s\<rparr>) else (False, s))"

definition ttl_expire :: "string \<Rightarrow> nat \<Rightarrow> ttl_store \<Rightarrow> ttl_store" where
  "ttl_expire k ttl s =
     (case ttl_get k s of None \<Rightarrow> s | Some v \<Rightarrow> s\<lparr>ttl_data := (k, v, ttl_now s + ttl) # ttl_data s\<rparr>)"

definition ttl_client :: "ttl_store lock_store" where
  "ttl_client = \<lparr>ls_now = ttl_now, ls_get = ttl_get, ls_set_nx_ex = ttl_set_nx_ex, ls_expire = ttl_expire,
     ls_delete = (\<lambda>k s. s\<lparr>ttl_data := AList.delete k (ttl_data s)\<rparr>),
     ls_wait = (\<lambda>d s. s\<lparr>ttl_now := ttl_now s + d\<rparr>),
     ls_deadline = (\<lambda>k s. case map_of (ttl_data s) k of None \<Rightarrow> 0 | Some (v, d) \<Rightarrow> d)\<rparr>"

interpretation ttl: expiring_store ttl_client
proof unfold_locales
  show "ls_get ttl_client k (ls_expire ttl_client k t s) = ls_get ttl_client k s" if "0 < t" for k s and t :: nat
    using that by (auto simp: ttl_client_def ttl_get_def ttl_expire_def split: option.splits if_splits prod.splits)
qed (auto simp: ttl_client_def ttl_get_def ttl_set_nx_ex_def ttl_expire_def delete_conv'
    split: option.splits if_splits prod.splits)

section \<open>Properties\<close>

text \<open>
  C7: at most one instance leads. If every instance that believes to lead renews within \<open>B\<close>
  seconds, for a \<open>B\<close> below the time to live of 15 (the code plans for 5), then over any
  interleaving of acquisitions, renewals and releases at most one believes so, and it holds
  the key.
\<close>

theorem single_leader:
  assumes "expiring_store L" and "lock_run L key (lock_timely L B) (fresh_system s) es w" and "B < LOCK_TTL_S"
    and "is_leader (clients w i)" and "is_leader (clients w j)"
  shows "i = j \<and> ls_get L key (store w) = Some i"
proof -
  have "lock_inv L key B w" by (rule expiring_store.lock_inv_run [OF assms(1,2,3) lock_inv_fresh])
  from lock_invD(1) [OF this assms(4)] lock_invD(1) [OF this assms(5)] show ?thesis by simp
qed

abbreviation lock_key :: string where
  "lock_key \<equiv> leader_lock_key ''controller''"

definition ttl_empty :: ttl_store where
  "ttl_empty = \<lparr>ttl_now = 100, ttl_data = []\<rparr>"

text \<open>Runs as executions: the events one after the other, while each is enabled and in time.\<close>

fun exec_lock ::
  "'s lock_store \<Rightarrow> string \<Rightarrow> (lock_event \<Rightarrow> 's lock_system \<Rightarrow> bool) \<Rightarrow> lock_event list \<Rightarrow> 's lock_system \<Rightarrow>
     's lock_system option" where
  "exec_lock L key ok [] w = Some w"
| "exec_lock L key ok (e # es) w =
     (if lock_enabled e w \<and> ok e w then exec_lock L key ok es (lock_effect L key e w) else None)"

lemma exec_lock_append:
  "exec_lock L key ok (es @ [e]) w =
     (case exec_lock L key ok es w of None \<Rightarrow> None
      | Some w' \<Rightarrow> if lock_enabled e w' \<and> ok e w' then Some (lock_effect L key e w') else None)"
  by (induction es arbitrary: w) (auto split: option.splits)

lemma exec_lock_run: "exec_lock L key ok es w = Some w' \<Longrightarrow> lock_run L key ok w es w'"
proof (induction es arbitrary: w' rule: rev_induct)
  case (snoc e es)
  then show ?case by (auto simp: exec_lock_append intro: lock_more split: option.splits if_splits)
qed (simp add: lock_done)

lemmas exec_lock_simps = lock_timely.simps ttl_empty_def fresh_system_def new_client_def set_client_def
  acquire_round_def try_acquire_def renew_check_def renew_expire_def release_check_def release_delete_def
  ttl_client_def ttl_get_def ttl_set_nx_ex_def ttl_expire_def LOCK_TTL_S_def

text \<open>Instance \<open>a\<close> acquires, \<open>b\<close> fails to, \<open>a\<close> renews after five seconds and leads on.\<close>

definition renewed_run :: "lock_event list" where
  "renewed_run = [Acquire ''a'', Acquire ''b'', Wait 5, RenewCheck ''a'', RenewExpire ''a'', Wait 6]"

lemma renewed_run_exec:
  "\<exists>w. exec_lock ttl_client lock_key (lock_timely ttl_client 6) renewed_run (fresh_system ttl_empty) = Some w \<and>
     is_leader (clients w ''a'') \<and> phase (clients w ''b'') = Waiting"
  by (simp add: renewed_run_def exec_lock_simps)

lemma single_leader_witness:
  "\<exists>w. lock_run ttl_client lock_key (lock_timely ttl_client 6) (fresh_system ttl_empty) renewed_run w \<and>
     (\<forall>i. is_leader (clients w i) \<longleftrightarrow> i = ''a'')"
proof -
  obtain w where r: "lock_run ttl_client lock_key (lock_timely ttl_client 6) (fresh_system ttl_empty) renewed_run w"
    and a: "is_leader (clients w ''a'')"
    using renewed_run_exec exec_lock_run by blast
  have "6 < LOCK_TTL_S" by (simp add: LOCK_TTL_S_def)
  from single_leader [OF ttl.expiring_store_axioms r this _ a] a r show ?thesis by blast
qed





text \<open>
  The hypothesis on time is needed, because \<open>release\<close> is a \<open>GET\<close> and a \<open>DEL\<close>: an
  instance that is delayed between the two deletes the lease another one has acquired
  meanwhile, and a third instance leads beside the second.
\<close>

lemma late_release_two_leaders:
  "\<exists>w. lock_run ttl_client lock_key (\<lambda>_ _. True) (fresh_system ttl_empty)
       [Acquire ''a'', ReleaseCheck ''a'', Wait 15, Acquire ''b'', ReleaseDelete ''a'', Acquire ''c''] w \<and>
     is_leader (clients w ''b'') \<and> is_leader (clients w ''c'') \<and> phase (clients w ''b'') = Leading"
proof -
  have "\<exists>w. exec_lock ttl_client lock_key (\<lambda>_ _. True)
       [Acquire ''a'', ReleaseCheck ''a'', Wait 15, Acquire ''b'', ReleaseDelete ''a'', Acquire ''c''] (fresh_system ttl_empty) = Some w \<and>
     is_leader (clients w ''b'') \<and> is_leader (clients w ''c'') \<and> phase (clients w ''b'') = Leading"
    by (simp add: exec_lock_simps)
  then show ?thesis using exec_lock_run by blast
qed

section \<open>Identities and the context manager\<close>

definition identity :: "string \<Rightarrow> nat \<Rightarrow> string" where
  "identity hostname pid = hostname @ '':'' @ str_of_nat pid"

text \<open>Two processes share an identity only if they share the host name and the process number.\<close>

lemma identity_inject: "identity h p = identity h' p' \<longleftrightarrow> h = h' \<and> p = p'"
proof
  assume eq: "identity h p = identity h' p'"
  define P :: "char \<Rightarrow> bool" where "P = (\<lambda>c. c \<noteq> CHR '':'')"
  have "CHR '':'' \<notin> set decimal_digits" by (simp add: decimal_digits_def)
  then have "CHR '':'' \<notin> set (str_of_nat n)" for n using set_str_of_nat [of n] by blast
  then have all: "\<forall>c\<in>set (rev (str_of_nat n)). P c" for n by (auto simp: P_def)
  have "takeWhile P (rev (identity g n)) = rev (str_of_nat n)" "dropWhile P (rev (identity g n)) = CHR '':'' # rev g" for g n
    using all [of n] by (simp_all add: identity_def takeWhile_append dropWhile_append P_def)
  then have "rev (str_of_nat p) = rev (str_of_nat p')" "CHR '':'' # rev h = CHR '':'' # rev h'"
    by (metis eq)+
  then show "h = h' \<and> p = p'" by (simp add: str_of_nat_inject)
qed simp

text \<open>
  \<open>async with LeaderLock(...) as lock\<close>: one attempt, and a release, whose two commands run one after the
  other here.
\<close>

definition lock_enter :: "'s lock_store \<Rightarrow> string \<Rightarrow> string \<Rightarrow> lock_client \<Rightarrow> 's \<Rightarrow> lock_client \<times> 's" where
  "lock_enter L key i c s =
     (case try_acquire L key i s of
        (True, s') \<Rightarrow> (c\<lparr>is_leader := True, phase := Leading, renewed_at := ls_now L s\<rparr>, s')
      | (False, s') \<Rightarrow> (c\<lparr>is_leader := False\<rparr>, s'))"

definition release :: "'s lock_store \<Rightarrow> string \<Rightarrow> string \<Rightarrow> lock_client \<Rightarrow> 's \<Rightarrow> lock_client \<times> 's" where
  "release L key i c s =
     (let c1 = release_check L key i c s
      in if phase c1 = Releasing then release_delete L key c1 s else (c1, s))"

text \<open>
  Whoever finds the key taken enters without leading and leaves it alone; whoever finds it free leads,
  and leaves it free, unless it has lost it.
\<close>

lemma enter_and_exit:
  assumes "expiring_store L" and "lock_enter L key i new_client s = (c, s1)" and "release L key i c s1 = (c', s2)"
  shows "(if ls_get L key s = None then is_leader c \<and> ls_get L key s1 = Some i \<and> ls_get L key s2 = None
    else \<not> is_leader c \<and> s2 = s) \<and> \<not> is_leader c'"
proof (cases "ls_get L key s = None")
  case True
  from expiring_store.set_free [OF assms(1) True, of LOCK_TTL_S i] True assms(2,3) expiring_store.get_delete [OF assms(1)]
  show ?thesis by (auto simp: lock_enter_def try_acquire_def release_def Let_def release_check_def release_delete_def)
next
  case False
  with expiring_store.set_taken [OF assms(1) False] assms(2,3) show ?thesis
    by (auto simp: lock_enter_def try_acquire_def release_def Let_def release_check_def new_client_def)
qed

end
