(* ===== verification/Singleton.thy ===== *)
theory Singleton
  imports Watchdog Leader_Lock
begin

text \<open>
  The \<open>run\<close> functions of \<^verbatim>\<open>controller/app/main.py\<close> and \<^verbatim>\<open>watchdog/app/main.py\<close>: a singleton
  service waits for its lock, works while its main loop runs, and releases the lock. The lemmas
  show that in timely runs only the holder of the lock decides anything, what the two services do
  beyond the lock, and what is left of an action that a shutdown interrupts.
\<close>

section \<open>Instances of a service\<close>

text \<open>
  The main loop starts when \<open>acquire_with_retry\<close> returns and has ended when \<open>release\<close> is called;
  that the lock is lost is not told to it.
\<close>

definition in_main_loop :: "lock_client \<Rightarrow> bool" where
  "in_main_loop c \<longleftrightarrow> phase c \<in> {Leading, Renewing, Lost}"

text \<open>
  All instances, with the tasks each has created and not finished (\<open>queued\<close>) and what they work
  on. \<open>Perform\<close> is a step of the main loop itself, as every check of the watchdog is; \<open>Queue\<close> is
  the creation of a task by a loop of the controller, and \<open>RunQueued\<close> that task, which the event
  loop runs whenever it likes until the process exits. \<open>work\<close> says what a step does.
\<close>

record ('s, 'op, 'x) service =
  elected :: "'s lock_system"
  queued :: "string \<Rightarrow> 'op list"
  shared :: 'x

datatype 'op service_event =
    Elect lock_event
  | Perform string 'op
  | Queue string 'op
  | RunQueued string 'op
  | Exit string

fun service_enabled :: "'op service_event \<Rightarrow> ('s, 'op, 'x) service \<Rightarrow> bool" where
  "service_enabled (Elect e) w = lock_enabled e (elected w)"
| "service_enabled (Perform i op) w = in_main_loop (clients (elected w) i)"
| "service_enabled (Queue i op) w = in_main_loop (clients (elected w) i)"
| "service_enabled (RunQueued i op) w = (op \<in> set (queued w i))"
| "service_enabled (Exit i) w = (phase (clients (elected w) i) = Released)"

fun service_effect ::
  "'s lock_store \<Rightarrow> string \<Rightarrow> ('op \<Rightarrow> 'x \<Rightarrow> 'x) \<Rightarrow> 'op service_event \<Rightarrow> ('s, 'op, 'x) service \<Rightarrow>
     ('s, 'op, 'x) service" where
  "service_effect L key work (Elect e) w = w\<lparr>elected := lock_effect L key e (elected w)\<rparr>"
| "service_effect L key work (Perform i op) w = w\<lparr>shared := work op (shared w)\<rparr>"
| "service_effect L key work (Queue i op) w = w\<lparr>queued := (queued w)(i := queued w i @ [op])\<rparr>"
| "service_effect L key work (RunQueued i op) w =
     w\<lparr>queued := (queued w)(i := remove1 op (queued w i)), shared := work op (shared w)\<rparr>"
| "service_effect L key work (Exit i) w = w\<lparr>queued := (queued w)(i := [])\<rparr>"

fun service_timely :: "'s lock_store \<Rightarrow> nat \<Rightarrow> 'op service_event \<Rightarrow> ('s, 'op, 'x) service \<Rightarrow> bool" where
  "service_timely L B (Elect e) w = lock_timely L B e (elected w)"
| "service_timely L B _ w = True"

definition fresh_service :: "'s \<Rightarrow> 'x \<Rightarrow> ('s, 'op, 'x) service" where
  "fresh_service s x = \<lparr>elected = fresh_system s, queued = (\<lambda>_. []), shared = x\<rparr>"

fun exec_service ::
  "'s lock_store \<Rightarrow> string \<Rightarrow> ('op \<Rightarrow> 'x \<Rightarrow> 'x) \<Rightarrow> ('op service_event \<Rightarrow> ('s, 'op, 'x) service \<Rightarrow> bool) \<Rightarrow>
     'op service_event list \<Rightarrow> ('s, 'op, 'x) service \<Rightarrow> ('s, 'op, 'x) service option" where
  "exec_service L key work ok [] w = Some w"
| "exec_service L key work ok (e # es) w =
     (if service_enabled e w \<and> ok e w then exec_service L key work ok es (service_effect L key work e w) else None)"

text \<open>What the two services do in a step.\<close>

definition controller_work ::
  "('r, 'v, 'k, 'a, 'c) tm_env \<Rightarrow> string \<Rightarrow> ('r, 'k, 'a, 'c) tm_world \<Rightarrow> ('r, 'k, 'a, 'c) tm_world" where
  "controller_work E pid w = snd (act E pid w)"

definition watchdog_work ::
  "('r, 'v, 'k, 'a, 'c) tm_env \<Rightarrow> ('r, 'k, 'a, 'c) tm_world watchdog_env \<Rightarrow> string \<Rightarrow>
     ('r, 'k, 'a, 'c) tm_world \<Rightarrow> ('r, 'k, 'a, 'c) tm_world" where
  "watchdog_work E W pid w = snd (watchdog_check E W pid w)"

section \<open>How the services end\<close>

text \<open>
  The controller waits for the first of three tasks. The others are cancelled; then the first
  error among the finished ones, in the order in which the set yields them, is raised. The lock
  is released either way.
\<close>

datatype main_task = PubsubListener | ReconcileLoop | StopSignal

fun controller_end :: "(main_task \<times> exn option) list \<Rightarrow> unit result" where
  "controller_end [] = Inr ()"
| "controller_end ((t, Some e) # done_tasks) = Inl e"
| "controller_end ((t, None) # done_tasks) = controller_end done_tasks"

text \<open>
  The watchdog's loop: per round whether the stop is set when it is tested, and the time of the
  check. The loop sleeps between the test and the pass.
\<close>

fun watchdog_loop ::
  "('r, 'v, 'k, 'a, 'c) tm_env \<Rightarrow> (bool \<times> ('r, 'k, 'a, 'c) tm_world watchdog_env) list \<Rightarrow>
     ('r, 'k, 'a, 'c) tm_world \<Rightarrow> ('r, 'k, 'a, 'c) tm_world" where
  "watchdog_loop E [] w = w"
| "watchdog_loop E ((stopped, W) # rounds) w = (if stopped then w else watchdog_loop E rounds (watchdog_pass E W w))"

section \<open>An action up to its call of the runtime\<close>

datatype act_call = Launch pipeline_config pipeline_state | Halt pipeline_config pipeline_state

text \<open>What \<open>_act\<close> does before it awaits the runtime, and from there on.\<close>

definition act_begin ::
  "('r, 'v, 'k, 'a, 'c) tm_env \<Rightarrow> string \<Rightarrow> (('r, 'k, 'a, 'c) tm_world, act_call option) io" where
  "act_begin E pid =
     bind_io (on_redis (get_state (tm_redis_client E) pid)) (\<lambda>found.
     bind_io (on_redis (get_config (tm_redis_client E) pid)) (\<lambda>config.
       case (found, config) of
         (Some s, Some c) \<Rightarrow>
           (case desired_state s of
              DESIRED_RUNNING \<Rightarrow>
                if status s \<in> {RUNNING, STARTING} then ret_io None
                else bind_io (set_state E pid (no_update\<lparr>set_status := Some STARTING, set_error := Some []\<rparr>))
                       (\<lambda>_. ret_io (Some (Launch c s)))
            | DESIRED_STOPPED \<Rightarrow>
                if status s \<in> set ALREADY_STOPPED then ret_io None
                else bind_io (set_state E pid (no_update\<lparr>set_status := Some STOPPING\<rparr>))
                       (\<lambda>_. ret_io (Some (Halt c s))))
       | _ \<Rightarrow> ret_io None))"

fun act_finish ::
  "('r, 'v, 'k, 'a, 'c) tm_env \<Rightarrow> string \<Rightarrow> act_call \<Rightarrow> (('r, 'k, 'a, 'c) tm_world, unit) io" where
  "act_finish E pid (Launch c s) =
     bind_io
       (catch_io
         (bind_io (on_runtime (rt_start (tm_adapter E) c s)) (\<lambda>names.
            set_state E pid (no_update\<lparr>set_status := Some STARTING, set_producer := Some (Some (fst names)),
              set_consumer := Some (Some (snd names))\<rparr>)))
         (\<lambda>e. set_state E pid (no_update\<lparr>set_desired := Some DESIRED_STOPPED,
              set_status := Some FAILED, set_error := Some (exn_str e)\<rparr>)))
       (\<lambda>_. ret_io ())"
| "act_finish E pid (Halt c s) =
     bind_io
       (catch_io
         (bind_io (on_runtime (rt_stop (tm_adapter E) c s)) (\<lambda>_.
            set_state E pid (no_update\<lparr>set_status := Some STOPPED, set_producer := Some None,
              set_consumer := Some None\<rparr>)))
         (\<lambda>e. set_state E pid (no_update\<lparr>set_status := Some FAILED, set_error := Some (exn_str e)\<rparr>)))
       (\<lambda>_. ret_io ())"

text \<open>
  An action cancelled while it awaits the runtime: \<open>CancelledError\<close> is no \<open>Exception\<close>, so that
  no handler runs. \<open>touch\<close> is what the runtime has done by then.
\<close>

definition cancelled_act ::
  "('r, 'v, 'k, 'a, 'c) tm_env \<Rightarrow> ('k \<Rightarrow> 'k) \<Rightarrow> string \<Rightarrow> ('r, 'k, 'a, 'c) tm_world \<Rightarrow>
     ('r, 'k, 'a, 'c) tm_world" where
  "cancelled_act E touch pid w =
     (case act_begin E pid w of
        (Inr (Some call), w') \<Rightarrow> w'\<lparr>tm_runtime := touch (tm_runtime w')\<rparr>
      | (_, w') \<Rightarrow> w')"

lemma act_begin_finish:
  "act E pid = bind_io (act_begin E pid) (\<lambda>call. case call of None \<Rightarrow> ret_io () | Some x \<Rightarrow> act_finish E pid x)"
  by (rule ext)
    (simp add: act_def act_begin_def bind_io_def ret_io_def split: option.split desired_state.split sum.split prod.split)

section \<open>Who decides\<close>

definition none_lost :: "'s lock_system \<Rightarrow> bool" where
  "none_lost w \<longleftrightarrow> (\<forall>i. phase (clients w i) \<noteq> Lost)"

lemma none_lost_step:
  assumes "lock_inv L key B w" and "lock_enabled e w" and "none_lost w"
  shows "none_lost (lock_effect L key e w)"
  using assms lock_inv_phase [OF assms(1)] lock_invD(1) [OF assms(1)]
  by (cases e)
    (auto simp: none_lost_def set_client_def acquire_round_def renew_check_def renew_expire_def release_check_def
      release_delete_def split: prod.split bool.split)

definition service_inv :: "'s lock_store \<Rightarrow> string \<Rightarrow> nat \<Rightarrow> ('s, 'op, 'x) service \<Rightarrow> bool" where
  "service_inv L key B w \<longleftrightarrow> lock_inv L key B (elected w) \<and> none_lost (elected w)"

lemma service_inv_fresh: "service_inv L key B (fresh_service s x)"
  using lock_inv_fresh [of L key B s]
  by (simp add: service_inv_def fresh_service_def none_lost_def fresh_system_def new_client_def)

lemma service_inv_step:
  assumes "expiring_store L" and "service_inv L key B w" and "service_enabled e w" and "service_timely L B e w"
    and "B < LOCK_TTL_S"
  shows "service_inv L key B (service_effect L key work e w)"
  using assms expiring_store.lock_inv_step [OF assms(1)] none_lost_step by (cases e) (auto simp: service_inv_def)

lemma service_inv_exec:
  assumes "expiring_store L" and "B < LOCK_TTL_S"
  shows "service_inv L key B w \<Longrightarrow> exec_service L key work (service_timely L B) es w = Some w' \<Longrightarrow>
    service_inv L key B w'"
proof (induction es arbitrary: w)
  case (Cons e es)
  from Cons.prems(2) have e: "service_enabled e w" "service_timely L B e w"
    "exec_service L key work (service_timely L B) es (service_effect L key work e w) = Some w'"
    by (simp_all split: if_splits)
  from service_inv_step [OF assms(1) Cons.prems(1) e(1,2) assms(2)] e(3) show ?case by (rule Cons.IH)
qed simp

lemma main_loop_holds:
  assumes "service_inv L key B w" and "in_main_loop (clients (elected w) i)"
  shows "is_leader (clients (elected w) i)" and "ls_get L key (store (elected w)) = Some i"
proof -
  from assms show l: "is_leader (clients (elected w) i)"
    by (auto simp: service_inv_def none_lost_def in_main_loop_def intro: lock_inv_phase)
  from assms(1) show "ls_get L key (store (elected w)) = Some i"
    by (intro lock_invD(1) [OF _ l, of L key B]) (simp add: service_inv_def)
qed

text \<open>
  C9: One instance decides. As long as every instance that believes to lead renews within \<open>B\<close>
  seconds, for a \<open>B\<close> below the time to live, an instance that performs a step of its main loop or
  queues a task holds the lock at that moment and knows it, and no other instance can do either;
  over any interleaving with the tasks, the lock and the exits of the others.
\<close>

theorem one_instance_decides:
  assumes "expiring_store L" and "B < LOCK_TTL_S"
    and "exec_service L key work (service_timely L B) es (fresh_service s x) = Some w"
    and "service_enabled (Perform i op) w \<or> service_enabled (Queue i op) w"
  shows "is_leader (clients (elected w) i) \<and> ls_get L key (store (elected w)) = Some i \<and>
    (\<forall>j op'. service_enabled (Perform j op') w \<or> service_enabled (Queue j op') w \<longrightarrow> j = i)"
proof -
  have "service_inv L key B w" by (rule service_inv_exec [OF assms(1,2) service_inv_fresh assms(3)])
  note holds = main_loop_holds [OF this]
  from assms(4) have i: "in_main_loop (clients (elected w) i)" by auto
  have "j = i" if "in_main_loop (clients (elected w) j)" for j
    using holds(2) [OF i] holds(2) [OF that] by simp
  then have "\<forall>j op'. service_enabled (Perform j op') w \<or> service_enabled (Queue j op') w \<longrightarrow> j = i"
    unfolding service_enabled.simps by blast
  with holds [OF i] show ?thesis by blast
qed

section \<open>What the lock does not cover\<close>

lemmas exec_service_simps = exec_lock_simps fresh_service_def in_main_loop_def

text \<open>
  The controller's tasks do: they are neither awaited nor cancelled before the release, so that
  in a timely run the task of \<open>a\<close> can run while \<open>b\<close> leads and has queued the same pipeline.
\<close>

lemma queued_action_outlives_the_lock:
  "\<exists>w. exec_service ttl_client lock_key work (service_timely ttl_client 6)
       [Elect (Acquire ''a''), Queue ''a'' pid, Elect (ReleaseCheck ''a''), Elect (ReleaseDelete ''a''),
        Elect (Acquire ''b''), Queue ''b'' pid] (fresh_service ttl_empty x) = Some w \<and>
     service_enabled (RunQueued ''a'' pid) w \<and> service_enabled (RunQueued ''b'' pid) w \<and>
     ls_get ttl_client lock_key (store (elected w)) = Some ''b''"
  by (simp add: exec_service_simps)

text \<open>
  Nor does a lost lock end a main loop: without renewals in time, \<open>a\<close> has been told that it
  does not lead any more and works on beside \<open>b\<close>.
\<close>

lemma lost_lock_still_works:
  "\<exists>w. exec_service ttl_client lock_key work (\<lambda>_ _. True)
       [Elect (Acquire ''a''), Elect (Wait 15), Elect (Acquire ''b''), Elect (RenewCheck ''a'')]
       (fresh_service ttl_empty x) = Some w \<and>
     \<not> is_leader (clients (elected w) ''a'') \<and> service_enabled (Perform ''a'' op) w \<and>
     is_leader (clients (elected w) ''b'') \<and> service_enabled (Perform ''b'' op) w"
  by (simp add: exec_service_simps)

text \<open>A stop that arrives while the watchdog sleeps lets one more pass run.\<close>

lemma watchdog_stops_after_the_pass:
  "watchdog_loop E ((False, W) # (True, W') # rounds) w = watchdog_pass E W w"
  by simp

lemma one_instance_decides_witness:
  "\<exists>w. exec_service ttl_client lock_key (watchdog_work bare_env sample_watch) (service_timely ttl_client 6)
       [Elect (Acquire ''a''), Elect (Acquire ''b''), Perform ''a'' ''p1'', Elect (Wait 5), Elect (RenewCheck ''a'')]
       (fresh_service ttl_empty (sample_world DESIRED_RUNNING)) = Some w \<and>
     (\<forall>j op. service_enabled (Perform j op) w \<or> service_enabled (Queue j op) w \<longrightarrow> j = ''a'')"
proof -
  have "\<exists>w. exec_service ttl_client lock_key (watchdog_work bare_env sample_watch) (service_timely ttl_client 6)
       [Elect (Acquire ''a''), Elect (Acquire ''b''), Perform ''a'' ''p1'', Elect (Wait 5), Elect (RenewCheck ''a'')]
       (fresh_service ttl_empty (sample_world DESIRED_RUNNING)) = Some w \<and> service_enabled (Perform ''a'' ''p1'') w"
    by (simp add: exec_service_simps)
  then obtain w where w: "exec_service ttl_client lock_key (watchdog_work bare_env sample_watch) (service_timely ttl_client 6)
       [Elect (Acquire ''a''), Elect (Acquire ''b''), Perform ''a'' ''p1'', Elect (Wait 5), Elect (RenewCheck ''a'')]
       (fresh_service ttl_empty (sample_world DESIRED_RUNNING)) = Some w" "service_enabled (Perform ''a'' ''p1'') w"
    by blast
  have "6 < LOCK_TTL_S" by (simp add: LOCK_TTL_S_def)
  from one_instance_decides [OF ttl.expiring_store_axioms this w(1), of "''a''" "''p1''"] w show ?thesis by blast
qed

section \<open>Interrupted actions\<close>

text \<open>
  C18: A shutdown in the middle of an action strands its pipeline. When a process exits while an
  action awaits the runtime, the state stays starting, or stopping, with the wish it had, whatever
  the runtime has done by then and does later; and then neither an action of the next controller
  nor the reconcile loop nor a check of the watchdog changes anything about it.
\<close>

theorem shutdown_strands_the_pipeline:
  assumes R: "redis_store (tm_redis_client E)" and rec: "has_record E w c s" and needs: "needs_action s"
    and w': "w' = (cancelled_act E touch (pipeline_id c) w)\<lparr>tm_runtime := k\<rparr>"
  shows "\<exists>s'. has_record E w' c s' \<and> desired_state s' = desired_state s \<and>
    status s' = (if desired_state s = DESIRED_RUNNING then STARTING else STOPPING) \<and>
    act E (pipeline_id c) w' = (Inr (), w') \<and> pipeline_id c \<notin> set (reconcile_pass E busy w') \<and>
    watchdog_check E W (pipeline_id c) w' = (Inr (), w')"
proof -
  let ?u = "if desired_state s = DESIRED_RUNNING then no_update\<lparr>set_status := Some STARTING, set_error := Some []\<rparr>
    else no_update\<lparr>set_status := Some STOPPING\<rparr>"
  obtain s' w1 where s': "set_state E (pipeline_id c) ?u w = (Inr s', w1)"
    "s' = (apply_update ?u s)\<lparr>updated_at := updated_at s'\<rparr>" "has_record E w1 c s'"
    "only_state E (pipeline_id c) w w1" "tm_runtime w1 = tm_runtime w" "tm_platform w1 = tm_platform w"
    by (rule set_state_found [OF R rec refl])
  have "act_begin E (pipeline_id c) w =
      (Inr (Some (if desired_state s = DESIRED_RUNNING then Launch c s else Halt c s)), w1)"
    using rec needs s'(1)
    by (cases "desired_state s")
      (auto simp: act_begin_def has_record_def bind_io_def ret_io_def needs_action_def IDLE_def)
  then have w1: "w' = w1\<lparr>tm_runtime := k\<rparr>" by (simp add: w' cancelled_act_def)
  have fields: "desired_state s' = desired_state s"
    "status s' = (if desired_state s = DESIRED_RUNNING then STARTING else STOPPING)"
    using stamped [OF s'(2)] by (simp_all add: no_update_def)
  have r: "has_record E w' c s'" using s'(3) by (simp add: w1)
  have "act E (pipeline_id c) w' = (Inr (), w')"
    by (rule act_settled [OF r]) (simp add: fields ALREADY_STOPPED_def)
  moreover have "calm E w' (pipeline_id c)"
    using r fields by (cases "desired_state s") (auto simp: calm_def has_record_def needs_action_def IDLE_def ALREADY_STOPPED_def)
  then have "pipeline_id c \<notin> set (reconcile_pass E busy w')"
    using reconcile_scan_sound [of "pipeline_id c" E busy w'] unfolding reconcile_pass_def by blast
  moreover have "watchdog_check E W (pipeline_id c) w' = (Inr (), w')"
    using fields by (cases "desired_state s") (auto simp: watchdog_check_eq [OF r] supervised_def)
  ultimately show ?thesis using r fields by blast
qed

lemma shutdown_strands_the_pipeline_witness:
  "\<exists>s'. has_record bare_env (cancelled_act bare_env id ''p1'' (sample_world DESIRED_RUNNING)\<lparr>tm_runtime := []\<rparr>)
       sample_config s' \<and> status s' = STARTING"
proof -
  have R: "redis_store (tm_redis_client bare_env)" using sample_redis [of True] by (simp add: bare_env_def)
  from shutdown_strands_the_pipeline [OF R bare_record [of DESIRED_RUNNING] sample_needs_start refl]
  obtain s' where s': "has_record bare_env (cancelled_act bare_env id (pipeline_id sample_config)
      (sample_world DESIRED_RUNNING)\<lparr>tm_runtime := []\<rparr>) sample_config s'"
    "status s' = (if desired_state ((idle_state ''p1'')\<lparr>desired_state := DESIRED_RUNNING\<rparr>) = DESIRED_RUNNING
       then STARTING else STOPPING)"
    by blast
  then show ?thesis by auto
qed

end
