(* ===== verification/Docker_Runtime.thy ===== *)
theory Docker_Runtime
  imports Runtime
begin

text \<open>
  \<open>DockerRuntimeAdapter\<close> of \<^verbatim>\<open>common/app_common/runtime/docker_runtime.py\<close>, over the calls it makes
  to the Docker daemon. The lemmas discharge the contract of an adapter for pipelines whose
  container names differ, and show that the names of different pipelines may not.
\<close>

section \<open>The daemon\<close>

record docker_run =
  run_image :: string
  run_name :: string
  run_env :: "(string \<times> string) list"
  run_network :: string
  run_restart_policy :: "string \<times> int"
  run_labels :: "(string \<times> string) list"

text \<open>
  The calls on \<open>docker.from_env().containers\<close> and on a container, which is an \<open>'i\<close>; a client
  that cannot be made fails in the call that needs it.
\<close>

record ('d, 'i) docker_api =
  d_get :: "string \<Rightarrow> ('d, 'i) io"
  d_remove :: "'i \<Rightarrow> ('d, unit) io"
  d_stop :: "'i \<Rightarrow> ('d, unit) io"
  d_status :: "'i \<Rightarrow> ('d, string) io"
  d_logs :: "'i \<Rightarrow> int \<Rightarrow> ('d, string) io"
  d_run :: "docker_run \<Rightarrow> ('d, unit) io"
  d_decode :: "string \<Rightarrow> string"

text \<open>
  \<open>conts d n\<close> is the container of name \<open>n\<close> and whether it runs. A call changes no container but
  its own, whatever it returns or raises.
\<close>

locale docker_daemon =
  fixes D :: "('d, 'i) docker_api" and conts :: "'d \<Rightarrow> string \<Rightarrow> ('i \<times> bool) option"
  assumes get_same: "d_get D n d = (r1, d') \<Longrightarrow> conts d' = conts d"
    and get_found: "d_get D n d = (Inr i, d') \<Longrightarrow> \<exists>b. conts d n = Some (i, b)"
    and get_absent: "d_get D n d = (Inl (DockerNotFound m), d') \<Longrightarrow> conts d n = None"
    and unique: "conts d n = Some (i, b) \<Longrightarrow> conts d n' = Some (i, b') \<Longrightarrow> n = n'"
    and remove_other: "d_remove D i d = (r2, d') \<Longrightarrow> (\<And>b. conts d n \<noteq> Some (i, b)) \<Longrightarrow> conts d' n = conts d n"
    and remove_gone: "d_remove D i d = (r2, d') \<Longrightarrow> r2 = Inr () \<or> r2 = Inl (DockerNotFound m) \<Longrightarrow>
      conts d n = Some (i, b) \<Longrightarrow> conts d' n = None"
    and stop_other: "d_stop D i d = (r2, d') \<Longrightarrow> (\<And>b. conts d n \<noteq> Some (i, b)) \<Longrightarrow> conts d' n = conts d n"
    and stop_down: "d_stop D i d = (Inr (), d') \<Longrightarrow> conts d n = Some (i, b) \<Longrightarrow> conts d' n = Some (i, False)"
    and stop_absent: "d_stop D i d = (Inl (DockerNotFound m), d') \<Longrightarrow> conts d n = Some (i, b) \<Longrightarrow> conts d' n = None"
    and run_up: "d_run D x d = (Inr (), d') \<Longrightarrow> \<exists>i. conts d' (run_name x) = Some (i, True)"
    and run_other: "d_run D x d = (r2, d') \<Longrightarrow> n \<noteq> run_name x \<Longrightarrow> conts d' n = conts d n"

section \<open>The adapter\<close>

definition cname :: "string \<Rightarrow> string \<Rightarrow> string" where
  "cname role pid = ''dp-'' @ role @ ''-'' @ replace_char CHR ''_'' CHR ''-'' (replace_char CHR ''.'' CHR ''-'' pid)"

text \<open>\<open>except NotFound\<close>.\<close>

definition on_not_found :: "('d, 'a) io \<Rightarrow> 'a \<Rightarrow> ('d, 'a) io" where
  "on_not_found m a = catch_io m (\<lambda>e. case e of DockerNotFound _ \<Rightarrow> ret_io a | _ \<Rightarrow> raise_io e)"

definition remove_if_exists :: "('d, 'i) docker_api \<Rightarrow> string \<Rightarrow> ('d, unit) io" where
  "remove_if_exists D name = on_not_found (bind_io (d_get D name) (d_remove D)) ()"

definition stop_and_remove :: "('d, 'i) docker_api \<Rightarrow> string \<Rightarrow> ('d, unit) io" where
  "stop_and_remove D name =
     on_not_found (bind_io (d_get D name) (\<lambda>c. bind_io (d_stop D c) (\<lambda>_. d_remove D c))) ()"

definition producer_env :: "host \<Rightarrow> settings \<Rightarrow> pipeline_config \<Rightarrow> (string \<times> string) list result" where
  "producer_env H S c =
     map_sum id (\<lambda>text. [(''TELEGRAF_CONFIG'', text)])
       (render_telegraf_config H c (kafka_bootstrap_servers S) CONNECTOR_DIR ''10s'')"

definition run_container ::
  "('d, 'i) docker_api \<Rightarrow> settings \<Rightarrow> string \<Rightarrow> (string \<times> string) list \<Rightarrow> string \<Rightarrow> string \<Rightarrow> ('d, unit) io" where
  "run_container D S name env role pid =
     d_run D \<lparr>run_image = producer_image S, run_name = name, run_env = env,
       run_network = docker_network S, run_restart_policy = (''on-failure'', 5),
       run_labels = [(''data-platform.role'', role), (''data-platform.pipeline_id'', pid),
                     (''data-platform.managed'', ''true'')]\<rparr>"

text \<open>The old container is removed before the configuration is rendered.\<close>

definition docker_start ::
  "host \<Rightarrow> ('d, 'i) docker_api \<Rightarrow> settings \<Rightarrow> pipeline_config \<Rightarrow> pipeline_state \<Rightarrow> ('d, string \<times> string) io" where
  "docker_start H D S c s =
     (let pname = cname ''producer'' (pipeline_id c) in
      bind_io (remove_if_exists D pname) (\<lambda>_.
        case producer_env H S c of
          Inl e \<Rightarrow> raise_io e
        | Inr env \<Rightarrow>
            bind_io (run_container D S pname env ''producer'' (pipeline_id c)) (\<lambda>_. ret_io (pname, []))))"

definition docker_stop :: "('d, 'i) docker_api \<Rightarrow> pipeline_config \<Rightarrow> pipeline_state \<Rightarrow> ('d, unit) io" where
  "docker_stop D c s =
     stop_and_remove D
       (case producer_container s of
          Some name \<Rightarrow> if name = [] then cname ''producer'' (pipeline_id c) else name
        | None \<Rightarrow> cname ''producer'' (pipeline_id c))"

definition docker_restart ::
  "host \<Rightarrow> ('d, 'i) docker_api \<Rightarrow> settings \<Rightarrow> pipeline_config \<Rightarrow> pipeline_state \<Rightarrow> ('d, string \<times> string) io" where
  "docker_restart H D S c s = bind_io (docker_stop D c s) (\<lambda>_. docker_start H D S c s)"

definition fetch_logs :: "('d, 'i) docker_api \<Rightarrow> string \<Rightarrow> int \<Rightarrow> ('d, string) io" where
  "fetch_logs D name tail =
     catch_io (bind_io (d_get D name) (\<lambda>c. bind_io (d_logs D c tail) (\<lambda>b. ret_io (d_decode D b))))
       (\<lambda>e. case e of
              DockerNotFound _ \<Rightarrow> ret_io (''[container '' @ [CHR 0x27] @ name @ [CHR 0x27] @ '' not found]'')
            | _ \<Rightarrow> ret_io (''[error fetching logs: '' @ exn_str e @ '']''))"

definition container_running :: "('d, 'i) docker_api \<Rightarrow> string \<Rightarrow> ('d, bool) io" where
  "container_running D name =
     on_not_found (bind_io (d_get D name) (\<lambda>c. bind_io (d_status D c) (\<lambda>st. ret_io (st = ''running'')))) False"

definition docker_adapter :: "host \<Rightarrow> ('d, 'i) docker_api \<Rightarrow> settings \<Rightarrow> 'd runtime_adapter" where
  "docker_adapter H D S =
     \<lparr>rt_start = docker_start H D S, rt_stop = docker_stop D, rt_restart = docker_restart H D S,
      rt_logs = fetch_logs D, rt_is_running = container_running D\<rparr>"

section \<open>What the adapter does to the containers\<close>

lemma on_not_found_cases:
  assumes "on_not_found m a d = (r, d')"
  shows "m d = (r, d') \<or> (\<exists>msg. m d = (Inl (DockerNotFound msg), d') \<and> r = Inr a)"
proof (cases "m d")
  case (Pair x d1)
  with assms show ?thesis by (cases x) (auto simp: on_not_found_def io_simps split: exn.splits)
qed

context docker_daemon
begin

lemma other_than_found:
  assumes "d_get D n d = (Inr i, d')" and "n' \<noteq> n"
  shows "conts d n' \<noteq> Some (i, b)"
  using get_found [OF assms(1)] unique [of d n i _ n' b] assms(2) by blast

lemma get_remove_frame:
  assumes "bind_io (d_get D n) (d_remove D) d = (r, d')" and "n' \<noteq> n"
  shows "conts d' n' = conts d n'"
proof (cases "d_get D n d")
  case (Pair x d1)
  with assms get_same [OF Pair] show ?thesis
    using other_than_found [of n d _ d1] remove_other [of _ d1 r d' n'] by (cases x) (auto simp: io_simps)
qed

lemma remove_if_exists_frame:
  "remove_if_exists D n d = (r, d') \<Longrightarrow> n' \<noteq> n \<Longrightarrow> conts d' n' = conts d n'"
  unfolding remove_if_exists_def using on_not_found_cases get_remove_frame by metis

lemma get_stop_remove_cases:
  assumes "bind_io (d_get D n) (\<lambda>c. bind_io (d_stop D c) (\<lambda>_. d_remove D c)) d = (r, d')"
  obtains (none) e where "d_get D n d = (Inl e, d')" "r = Inl e"
  | (stop) i d1 e where "d_get D n d = (Inr i, d1)" "d_stop D i d1 = (Inl e, d')" "r = Inl e"
  | (remove) i d1 d2 where "d_get D n d = (Inr i, d1)" "d_stop D i d1 = (Inr (), d2)" "d_remove D i d2 = (r, d')"
proof (cases "d_get D n d")
  case (Pair x d1)
  with assms none stop remove show thesis
    by (cases x; cases "d_stop D (projr x) d1") (auto simp: io_simps split: sum.splits)
qed

lemma stop_and_remove_frame:
  assumes "stop_and_remove D n d = (r, d')" and "n' \<noteq> n"
  shows "conts d' n' = conts d n'"
proof -
  obtain r' where "bind_io (d_get D n) (\<lambda>c. bind_io (d_stop D c) (\<lambda>_. d_remove D c)) d = (r', d')"
    using on_not_found_cases [OF assms(1) [unfolded stop_and_remove_def]] by blast
  then show ?thesis
  proof (cases rule: get_stop_remove_cases)
    case (none e)
    then show ?thesis using get_same by metis
  next
    case (stop i d1 e)
    then have "conts d1 = conts d" using get_same by blast
    then show ?thesis using stop_other [OF stop(2), of n'] other_than_found [OF stop(1) assms(2)] by simp
  next
    case (remove i d1 d2)
    then have "conts d1 = conts d" using get_same by blast
    then have "conts d2 n' = conts d n'"
      using stop_other [OF remove(2), of n'] other_than_found [OF remove(1) assms(2)] by simp
    then show ?thesis using remove_other [OF remove(3), of n'] other_than_found [OF remove(1) assms(2)] by simp
  qed
qed

lemma stop_and_remove_gone:
  assumes "stop_and_remove D n d = (Inr (), d')"
  shows "conts d' n = None"
proof -
  obtain r' where r: "bind_io (d_get D n) (\<lambda>c. bind_io (d_stop D c) (\<lambda>_. d_remove D c)) d = (r', d')"
      "r' = Inr () \<or> (\<exists>m. r' = Inl (DockerNotFound m))"
    using on_not_found_cases [OF assms [unfolded stop_and_remove_def]] by blast
  from r(1) show ?thesis
  proof (cases rule: get_stop_remove_cases)
    case (none e)
    with r(2) show ?thesis using get_absent get_same by fastforce
  next
    case (stop i d1 e)
    with r(2) obtain m where "d_stop D i d1 = (Inl (DockerNotFound m), d')" by auto
    moreover obtain b where "conts d1 n = Some (i, b)" using get_found get_same stop(1) by fastforce
    ultimately show ?thesis by (rule stop_absent)
  next
    case (remove i d1 d2)
    obtain b where "conts d1 n = Some (i, b)" using get_found get_same remove(1) by fastforce
    then have "conts d2 n = Some (i, False)" by (rule stop_down [OF remove(2)])
    with r(2) show ?thesis using remove_gone [OF remove(3)] by blast
  qed
qed

lemma docker_start_cases:
  assumes "docker_start H D S c s d = (r, d')"
  obtains (early) r0 where "remove_if_exists D (cname ''producer'' (pipeline_id c)) d = (r0, d')" "\<exists>e. r = Inl e"
  | (run) d1 env x where "remove_if_exists D (cname ''producer'' (pipeline_id c)) d = (Inr (), d1)"
      "run_container D S (cname ''producer'' (pipeline_id c)) env ''producer'' (pipeline_id c) d1 = (x, d')"
      "(\<exists>p. r = Inr p) \<longrightarrow> x = Inr () \<and> r = Inr (cname ''producer'' (pipeline_id c), [])"
proof (cases "remove_if_exists D (cname ''producer'' (pipeline_id c)) d")
  case (Pair r0 d1)
  show thesis
  proof (cases "(\<exists>e. r0 = Inl e) \<or> (\<exists>e. producer_env H S c = Inl e)")
    case True
    with assms Pair show thesis
      by (intro early [of r0]) (auto simp: docker_start_def Let_def io_simps split: sum.splits)
  next
    case False
    then obtain env where env: "r0 = Inr ()" "producer_env H S c = Inr env"
      by (cases r0; cases "producer_env H S c") auto
    obtain x d2 where x: "run_container D S (cname ''producer'' (pipeline_id c)) env ''producer'' (pipeline_id c) d1 = (x, d2)"
      by fastforce
    with assms Pair env have "d' = d2" "(\<exists>p. r = Inr p) \<longrightarrow> x = Inr () \<and> r = Inr (cname ''producer'' (pipeline_id c), [])"
      by (auto simp: docker_start_def Let_def io_simps split: sum.splits)
    with x Pair env show thesis by (intro run [of d1 env x]) simp_all
  qed
qed

lemma run_container_frame:
  "run_container D S n env role p d = (r, d') \<Longrightarrow> n' \<noteq> n \<Longrightarrow> conts d' n' = conts d n'"
  unfolding run_container_def by (erule run_other) simp

lemma run_container_up:
  "run_container D S n env role p d = (Inr (), d') \<Longrightarrow> \<exists>i. conts d' n = Some (i, True)"
  unfolding run_container_def by (drule run_up) simp

lemma docker_start_frame:
  assumes "docker_start H D S c s d = (r, d')" and "n' \<noteq> cname ''producer'' (pipeline_id c)"
  shows "conts d' n' = conts d n'"
  using assms(1)
proof (cases rule: docker_start_cases)
  case (early r0)
  then show ?thesis using remove_if_exists_frame assms(2) by blast
next
  case (run d1 env x)
  then show ?thesis using remove_if_exists_frame [OF run(1) assms(2)] run_container_frame [OF run(2) assms(2)] by simp
qed

lemma docker_start_up:
  "docker_start H D S c s d = (Inr p, d') \<Longrightarrow>
     (\<exists>i. conts d' (cname ''producer'' (pipeline_id c)) = Some (i, True)) \<and>
     p = (cname ''producer'' (pipeline_id c), [])"
  by (erule docker_start_cases) (auto dest: run_container_up)

end

text \<open>The states that name their own producer, or none.\<close>

definition docker_owned :: "pipeline_config \<Rightarrow> pipeline_state \<Rightarrow> bool" where
  "docker_owned c s \<longleftrightarrow> producer_container s \<in> {None, Some [], Some (cname ''producer'' (pipeline_id c))}"

lemma docker_stop_owned:
  "docker_owned c s \<Longrightarrow> docker_stop D c s = stop_and_remove D (cname ''producer'' (pipeline_id c))"
  by (auto simp: docker_owned_def docker_stop_def)

definition container_up :: "('d \<Rightarrow> string \<Rightarrow> ('i \<times> bool) option) \<Rightarrow> 'd \<Rightarrow> string \<Rightarrow> bool" where
  "container_up conts d pid \<longleftrightarrow> (\<exists>i. conts d (cname ''producer'' pid) = Some (i, True))"

context docker_daemon
begin

lemma docker_restart_cases:
  assumes "docker_restart H D S c s d = (r, d')" and "docker_owned c s"
  obtains (stopping) e where "stop_and_remove D (cname ''producer'' (pipeline_id c)) d = (Inl e, d')" "r = Inl e"
  | (starting) d1 where "stop_and_remove D (cname ''producer'' (pipeline_id c)) d = (Inr (), d1)"
      "docker_start H D S c s d1 = (r, d')"
  using assms docker_stop_owned [OF assms(2), of D] unfolding docker_restart_def bind_io_def
  by (auto split: prod.splits sum.splits)

lemma docker_restart_effect:
  assumes "docker_restart H D S c s d = (r, d')" and "docker_owned c s"
  shows "(\<forall>n. n \<noteq> cname ''producer'' (pipeline_id c) \<longrightarrow> conts d' n = conts d n) \<and>
    (\<forall>p. r = Inr p \<longrightarrow> p = (cname ''producer'' (pipeline_id c), []) \<and>
       (\<exists>i. conts d' (cname ''producer'' (pipeline_id c)) = Some (i, True)))"
  using assms
proof (cases rule: docker_restart_cases)
  case (stopping e)
  then show ?thesis using stop_and_remove_frame by simp
next
  case (starting d1)
  have "\<forall>n. n \<noteq> cname ''producer'' (pipeline_id c) \<longrightarrow> conts d' n = conts d n"
    using stop_and_remove_frame [OF starting(1)] docker_start_frame [OF starting(2)] by simp
  moreover have "p = (cname ''producer'' (pipeline_id c), []) \<and>
      (\<exists>i. conts d' (cname ''producer'' (pipeline_id c)) = Some (i, True))" if "r = Inr p" for p
    using docker_start_up [OF starting(2) [unfolded that]] by blast
  ultimately show ?thesis by blast
qed

lemma docker_contract:
  "runtime_contract (docker_adapter H D S) (container_up conts) docker_owned
     (\<lambda>p q. cname ''producer'' p \<noteq> cname ''producer'' q)"
proof
  fix c :: pipeline_config and s :: pipeline_state and d r d' q
  show "rt_start (docker_adapter H D S) c s d = (Inr r, d') \<Longrightarrow> container_up conts d' (pipeline_id c)"
    by (simp add: docker_adapter_def container_up_def docker_start_up)
  show "docker_owned c s \<Longrightarrow> rt_restart (docker_adapter H D S) c s d = (Inr r, d') \<Longrightarrow> container_up conts d' (pipeline_id c)"
    by (auto simp: docker_adapter_def container_up_def dest: docker_restart_effect)
next
  fix c :: pipeline_config and s :: pipeline_state and d d'
  show "docker_owned c s \<Longrightarrow> rt_stop (docker_adapter H D S) c s d = (Inr (), d') \<Longrightarrow> \<not> container_up conts d' (pipeline_id c)"
    by (simp add: docker_adapter_def container_up_def docker_stop_owned stop_and_remove_gone)
next
  fix c :: pipeline_config and s :: pipeline_state and d d' q r r'
  assume n: "cname ''producer'' (pipeline_id c) \<noteq> cname ''producer'' q"
  note n' = n [symmetric]
  show "rt_start (docker_adapter H D S) c s d = (r, d') \<Longrightarrow> container_up conts d' q = container_up conts d q"
    using docker_start_frame [OF _ n'] by (simp add: docker_adapter_def container_up_def)
  assume o: "docker_owned c s"
  show "rt_stop (docker_adapter H D S) c s d = (r', d') \<Longrightarrow> container_up conts d' q = container_up conts d q"
    using stop_and_remove_frame [OF _ n'] by (simp add: docker_adapter_def container_up_def docker_stop_owned [OF o])
  assume "rt_restart (docker_adapter H D S) c s d = (r, d')"
  then have "docker_restart H D S c s d = (r, d')" by (simp add: docker_adapter_def)
  from docker_restart_effect [OF this o] n' show "container_up conts d' q = container_up conts d q"
    by (simp add: container_up_def)
qed

end

sublocale docker_daemon \<subseteq> docker_runtime: runtime_contract "docker_adapter H D S" "container_up conts" docker_owned
  "\<lambda>p q. cname ''producer'' p \<noteq> cname ''producer'' q" for H S
  by (rule docker_contract)

section \<open>A daemon in memory\<close>

text \<open>Containers by name, with what they were run with; a container is identified by its name.\<close>

type_synonym memory_docker = "(string \<times> docker_run \<times> bool) list"

definition memory_conts :: "memory_docker \<Rightarrow> string \<Rightarrow> (string \<times> bool) option" where
  "memory_conts d n = map_option (\<lambda>(x, b). (n, b)) (map_of d n)"

definition memory_docker_api :: "(memory_docker, string) docker_api" where
  "memory_docker_api =
     \<lparr>d_get = (\<lambda>n d. (if map_of d n = None then Inl (DockerNotFound n) else Inr n, d)),
      d_remove = (\<lambda>i d. if map_of d i = None then (Inl (DockerNotFound i), d) else (Inr (), AList.delete i d)),
      d_stop = (\<lambda>i d. case map_of d i of
                       None \<Rightarrow> (Inl (DockerNotFound i), d)
                     | Some (x, _) \<Rightarrow> (Inr (), AList.update i (x, False) d)),
      d_status = (\<lambda>i d. (case map_of d i of
                           None \<Rightarrow> Inl (DockerNotFound i)
                         | Some (_, b) \<Rightarrow> Inr (if b then ''running'' else ''exited''), d)),
      d_logs = (\<lambda>i tail d. (if map_of d i = None then Inl (DockerNotFound i) else Inr [], d)),
      d_run = (\<lambda>x d. if map_of d (run_name x) = None then (Inr (), AList.update (run_name x) (x, True) d)
                      else (Inl (OtherError ''APIError'' ''409 Conflict''), d)),
      d_decode = (\<lambda>s. s)\<rparr>"

interpretation mem_docker: docker_daemon memory_docker_api memory_conts
  by unfold_locales
    (auto simp: memory_docker_api_def memory_conts_def update_conv' delete_conv' split: if_splits option.splits prod.splits)

section \<open>Properties\<close>

text \<open>
  The Docker adapter acts on the container of its own pipeline. Whatever a stop or a
  restart of a pipeline returns or raises, no container of another name changes; after a stop
  that returns, the producer's container is gone; after a restart that returns, it runs, under
  the name that the call reports. This holds for every state that names the pipeline's own
  producer or none.
\<close>

lemma docker_stop_and_restart:
  assumes "docker_daemon D conts" and "docker_owned c s"
    and "docker_stop D c s d = (r1, d1)" and "docker_restart H D S c s d = (r2, d2)"
    and "n = cname ''producer'' (pipeline_id c)"
  shows "(\<forall>m. m \<noteq> n \<longrightarrow> conts d1 m = conts d m \<and> conts d2 m = conts d m) \<and>
    (r1 = Inr () \<longrightarrow> conts d1 n = None) \<and>
    (\<forall>p. r2 = Inr p \<longrightarrow> p = (n, []) \<and> (\<exists>i. conts d2 n = Some (i, True)))"
proof -
  from assms have "stop_and_remove D n d = (r1, d1)" by (simp add: docker_stop_owned)
  then have "\<forall>m. m \<noteq> n \<longrightarrow> conts d1 m = conts d m" "r1 = Inr () \<longrightarrow> conts d1 n = None"
    using docker_daemon.stop_and_remove_frame [OF assms(1)] docker_daemon.stop_and_remove_gone [OF assms(1)] by blast+
  with docker_daemon.docker_restart_effect [OF assms(1,4,2)] show ?thesis unfolding assms(5) by blast
qed

lemma idle_state_owned: "docker_owned c (idle_state p)"
  by (simp add: docker_owned_def idle_state_def)

text \<open>The producer as the adapter runs it.\<close>

definition producer_run :: "settings \<Rightarrow> string \<Rightarrow> (string \<times> string) list \<Rightarrow> docker_run" where
  "producer_run S p env =
     \<lparr>run_image = producer_image S, run_name = cname ''producer'' p, run_env = env,
       run_network = docker_network S, run_restart_policy = (''on-failure'', 5),
       run_labels = [(''data-platform.role'', ''producer''), (''data-platform.pipeline_id'', p),
                     (''data-platform.managed'', ''true'')]\<rparr>"

lemma memory_start:
  "\<exists>env. docker_start sample_host memory_docker_api S c s d =
     (Inr (cname ''producer'' (pipeline_id c), []),
      AList.update (cname ''producer'' (pipeline_id c)) (producer_run S (pipeline_id c) env, True)
        (if map_of d (cname ''producer'' (pipeline_id c)) = None then d
         else AList.delete (cname ''producer'' (pipeline_id c)) d))"
proof -
  let ?n = "cname ''producer'' (pipeline_id c)"
  obtain env where env: "producer_env sample_host S c = Inr env"
    using render_total [OF sample_host_template(1), of c "kafka_bootstrap_servers S" CONNECTOR_DIR "''10s''"] by (auto simp: producer_env_def)
  have rm: "remove_if_exists memory_docker_api ?n d =
      (Inr (), if map_of d ?n = None then d else AList.delete ?n d)"
    by (simp add: remove_if_exists_def on_not_found_def io_simps memory_docker_api_def)
  have "run_container memory_docker_api S ?n env ''producer'' (pipeline_id c) d' =
      (Inr (), AList.update ?n (producer_run S (pipeline_id c) env, True) d')" if "map_of d' ?n = None" for d'
    using that by (simp add: run_container_def memory_docker_api_def producer_run_def)
  then show ?thesis using env rm by (intro exI [of _ env]) (simp add: docker_start_def Let_def io_simps delete_conv')
qed

lemma memory_stop:
  assumes "docker_owned c s"
  shows "\<exists>d'. docker_stop memory_docker_api c s d = (Inr (), d')"
  unfolding docker_stop_owned [OF assms]
  by (cases "map_of d (cname ''producer'' (pipeline_id c))")
    (auto simp: stop_and_remove_def on_not_found_def io_simps memory_docker_api_def update_conv')

lemma memory_restart:
  assumes "docker_owned c s"
  shows "\<exists>d'. docker_restart sample_host memory_docker_api S c s d = (Inr (cname ''producer'' (pipeline_id c), []), d')"
proof -
  obtain d1 where "docker_stop memory_docker_api c s d = (Inr (), d1)" using memory_stop [OF assms] by blast
  moreover obtain env where "docker_start sample_host memory_docker_api S c s d1 =
     (Inr (cname ''producer'' (pipeline_id c), []),
      AList.update (cname ''producer'' (pipeline_id c)) (producer_run S (pipeline_id c) env, True)
        (if map_of d1 (cname ''producer'' (pipeline_id c)) = None then d1
         else AList.delete (cname ''producer'' (pipeline_id c)) d1))"
    using memory_start by blast
  ultimately show ?thesis by (simp add: docker_restart_def io_simps)
qed

definition neighbour :: memory_docker where
  "neighbour = [(''dp-producer-q'', producer_run default_settings ''q'' [], True)]"

text \<open>
  Two pipelines, one container: a dot and an underscore in the identifier become the same
  dash, so that starting the second pipeline removes the producer of the first.
\<close>

theorem docker_names_collide:
  "\<exists>d1 d2 env. docker_start sample_host memory_docker_api S (named_config ''a.b'') s [] = (Inr (''dp-producer-a-b'', []), d1) \<and>
     docker_start sample_host memory_docker_api S (named_config ''a_b'') s' d1 = (Inr (''dp-producer-a-b'', []), d2) \<and>
     d2 = [(''dp-producer-a-b'', producer_run S ''a_b'' env, True)]"
proof -
  have n: "cname ''producer'' ''a.b'' = ''dp-producer-a-b''" "cname ''producer'' ''a_b'' = ''dp-producer-a-b''"
    by (simp_all add: cname_def replace_char_def)
  obtain env1 where s1: "docker_start sample_host memory_docker_api S (named_config ''a.b'') s [] =
      (Inr (''dp-producer-a-b'', []), [(''dp-producer-a-b'', producer_run S ''a.b'' env1, True)])"
    using memory_start [of S "named_config ''a.b''" s "[]"] n by (auto simp: named_config_def)
  then obtain env2 where s2: "docker_start sample_host memory_docker_api S (named_config ''a_b'') s'
        [(''dp-producer-a-b'', producer_run S ''a.b'' env1, True)] =
      (Inr (''dp-producer-a-b'', []), [(''dp-producer-a-b'', producer_run S ''a_b'' env2, True)])"
    using memory_start [of S "named_config ''a_b''" s' "[(''dp-producer-a-b'', producer_run S ''a.b'' env1, True)]"] n
    by (auto simp: named_config_def)
  from s1 s2 show ?thesis by blast
qed

end
