(* ===== verification/Folder_Watcher.thy ===== *)
theory Folder_Watcher
  imports Task_Manager
begin

text \<open>
  \<^verbatim>\<open>task_manager/app/folder_watcher.py\<close> and \<^verbatim>\<open>pipeline_definition.py\<close>: a definition file that
  appears in the watched directory is read, validated, registered, provisioned and moved to
  \<open>processed\<close> or \<open>failed\<close>. The lemmas say that no file is lost or overwritten, what a handled
  definition leaves in Redis, and what a file that makes the handler raise goes through.
\<close>

section \<open>Files\<close>

text \<open>A path is its directory and its name; \<open>suffix\<close> and \<open>stem\<close> are the properties of \<open>pathlib.Path\<close>.\<close>

type_synonym path = "string \<times> string"

definition suffix :: "string \<Rightarrow> string" where
  "suffix name =
     (let ext = rev (takeWhile (\<lambda>c. c \<noteq> CHR ''.'') (rev name)) in
      if ext \<noteq> [] \<and> length ext + 1 < length name then CHR ''.'' # ext else [])"

definition stem :: "string \<Rightarrow> string" where
  "stem name = take (length name - length (suffix name)) name"

definition subdir :: "path \<Rightarrow> string \<Rightarrow> string" where
  "subdir p d = fst p @ ''/'' @ d"

record 'f files =
  f_exists :: "path \<Rightarrow> 'f \<Rightarrow> bool"
  f_is_file :: "path \<Rightarrow> 'f \<Rightarrow> bool"
  f_names :: "string \<Rightarrow> 'f \<Rightarrow> string list"
  f_read :: "path \<Rightarrow> ('f, string) io"
  f_mkdir :: "string \<Rightarrow> ('f, unit) io"
  f_move :: "path \<Rightarrow> path \<Rightarrow> ('f, unit) io"

fun is_os_error :: "exn \<Rightarrow> bool" where
  "is_os_error (OSError _) = True"
| "is_os_error (ConnectionError _) = True"
| "is_os_error (TimeoutError _) = True"
| "is_os_error (FileNotFoundError _) = True"
| "is_os_error _ = False"

definition numbered :: "string \<Rightarrow> nat \<Rightarrow> string" where
  "numbered name n = stem name @ ''.'' @ str_of_nat n @ suffix name"

text \<open>
  The loop that looks for a free number. It ends because a directory holds finitely many names:
  \<open>k\<close> bounds the tries, and \<open>free_number_is_free\<close> shows that more tries than names are enough.
\<close>

fun free_number :: "(string \<Rightarrow> bool) \<Rightarrow> string \<Rightarrow> nat \<Rightarrow> nat \<Rightarrow> nat" where
  "free_number taken name 0 n = n"
| "free_number taken name (Suc k) n =
     (if taken (numbered name n) then free_number taken name k (n + 1) else n)"

definition target_name :: "'f files \<Rightarrow> string \<Rightarrow> string \<Rightarrow> 'f \<Rightarrow> string" where
  "target_name F dest name f =
     (if f_exists F (dest, name) f
      then numbered name
             (free_number (\<lambda>n. f_exists F (dest, n) f) name (Suc (length (f_names F dest f))) 1)
      else name)"

definition move :: "'f files \<Rightarrow> path \<Rightarrow> string \<Rightarrow> ('f, unit) io" where
  "move F fp dest =
     bind_io (f_mkdir F dest) (\<lambda>_ f.
       catch_io (f_move F fp (dest, target_name F dest (snd fp) f))
         (\<lambda>e. if is_os_error e then ret_io () else raise_io e) f)"

section \<open>Definitions\<close>

record pipeline_definition =
  def_pipeline_id :: string
  def_source_type :: string
  def_topic :: "string option"
  def_batch_size :: int
  def_flush_interval_seconds :: int
  def_source_options :: "(string \<times> pyval) list"

text \<open>The constraints declared on the fields.\<close>

definition definition_ok :: "pipeline_definition \<Rightarrow> bool" where
  "definition_ok d \<longleftrightarrow> pipeline_id_ok (def_pipeline_id d) \<and>
     1 \<le> def_batch_size d \<and> def_batch_size d \<le> 100000 \<and>
     1 \<le> def_flush_interval_seconds d \<and> def_flush_interval_seconds d \<le> 3600"

text \<open>
  What reading a definition takes from libraries: \<open>json.loads\<close>, and pydantic's reading of the
  two models, whose errors are \<open>ValidationError\<close>s.
\<close>

record readers =
  loads :: "string \<Rightarrow> pyval result"
  model_validate :: "pyval \<Rightarrow> pipeline_definition result"
  parse_options :: "pyval \<Rightarrow> opcua_options result"

definition parse_source_type :: "string \<Rightarrow> source_type result" where
  "parse_source_type s =
     (if s = source_type_value OPCUA then Inr OPCUA else Inl (ValidationError ''source_type''))"

text \<open>The options as the model's validator tags them before they are parsed.\<close>

definition tagged_options :: "pipeline_definition \<Rightarrow> pyval" where
  "tagged_options d =
     (case tag_source_options (source_type_value OPCUA)
             (VDict [(''source_type'', VStr (def_source_type d)), (''source_options'', VDict (def_source_options d))]) of
        VDict data \<Rightarrow> (case dict_get data ''source_options'' of Some v \<Rightarrow> v | None \<Rightarrow> VNone)
      | _ \<Rightarrow> VNone)"

definition definition_config :: "readers \<Rightarrow> pipeline_definition \<Rightarrow> int \<Rightarrow> string \<Rightarrow> pipeline_config result" where
  "definition_config D d n now =
     (case parse_source_type (def_source_type d) of
        Inl e \<Rightarrow> Inl e
      | Inr st \<Rightarrow>
          (case parse_options D (tagged_options d) of
             Inl e \<Rightarrow> Inl e
           | Inr opts \<Rightarrow>
               make_pipeline_config
                 \<lparr>pipeline_id = def_pipeline_id d, pipeline_type = LIVE, airflow_dag_id = None, user_id = ''0'',
                  collection_number = n, table_name = ''events'', table_schema = DEFAULT_TABLE_SCHEMA,
                  source_type = st, topic = str_or (def_topic d) (''pipeline.'' @ def_pipeline_id d @ ''.events''),
                  batch_size = def_batch_size d, flush_interval_seconds = def_flush_interval_seconds d,
                  source_options = opts, created_at = now, config_updated_at = now\<rparr>))"

section \<open>Handling one file\<close>

record ('r, 'k, 'a, 'c, 'f) watcher_world =
  ww_services :: "('r, 'k, 'a, 'c) tm_world"
  ww_files :: 'f

type_synonym ('r, 'k, 'a, 'c, 'f, 'x) watcher_io = "(('r, 'k, 'a, 'c, 'f) watcher_world, 'x) io"

definition on_services :: "(('r, 'k, 'a, 'c) tm_world, 'x) io \<Rightarrow> ('r, 'k, 'a, 'c, 'f, 'x) watcher_io" where
  "on_services m w = (case m (ww_services w) of (x, s) \<Rightarrow> (x, w\<lparr>ww_services := s\<rparr>))"

definition on_files :: "('f, 'x) io \<Rightarrow> ('r, 'k, 'a, 'c, 'f, 'x) watcher_io" where
  "on_files m w = (case m (ww_files w) of (x, f) \<Rightarrow> (x, w\<lparr>ww_files := f\<rparr>))"

definition move_to :: "'f files \<Rightarrow> path \<Rightarrow> string \<Rightarrow> ('r, 'k, 'a, 'c, 'f, unit) watcher_io" where
  "move_to F fp d = on_files (move F fp (subdir fp d))"

text \<open>How the registration ends: done, done by the other replica, or not possible.\<close>

datatype registration = Registered | Elsewhere | Unregistered

definition register ::
  "('r, 'v, 'k, 'a, 'c) tm_env \<Rightarrow> pipeline_config \<Rightarrow> (('r, 'k, 'a, 'c) tm_world, registration) io" where
  "register E c =
     catch_io (bind_io (on_redis (repo_create_pipeline (tm_redis_client E) c)) (\<lambda>_. ret_io Registered))
       (\<lambda>e. ret_io (if is_value_error e then Elsewhere else Unregistered))"

definition provision_or_record ::
  "('r, 'v, 'k, 'a, 'c) tm_env \<Rightarrow> 'f files \<Rightarrow> path \<Rightarrow> pipeline_config \<Rightarrow> ('r, 'k, 'a, 'c, 'f, unit) watcher_io" where
  "provision_or_record E F fp c =
     catch_io
       (bind_io (on_services (on_platform (provision (tm_services E) (tm_settings E) c))) (\<lambda>_.
          move_to F fp ''processed''))
       (\<lambda>e. bind_io (on_services (set_state E (pipeline_id c)
              (no_update\<lparr>set_status := Some FAILED, set_error := Some (''provisioning failed: '' @ exn_str e)\<rparr>))) (\<lambda>_.
          move_to F fp ''failed''))"

text \<open>The number is taken before the configuration is built: the call is an argument of the constructor.\<close>

definition build_config ::
  "('r, 'v, 'k, 'a, 'c) tm_env \<Rightarrow> readers \<Rightarrow> pipeline_definition \<Rightarrow> (('r, 'k, 'a, 'c) tm_world, pipeline_config) io" where
  "build_config E D d =
     bind_io (on_redis (next_collection_number (tm_redis_client E) ''0'')) (\<lambda>n w.
       (definition_config D d n (utc_now_iso (tm_redis_client E) (tm_redis w)), w))"

definition handle_definition ::
  "('r, 'v, 'k, 'a, 'c) tm_env \<Rightarrow> 'f files \<Rightarrow> readers \<Rightarrow> path \<Rightarrow> pipeline_definition \<Rightarrow>
     ('r, 'k, 'a, 'c, 'f, unit) watcher_io" where
  "handle_definition E F D fp d =
     bind_io (on_services (on_redis (get_config (tm_redis_client E) (def_pipeline_id d)))) (\<lambda>existing.
       if existing \<noteq> None then move_to F fp ''processed''
       else
         bind_io (on_services (build_config E D d)) (\<lambda>c.
         bind_io (on_services (register E c)) (\<lambda>outcome.
           case outcome of
             Elsewhere \<Rightarrow> move_to F fp ''processed''
           | Unregistered \<Rightarrow> move_to F fp ''failed''
           | Registered \<Rightarrow> provision_or_record E F fp c)))"

fun is_unreadable :: "exn \<Rightarrow> bool" where
  "is_unreadable (JSONDecodeError _) = True"
| "is_unreadable e = is_os_error e"

fun is_validation_error :: "exn \<Rightarrow> bool" where
  "is_validation_error (ValidationError _) = True"
| "is_validation_error _ = False"

definition read_json :: "'f files \<Rightarrow> readers \<Rightarrow> path \<Rightarrow> ('r, 'k, 'a, 'c, 'f, pyval) watcher_io" where
  "read_json F D fp = bind_io (on_files (f_read F fp)) (\<lambda>s w. (loads D s, w))"

definition handle ::
  "('r, 'v, 'k, 'a, 'c) tm_env \<Rightarrow> 'f files \<Rightarrow> readers \<Rightarrow> path \<Rightarrow> ('r, 'k, 'a, 'c, 'f, unit) watcher_io" where
  "handle E F D fp w =
     (if \<not> f_exists F fp (ww_files w) then (Inr (), w)
      else
        (case read_json F D fp w of
           (Inl e, w1) \<Rightarrow> if is_unreadable e then move_to F fp ''failed'' w1 else (Inl e, w1)
         | (Inr raw, w1) \<Rightarrow>
             (case model_validate D raw of
                Inl e \<Rightarrow> if is_validation_error e then move_to F fp ''failed'' w1 else (Inl e, w1)
              | Inr d \<Rightarrow> handle_definition E F D fp d w1)))"

section \<open>The watcher\<close>

text \<open>
  The startup scan: every \<open>.json\<close> file of the directory, sorted; a file whose handling raises is
  logged and stays.
\<close>

fun handle_all ::
  "('r, 'v, 'k, 'a, 'c) tm_env \<Rightarrow> 'f files \<Rightarrow> readers \<Rightarrow> path list \<Rightarrow>
     ('r, 'k, 'a, 'c, 'f) watcher_world \<Rightarrow> ('r, 'k, 'a, 'c, 'f) watcher_world" where
  "handle_all E F D [] w = w"
| "handle_all E F D (fp # fps) w = handle_all E F D fps (snd (handle E F D fp w))"

definition pending :: "'f files \<Rightarrow> string \<Rightarrow> 'f \<Rightarrow> path list" where
  "pending F dir f =
     map (Pair dir) (sort (filter (\<lambda>n. f_is_file F (dir, n) f \<and> suffix n = ''.json'') (f_names F dir f)))"

definition scan_existing ::
  "('r, 'v, 'k, 'a, 'c) tm_env \<Rightarrow> 'f files \<Rightarrow> readers \<Rightarrow> string \<Rightarrow>
     ('r, 'k, 'a, 'c, 'f) watcher_world \<Rightarrow> ('r, 'k, 'a, 'c, 'f) watcher_world" where
  "scan_existing E F D dir w = handle_all E F D (pending F dir (ww_files w)) w"

text \<open>
  The handler of file system events, with the names in flight. \<open>on_created_enter\<close> is the part
  before the coroutine is submitted: the names in flight, if the event is taken. The
  observer then waits for \<open>process\<close>, whose exception the future raises again.
\<close>

definition on_created_enter :: "string \<Rightarrow> bool \<Rightarrow> path \<Rightarrow> string list \<Rightarrow> string list option" where
  "on_created_enter watch_path is_directory fp in_flight =
     (if is_directory \<or> suffix (snd fp) \<noteq> ''.json'' \<or> fst fp \<noteq> watch_path \<or> snd fp \<in> set in_flight then None
      else Some (snd fp # in_flight))"

definition process ::
  "('r, 'v, 'k, 'a, 'c) tm_env \<Rightarrow> 'f files \<Rightarrow> readers \<Rightarrow> path \<Rightarrow>
     (('r, 'k, 'a, 'c, 'f) watcher_world \<times> string list, unit) io" where
  "process E F D fp =
     finally_io (\<lambda>(w, busy). case handle E F D fp w of (r, w') \<Rightarrow> (r, w', busy))
       (\<lambda>(w, busy). (Inr (), w, filter (\<lambda>n. n \<noteq> snd fp) busy))"

definition on_created ::
  "('r, 'v, 'k, 'a, 'c) tm_env \<Rightarrow> 'f files \<Rightarrow> readers \<Rightarrow> string \<Rightarrow> bool \<Rightarrow> path \<Rightarrow>
     (('r, 'k, 'a, 'c, 'f) watcher_world \<times> string list, unit) io" where
  "on_created E F D watch_path is_directory fp s =
     (case on_created_enter watch_path is_directory fp (snd s) of
        None \<Rightarrow> (Inr (), s)
      | Some busy \<Rightarrow>
          catch_io (process E F D fp)
            (\<lambda>_ (w, busy1). case on_files (move F fp (watch_path @ ''/failed'')) w of (r, w') \<Rightarrow> (r, w', busy1))
            (fst s, busy))"

section \<open>Moving\<close>

text \<open>
  What the watcher relies on of the file system: \<open>text_at f p\<close> is the text of the regular file at \<open>p\<close>.
  A move onto a name that is not there renames; one that raises may leave a partial copy.
\<close>

locale file_store =
  fixes F :: "'f files" and text_at :: "'f \<Rightarrow> path \<Rightarrow> string option"
  assumes file_exists: "text_at f p \<noteq> None \<Longrightarrow> f_exists F p f"
    and names: "set (f_names F d f) = {n. f_exists F (d, n) f}"
    and read_pure: "f_read F p f = (r, f') \<Longrightarrow> f' = f"
    and read_file: "f_read F p f = (Inr s, f') \<Longrightarrow> text_at f p = Some s"
    and mkdir_file: "f_mkdir F d f = (r2, f') \<Longrightarrow> text_at f' = text_at f"
    and move_done: "text_at f p \<noteq> None \<Longrightarrow> \<not> f_exists F q f \<Longrightarrow> f_move F p q f = (Inr (), f') \<Longrightarrow>
      text_at f' = (text_at f)(q := text_at f p, p := None)"
    and move_failed: "text_at f p \<noteq> None \<Longrightarrow> f_move F p q f = (Inl e, f') \<Longrightarrow> x \<noteq> q \<Longrightarrow> text_at f' x = text_at f x"

text \<open>The file is where it was, or under a name that was free in its destination; no other file has changed.\<close>

definition kept :: "('f \<Rightarrow> path \<Rightarrow> string option) \<Rightarrow> path \<Rightarrow> string set \<Rightarrow> 'f \<Rightarrow> 'f \<Rightarrow> bool" where
  "kept text_at fp dests f f' \<longleftrightarrow>
     (\<forall>x. x \<noteq> fp \<longrightarrow> text_at f x \<noteq> None \<longrightarrow> text_at f' x = text_at f x) \<and>
     (text_at f' fp = text_at f fp \<or>
      text_at f' fp = None \<and> (\<exists>d\<in>dests. \<exists>n. text_at f (d, n) = None \<and> text_at f' (d, n) = text_at f fp))"

lemma kept_refl [simp]: "kept text_at fp dests f f"
  by (simp add: kept_def)

lemma kept_same: "text_at f' = text_at f \<Longrightarrow> kept text_at fp dests f f'"
  by (simp add: kept_def)

lemma kept_trans:
  assumes "text_at f fp \<noteq> None" and "kept text_at fp ds f f1" and "text_at f1 fp = text_at f fp"
    and "kept text_at fp ds f1 f2"
  shows "kept text_at fp ds f f2"
proof -
  have free: "text_at f x = None" if "text_at f1 x = None" for x
    using that assms(1-3) unfolding kept_def by metis
  show ?thesis using assms free unfolding kept_def by (metis (no_types, lifting))
qed

lemma stem_suffix: "stem name @ suffix name = name"
proof (cases "suffix name = []")
  case False
  define P :: "char \<Rightarrow> bool" where "P = (\<lambda>c. c \<noteq> CHR ''.'')"
  define t where "t = takeWhile P (rev name)"
  have ext: "suffix name = CHR ''.'' # rev t" "length t < length name"
    using False by (auto simp: suffix_def Let_def t_def P_def split: if_splits)
  have split: "rev name = t @ dropWhile P (rev name)" by (simp add: t_def)
  then have "length name = length t + length (dropWhile P (rev name))" by (metis length_append length_rev)
  with ext(2) obtain c rest where c: "dropWhile P (rev name) = c # rest"
    by (cases "dropWhile P (rev name)") auto
  then have "\<not> P c" by (metis hd_dropWhile list.distinct(1) list.sel(1))
  with split c have "rev (rev name) = rev (t @ CHR ''.'' # rest)" by (simp add: P_def)
  then have "name = rev rest @ CHR ''.'' # rev t" by simp
  then show ?thesis using ext(1) by (simp add: stem_def)
qed (simp add: stem_def)

lemma numbered_inject: "numbered name m = numbered name n \<longleftrightarrow> m = n"
  by (simp add: numbered_def str_of_nat_inject)

lemma free_number_ge: "n \<le> free_number taken name k n"
proof (induction k arbitrary: n)
  case (Suc k)
  then show ?case using Suc [of "n + 1"] by (simp add: Suc_le_lessD less_imp_le)
qed simp

lemma free_number_before:
  "n \<le> m \<Longrightarrow> m < free_number taken name k n \<Longrightarrow> taken (numbered name m)"
proof (induction k arbitrary: n)
  case (Suc k)
  then show ?case using Suc.IH [of "n + 1"] by (cases "m = n") (auto split: if_splits)
qed simp

lemma free_number_is_free:
  assumes "finite {x. taken x}" and "card {x. taken x} < k"
  shows "\<not> taken (numbered name (free_number taken name k n))"
proof
  let ?r = "free_number taken name k n"
  assume t: "taken (numbered name ?r)"
  have "?r = n + k" using t
  proof (induction k arbitrary: n)
    case (Suc k)
    then show ?case using Suc.IH [of "n + 1"] by (auto split: if_splits)
  qed simp
  then have "numbered name ` {n..n + k} \<subseteq> {x. taken x}"
    using t free_number_before [of n _ taken name k] by (force simp: le_less)
  then have "card (numbered name ` {n..n + k}) \<le> card {x. taken x}" by (rule card_mono [OF assms(1)])
  moreover have "card (numbered name ` {n..n + k}) = k + 1"
    by (subst card_image) (auto simp: inj_on_def numbered_inject)
  ultimately show False using assms(2) by simp
qed

context file_store
begin

lemma target_is_free: "\<not> f_exists F (dest, target_name F dest name f) f"
proof (cases "f_exists F (dest, name) f")
  case True
  let ?t = "\<lambda>n. f_exists F (dest, n) f"
  have "{n. ?t n} = set (f_names F dest f)" using names [of dest f] by simp
  then have "finite {n. ?t n}" "card {n. ?t n} < Suc (length (f_names F dest f))"
    by (simp_all add: card_length le_imp_less_Suc)
  from free_number_is_free [OF this] True show ?thesis by (simp add: target_name_def)
qed (simp add: target_name_def)

lemma move_keeps:
  assumes here: "text_at f fp \<noteq> None" and run: "move F fp dest f = (r, f')"
  shows "kept text_at fp {dest} f f' \<and> ((\<exists>e. r = Inl e) \<longrightarrow> text_at f' fp = text_at f fp)"
proof -
  obtain m f1 where mk: "f_mkdir F dest f = (m, f1)" by fastforce
  note same = mkdir_file [OF mk]
  show ?thesis
  proof (cases m)
    case (Inl e)
    with run mk same show ?thesis by (auto simp: move_def io_simps kept_def)
  next
    case (Inr u)
    let ?q = "(dest, target_name F dest (snd fp) f1)"
    have free: "\<not> f_exists F ?q f1" by (rule target_is_free)
    then have gone: "text_at f1 ?q = None" and neq: "?q \<noteq> fp" using file_exists here same by (metis, metis)
    have here1: "text_at f1 fp \<noteq> None" using here same by simp
    obtain x f2 where mv: "f_move F fp ?q f1 = (x, f2)" by fastforce
    with run mk Inr have f': "f' = f2" "r = (case x of Inl e \<Rightarrow> if is_os_error e then Inr () else Inl e | Inr u \<Rightarrow> Inr u)"
      by (auto simp: move_def io_simps split: sum.splits if_splits)
    show ?thesis
    proof (cases x)
      case x: (Inl e)
      have other: "text_at f' y = text_at f y" if "y \<noteq> ?q" for y
        using move_failed [OF here1, of ?q e f2 y] mv x f'(1) same that by simp
      have "text_at f' y = text_at f y" if "text_at f y \<noteq> None" for y
        using other [of y] gone same that by (cases "y = ?q") auto
      with here show ?thesis by (simp add: kept_def)
    next
      case x: (Inr u)
      then have "text_at f' = (text_at f1)(?q := text_at f1 fp, fp := None)"
        using move_done [OF here1 free, of f2] mv f'(1) by simp
      with neq gone same f'(2) x show ?thesis by (auto simp: kept_def)
    qed
  qed
qed

lemma move_to_keeps:
  assumes here: "text_at (ww_files w) fp \<noteq> None" and run: "move_to F fp d w = (r, w')" and d: "subdir fp d \<in> ds"
  shows "kept text_at fp ds (ww_files w) (ww_files w') \<and> ww_services w' = ww_services w \<and>
    ((\<exists>e. r = Inl e) \<longrightarrow> text_at (ww_files w') fp = text_at (ww_files w) fp)"
proof -
  obtain f' where m: "move F fp (subdir fp d) (ww_files w) = (r, f')" and w': "w' = w\<lparr>ww_files := f'\<rparr>"
    using run by (auto simp: move_to_def on_files_def split: prod.splits)
  from move_keeps [OF here m] d w' show ?thesis unfolding kept_def by auto
qed

end

lemma on_services_bindE:
  assumes "bind_io (on_services m) k w = (r, w')"
  obtains (raised) e v where "m (ww_services w) = (Inl e, v)" "r = Inl e" "w' = w\<lparr>ww_services := v\<rparr>"
  | (returned) x v where "m (ww_services w) = (Inr x, v)" "k x (w\<lparr>ww_services := v\<rparr>) = (r, w')"
  using assms by (auto simp: bind_io_def on_services_def split: prod.splits sum.splits)

definition outcome_dirs :: "path \<Rightarrow> string set" where
  "outcome_dirs fp = {subdir fp ''processed'', subdir fp ''failed''}"

lemma outcome_dirs_simps [simp]: "subdir fp ''processed'' \<in> outcome_dirs fp" "subdir fp ''failed'' \<in> outcome_dirs fp"
  by (simp_all add: outcome_dirs_def)

text \<open>How the provisioning of a registered definition ends.\<close>

lemma provision_or_record_cases:
  assumes "provision_or_record E F fp c w = (r, w')"
  obtains (provisioned) p where "provision (tm_services E) (tm_settings E) c (tm_platform (ww_services w)) = (Inr (), p)"
      "r = Inr ()" "move_to F fp ''processed'' (w\<lparr>ww_services := (ww_services w)\<lparr>tm_platform := p\<rparr>\<rparr>) = (Inr (), w')"
  | (unmoved) p e w1 where "provision (tm_services E) (tm_settings E) c (tm_platform (ww_services w)) = (Inr (), p)"
      "move_to F fp ''processed'' (w\<lparr>ww_services := (ww_services w)\<lparr>tm_platform := p\<rparr>\<rparr>) = (Inl e, w1)"
      "bind_io (on_services (set_state E (pipeline_id c)
         (no_update\<lparr>set_status := Some FAILED, set_error := Some (''provisioning failed: '' @ exn_str e)\<rparr>)))
         (\<lambda>_. move_to F fp ''failed'') w1 = (r, w')"
  | (unprovisioned) p e where "provision (tm_services E) (tm_settings E) c (tm_platform (ww_services w)) = (Inl e, p)"
      "bind_io (on_services (set_state E (pipeline_id c)
         (no_update\<lparr>set_status := Some FAILED, set_error := Some (''provisioning failed: '' @ exn_str e)\<rparr>)))
         (\<lambda>_. move_to F fp ''failed'') (w\<lparr>ww_services := (ww_services w)\<lparr>tm_platform := p\<rparr>\<rparr>) = (r, w')"
proof -
  obtain x p where p: "provision (tm_services E) (tm_settings E) c (tm_platform (ww_services w)) = (x, p)" by fastforce
  show thesis
  proof (cases x)
    case (Inl e)
    with p assms show thesis
      by (intro unprovisioned [OF _]) (auto simp: provision_or_record_def catch_io_def
          bind_io_def [of "on_services (on_platform _)"] on_services_def on_platform_def)
  next
    case (Inr u)
    obtain y w1 where y: "move_to F fp ''processed'' (w\<lparr>ww_services := (ww_services w)\<lparr>tm_platform := p\<rparr>\<rparr>) = (y, w1)"
      by fastforce
    with p assms Inr show thesis
      by (cases y) (auto simp: provision_or_record_def catch_io_def
          bind_io_def [of "on_services (on_platform _)"] on_services_def on_platform_def
          intro: provisioned unmoved)
  qed
qed

context file_store
begin

lemma save_and_move_keeps:
  assumes here: "text_at (ww_files w) fp \<noteq> None"
    and run: "bind_io (on_services m) (\<lambda>_. move_to F fp d) w = (r, w')" and d: "subdir fp d \<in> ds"
  shows "kept text_at fp ds (ww_files w) (ww_files w') \<and>
    ((\<exists>e. r = Inl e) \<longrightarrow> text_at (ww_files w') fp = text_at (ww_files w) fp)"
  using run
proof (cases rule: on_services_bindE)
  case (raised e v)
  then show ?thesis by simp
next
  case (returned x v)
  with here move_to_keeps [of "w\<lparr>ww_services := v\<rparr>" fp d r w' ds] d show ?thesis by simp
qed

lemma provision_or_record_keeps:
  assumes here: "text_at (ww_files w) fp \<noteq> None" and run: "provision_or_record E F fp c w = (r, w')"
  shows "kept text_at fp (outcome_dirs fp) (ww_files w) (ww_files w') \<and>
    ((\<exists>e. r = Inl e) \<longrightarrow> text_at (ww_files w') fp = text_at (ww_files w) fp)"
  using run
proof (cases rule: provision_or_record_cases)
  case (provisioned p)
  then show ?thesis using move_to_keeps [OF _ provisioned(3), of "outcome_dirs fp"] here by simp
next
  case (unmoved p e w1)
  note k = move_to_keeps [OF _ unmoved(2), of "outcome_dirs fp"]
  from k here have here1: "text_at (ww_files w1) fp \<noteq> None" by simp
  from save_and_move_keeps [OF here1 unmoved(3), of "outcome_dirs fp"]
  have "kept text_at fp (outcome_dirs fp) (ww_files w1) (ww_files w') \<and>
    ((\<exists>e. r = Inl e) \<longrightarrow> text_at (ww_files w') fp = text_at (ww_files w1) fp)" by simp
  with k here show ?thesis using kept_trans [of text_at "ww_files w" fp "outcome_dirs fp" "ww_files w1" "ww_files w'"] by simp
next
  case (unprovisioned p e)
  then show ?thesis using save_and_move_keeps [OF _ unprovisioned(2), of "outcome_dirs fp"] here by simp
qed

lemma handle_definition_keeps:
  assumes here: "text_at (ww_files w) fp \<noteq> None" and run: "handle_definition E F D fp d w = (r, w')"
  shows "kept text_at fp (outcome_dirs fp) (ww_files w) (ww_files w') \<and>
    ((\<exists>e. r = Inl e) \<longrightarrow> text_at (ww_files w') fp = text_at (ww_files w) fp)"
  using run unfolding handle_definition_def
proof (cases rule: on_services_bindE)
  case (returned existing v)
  show ?thesis
  proof (cases "existing = None")
    case False
    with returned here show ?thesis using move_to_keeps [of "w\<lparr>ww_services := v\<rparr>" fp "''processed''" r w' "outcome_dirs fp"] by simp
  next
    case True
    with returned(2) have "bind_io (on_services (build_config E D d)) (\<lambda>c. bind_io (on_services (register E c)) (\<lambda>outcome.
        case outcome of Elsewhere \<Rightarrow> move_to F fp ''processed'' | Unregistered \<Rightarrow> move_to F fp ''failed''
        | Registered \<Rightarrow> provision_or_record E F fp c)) (w\<lparr>ww_services := v\<rparr>) = (r, w')" by simp
    then show ?thesis
    proof (cases rule: on_services_bindE)
      case (returned c v2)
      note built = this
      from built(2) show ?thesis
      proof (cases rule: on_services_bindE)
        case (returned x v3)
        let ?w = "w\<lparr>ww_services := v\<rparr>\<lparr>ww_services := v2\<rparr>\<lparr>ww_services := v3\<rparr>"
        from returned(2) have m: "(case x of Elsewhere \<Rightarrow> move_to F fp ''processed'' | Unregistered \<Rightarrow> move_to F fp ''failed''
          | Registered \<Rightarrow> provision_or_record E F fp c) ?w = (r, w')" .
        show ?thesis
          using m here provision_or_record_keeps [of ?w fp E c r w'] move_to_keeps [of ?w fp "''processed''" r w' "outcome_dirs fp"]
            move_to_keeps [of ?w fp "''failed''" r w' "outcome_dirs fp"]
          by (cases x) simp_all
      qed simp
    qed simp
  qed
qed simp

lemma read_json_same:
  assumes "read_json F D fp w = (x, w1)"
  shows "w1 = w"
proof -
  obtain y f' where y: "f_read F fp (ww_files w) = (y, f')" by fastforce
  with read_pure [OF y] assms show ?thesis
    by (cases y) (auto simp: read_json_def on_files_def bind_io_def)
qed

end

lemma handle_keeps:
  assumes F: "file_store F text_at" and here: "text_at (ww_files w) fp \<noteq> None" and run: "handle E F D fp w = (r, w')"
  shows "kept text_at fp (outcome_dirs fp) (ww_files w) (ww_files w') \<and>
    ((\<exists>e. r = Inl e) \<longrightarrow> text_at (ww_files w') fp = text_at (ww_files w) fp)"
proof -
  obtain x w1 where j: "read_json F D fp w = (x, w1)" by fastforce
  note w1 = file_store.read_json_same [OF F j]
  note m = file_store.move_to_keeps [OF F here, of "''failed''" r w' "outcome_dirs fp"]
  note h = file_store.handle_definition_keeps [OF F here, of E D _ r w']
  have "f_exists F fp (ww_files w)" using file_store.file_exists [OF F here] .
  with run j w1 m h show ?thesis by (auto simp: handle_def split: sum.splits if_splits)
qed

text \<open>
  C25: No definition is ever lost or overwritten. When the handler is given a file that is there,
  then whatever the file holds, whatever Redis, Kafka and ClickHouse answer and whether it
  raises or not, the file is afterwards where it was with its text, or its text is in
  \<open>processed\<close> or \<open>failed\<close> under a name that held no file before; every other file is as it was.
\<close>

theorem handle_keeps_files:
  assumes F: "file_store F text_at" and here: "text_at (ww_files w) fp \<noteq> None" and run: "handle E F D fp w = (r, w')"
  shows "(\<forall>x. x \<noteq> fp \<longrightarrow> text_at (ww_files w) x \<noteq> None \<longrightarrow> text_at (ww_files w') x = text_at (ww_files w) x) \<and>
    (text_at (ww_files w') fp = text_at (ww_files w) fp \<or>
     text_at (ww_files w') fp = None \<and> (\<exists>d\<in>{subdir fp ''processed'', subdir fp ''failed''}. \<exists>n.
       text_at (ww_files w) (d, n) = None \<and> text_at (ww_files w') (d, n) = text_at (ww_files w) fp))"
  using handle_keeps [OF F here run] by (simp add: kept_def outcome_dirs_def)

section \<open>What a definition leaves in Redis\<close>

text \<open>Every number and time give the definition a configuration that can be stored.\<close>

definition buildable :: "readers \<Rightarrow> pipeline_definition \<Rightarrow> bool" where
  "buildable D d \<longleftrightarrow> (\<forall>n now. \<exists>c. definition_config D d n now = Inr c \<and> storable c)"

lemma definition_config_simps:
  assumes "definition_config D d n now = Inr c"
  shows "pipeline_id c = def_pipeline_id d \<and> pipeline_type c = LIVE \<and> collection_number c = n"
  using assms make_pipeline_config_Inr
  by (fastforce simp: definition_config_def split: sum.splits)

lemma others_kept_stepped: "stepped E c v s k v' \<Longrightarrow> others_kept E (pipeline_id c) v v'"
  by (simp add: stepped_def only_state_def others_kept_def)

lemma others_kept_trans: "others_kept E p v v1 \<Longrightarrow> others_kept E p v1 v2 \<Longrightarrow> others_kept E p v v2"
  by (simp add: others_kept_def)

lemma register_new:
  assumes R: "redis_store (tm_redis_client E)" and st: "storable c"
    and free: "stored_config (tm_redis_client E) (tm_redis v) (pipeline_id c) = Inr None"
  obtains s v' where "register E c v = (Inr Registered, v')" "has_record E v' c s" "s = initial_state (updated_at s) c"
    "others_kept E (pipeline_id c) v v'" "tm_runtime v' = tm_runtime v" "tm_platform v' = tm_platform v"
proof -
  let ?R = "tm_redis_client E"
  obtain s r where new: "repo_create_pipeline ?R c (tm_redis v) = (Inr s, r)" "s = initial_state (updated_at s) c"
    "\<And>p. stored_config ?R r p = (if p = pipeline_id c then Inr (Some c) else stored_config ?R (tm_redis v) p)"
    "\<And>p. stored_state ?R r p = (if p = pipeline_id c then Inr (Some s) else stored_state ?R (tm_redis v) p)"
    using redis_store.repo_create_pipeline_new [OF R st free] by blast
  have "register E c v = (Inr Registered, v\<lparr>tm_redis := r\<rparr>)"
    using new(1) by (simp add: register_def catch_io_def bind_io_def on_redis_def ret_io_def)
  moreover have "st_pipeline_id s = pipeline_id c" by (subst new(2)) (simp add: initial_state_def)
  ultimately show thesis using that [of "v\<lparr>tm_redis := r\<rparr>" s] new(2-4) by (simp add: has_record_def others_kept_def)
qed

text \<open>A configuration is built, or the counter could not be read.\<close>

lemma build_config_cases:
  assumes R: "redis_store (tm_redis_client E)" and cnt: "counters_ok (tm_redis_client E) (tm_redis v)"
    and b: "buildable D d" and run: "build_config E D d v = (x, v1)"
  shows "(\<forall>p. stored_config (tm_redis_client E) (tm_redis v1) p = stored_config (tm_redis_client E) (tm_redis v) p \<and>
      stored_state (tm_redis_client E) (tm_redis v1) p = stored_state (tm_redis_client E) (tm_redis v) p) \<and>
    tm_runtime v1 = tm_runtime v \<and> tm_platform v1 = tm_platform v \<and>
    (\<forall>c. x = Inr c \<longrightarrow> storable c \<and> pipeline_id c = def_pipeline_id d \<and> pipeline_type c = LIVE)"
proof -
  obtain y r where y: "next_collection_number (tm_redis_client E) ''0'' (tm_redis v) = (y, r)" by fastforce
  note frame = redis_store.next_collection_number_frame [OF R cnt y]
  show ?thesis
  proof (cases y)
    case (Inl e)
    with run y frame show ?thesis by (auto simp: build_config_def bind_io_def on_redis_def)
  next
    case (Inr n)
    obtain c where "definition_config D d n (utc_now_iso (tm_redis_client E) r) = Inr c" "storable c"
      using b by (auto simp: buildable_def)
    with run y frame Inr definition_config_simps [OF this(1)] show ?thesis
      by (auto simp: build_config_def bind_io_def on_redis_def)
  qed
qed

text \<open>The state of a definition that could not be provisioned or moved.\<close>

lemma record_failure:
  assumes R: "redis_store (tm_redis_client E)" and rec: "has_record E (ww_services w) c s"
    and run: "bind_io (on_services (set_state E (pipeline_id c)
      (no_update\<lparr>set_status := Some FAILED, set_error := Some m\<rparr>))) (\<lambda>_. move_to F fp d) w = (r, w')"
  obtains s' where "has_record E (ww_services w') c s'" "status s' = FAILED" "desired_state s' = desired_state s"
    "last_error s' = Some m" "others_kept E (pipeline_id c) (ww_services w) (ww_services w')"
    "tm_runtime (ww_services w') = tm_runtime (ww_services w)" "tm_platform (ww_services w') = tm_platform (ww_services w)"
proof -
  obtain s' v where s': "set_state E (pipeline_id c) (no_update\<lparr>set_status := Some FAILED, set_error := Some m\<rparr>) (ww_services w) = (Inr s', v)"
    "s' = (apply_update (no_update\<lparr>set_status := Some FAILED, set_error := Some m\<rparr>) s)\<lparr>updated_at := updated_at s'\<rparr>"
    "has_record E v c s'" "only_state E (pipeline_id c) (ww_services w) v" "tm_runtime v = tm_runtime (ww_services w)"
    "tm_platform v = tm_platform (ww_services w)"
    by (rule set_state_found [OF R rec refl])
  have "ww_services w' = v" using run s'(1)
    by (auto simp: bind_io_def on_services_def move_to_def on_files_def split: prod.splits)
  moreover have "status s' = FAILED" "desired_state s' = desired_state s" "last_error s' = Some m"
    by (subst s'(2), simp add: no_update_def)+
  moreover have "others_kept E (pipeline_id c) (ww_services w) v" using s'(4) by (simp add: only_state_def others_kept_def)
  ultimately show thesis using that s'(3,5,6) by simp
qed

lemma move_to_services: "move_to F fp d w = (r, w') \<Longrightarrow> ww_services w' = ww_services w"
  by (auto simp: move_to_def on_files_def split: prod.splits)

text \<open>A file at \<open>fp\<close> that reads as the definition \<open>d\<close>.\<close>

definition reads_as :: "'f files \<Rightarrow> readers \<Rightarrow> 'f \<Rightarrow> path \<Rightarrow> pipeline_definition \<Rightarrow> bool" where
  "reads_as F D f fp d \<longleftrightarrow> f_exists F fp f \<and>
     (\<exists>s raw. f_read F fp f = (Inr s, f) \<and> loads D s = Inr raw \<and> model_validate D raw = Inr d)"

lemma handle_defined: "reads_as F D (ww_files w) fp d \<Longrightarrow> handle E F D fp w = handle_definition E F D fp d w"
  by (auto simp: reads_as_def handle_def read_json_def bind_io_def on_files_def)

lemma on_services_get_config:
  "stored_config (tm_redis_client E) (tm_redis (ww_services w)) pid = Inr found \<Longrightarrow>
     bind_io (on_services (on_redis (get_config (tm_redis_client E) pid))) k w = k found w"
  by (simp add: bind_io_def on_services_def)

text \<open>How the handling of a definition that is not registered yet runs.\<close>

lemma handle_definition_new:
  assumes R: "redis_store (tm_redis_client E)" and cnt: "counters_ok (tm_redis_client E) (tm_redis (ww_services w))"
    and b: "buildable D d"
    and free: "stored_config (tm_redis_client E) (tm_redis (ww_services w)) (def_pipeline_id d) = Inr None"
    and run: "handle_definition E F D fp d w = (r, w')"
  obtains (uncounted) e v where "r = Inl e" "w' = w\<lparr>ww_services := v\<rparr>"
      "\<forall>p. stored_config (tm_redis_client E) (tm_redis v) p = stored_config (tm_redis_client E) (tm_redis (ww_services w)) p \<and>
        stored_state (tm_redis_client E) (tm_redis v) p = stored_state (tm_redis_client E) (tm_redis (ww_services w)) p"
      "tm_runtime v = tm_runtime (ww_services w)" "tm_platform v = tm_platform (ww_services w)"
  | (registered) c s v where "pipeline_id c = def_pipeline_id d" "pipeline_type c = LIVE" "has_record E v c s"
      "s = initial_state (updated_at s) c" "others_kept E (def_pipeline_id d) (ww_services w) v"
      "tm_runtime v = tm_runtime (ww_services w)" "tm_platform v = tm_platform (ww_services w)"
      "provision_or_record E F fp c (w\<lparr>ww_services := v\<rparr>) = (r, w')"
proof -
  have "bind_io (on_services (build_config E D d)) (\<lambda>c. bind_io (on_services (register E c)) (\<lambda>outcome.
      case outcome of Elsewhere \<Rightarrow> move_to F fp ''processed'' | Unregistered \<Rightarrow> move_to F fp ''failed''
      | Registered \<Rightarrow> provision_or_record E F fp c)) w = (r, w')"
    using run by (simp add: handle_definition_def on_services_get_config [OF free])
  then show thesis
  proof (cases rule: on_services_bindE)
    case (raised e v)
    with build_config_cases [OF R cnt b raised(1)] show thesis by (intro uncounted [of e v]) simp_all
  next
    case (returned c v)
    note k = build_config_cases [OF R cnt b returned(1)]
    from k have c: "storable c" "pipeline_id c = def_pipeline_id d" "pipeline_type c = LIVE" by simp_all
    with k free have "stored_config (tm_redis_client E) (tm_redis v) (pipeline_id c) = Inr None" by simp
    then obtain s v2 where g: "register E c v = (Inr Registered, v2)" "has_record E v2 c s"
      "s = initial_state (updated_at s) c" "others_kept E (pipeline_id c) v v2" "tm_runtime v2 = tm_runtime v"
      "tm_platform v2 = tm_platform v"
      by (rule register_new [OF R c(1)])
    have "provision_or_record E F fp c (w\<lparr>ww_services := v2\<rparr>) = (r, w')"
      using returned(2) g(1) by (simp add: bind_io_def [of "on_services (register E c)"] on_services_def)
    moreover have "others_kept E (def_pipeline_id d) (ww_services w) v2"
      using k g(4) c(2) by (simp add: others_kept_def)
    ultimately show thesis using registered [of c v2 s] c g k by simp
  qed
qed


text \<open>
  A definition whose identifier is registered is never provisioned again, whatever became of the first
  attempt. Handling such a file changes nothing in Redis, Kafka or ClickHouse, whichever state
  the record is in: the file ends in \<open>processed\<close> or stays. A pipeline whose provisioning
  failed keeps the state failed when its file is dropped again.
\<close>

lemma redropped_definition_is_ignored:
  assumes F: "file_store F text_at" and here: "text_at (ww_files w) fp \<noteq> None"
    and rec: "has_record E (ww_services w) c s" and failed: "status s = FAILED"
    and def: "reads_as F D (ww_files w) fp d" and pid: "def_pipeline_id d = pipeline_id c"
    and run: "handle E F D fp w = (r, w')"
  shows "ww_services w' = ww_services w \<and>
    (text_at (ww_files w') fp = text_at (ww_files w) fp \<or>
     (\<exists>n. text_at (ww_files w) (subdir fp ''processed'', n) = None \<and>
        text_at (ww_files w') (subdir fp ''processed'', n) = text_at (ww_files w) fp))"
proof -
  have "stored_config (tm_redis_client E) (tm_redis (ww_services w)) (def_pipeline_id d) = Inr (Some c)"
    using rec pid by (simp add: has_record_def)
  with run def have "move_to F fp ''processed'' w = (r, w')"
    by (simp add: handle_defined handle_definition_def on_services_get_config)
  from file_store.move_to_keeps [OF F here this, of "{subdir fp ''processed''}"] show ?thesis by (auto simp: kept_def)
qed

text \<open>
  A definition that validates but has unusable source options. The error leaves the handler
  after a collection number has been drawn for it. At startup it is only logged: however often
  the service starts, the file stays where it is, no record changes and each start draws
  another number.
\<close>

lemma unusable_definition_draws_numbers:
  fixes E :: "('r, 'v, 'k, 'a, 'c) tm_env" and w :: "('r, 'k, 'a, 'c, 'f) watcher_world"
  assumes R: "redis_store (tm_redis_client E)" and F: "file_store F text_at"
    and cnt: "counters_ok (tm_redis_client E) (tm_redis (ww_services w))"
    and at: "r_get (tm_redis_client E) (collection_counter_key ''0'') (tm_redis (ww_services w)) = Some (dump_int (tm_redis_client E) m)"
    and def: "reads_as F D (ww_files w) fp d"
    and bad: "\<And>n now. \<exists>e. definition_config D d n now = Inl e"
    and free: "stored_config (tm_redis_client E) (tm_redis (ww_services w)) (def_pipeline_id d) = Inr None"
  shows "\<exists>w'. (handle_all E F D [fp] ^^ k) w = w' \<and> ww_files w' = ww_files w \<and>
    r_get (tm_redis_client E) (collection_counter_key ''0'') (tm_redis (ww_services w')) =
      Some (dump_int (tm_redis_client E) (m + int k)) \<and>
    (\<forall>p. stored_config (tm_redis_client E) (tm_redis (ww_services w')) p =
      stored_config (tm_redis_client E) (tm_redis (ww_services w)) p)"
proof -
  let ?R = "tm_redis_client E" and ?k = "collection_counter_key ''0''"
  define I where "I j v \<longleftrightarrow> ww_files v = ww_files w \<and> counters_ok ?R (tm_redis (ww_services v)) \<and>
    r_get ?R ?k (tm_redis (ww_services v)) = Some (dump_int ?R (m + int j)) \<and>
    (\<forall>p. stored_config ?R (tm_redis (ww_services v)) p = stored_config ?R (tm_redis (ww_services w)) p)" for j and v :: "('r, 'k, 'a, 'c, 'f) watcher_world"
  have step: "I (Suc j) (handle_all E F D [fp] v)" if v: "I j v" for j v
  proof -
    obtain x r where x: "next_collection_number ?R ''0'' (tm_redis (ww_services v)) = (x, r)" by fastforce
    from v have ok: "counters_ok ?R (tm_redis (ww_services v))"
      and c: "r_get ?R ?k (tm_redis (ww_services v)) = Some (dump_int ?R (m + int j))" by (simp_all add: I_def)
    note st = redis_store.next_collection_number_step [OF R ok x] redis_store.next_collection_number_frame [OF R ok x]
    from st(3) [OF c] have n: "x = Inr (m + int j + 1)" "r_get ?R ?k r = Some (dump_int ?R (m + int j + 1))" by simp_all
    obtain e where "definition_config D d (m + int j + 1) (utc_now_iso ?R r) = Inl e" using bad by blast
    with x n(1) have "build_config E D d (ww_services v) = (Inl e, (ww_services v)\<lparr>tm_redis := r\<rparr>)"
      by (simp add: build_config_def bind_io_def on_redis_def)
    moreover have "stored_config ?R (tm_redis (ww_services v)) (def_pipeline_id d) = Inr None" "reads_as F D (ww_files v) fp d"
      using v free def by (simp_all add: I_def)
    ultimately have "handle_all E F D [fp] v = v\<lparr>ww_services := (ww_services v)\<lparr>tm_redis := r\<rparr>\<rparr>"
      by (simp add: handle_defined handle_definition_def on_services_get_config bind_io_def [of "on_services (build_config _ _ _)"]
          on_services_def)
    moreover have sj: "m + int (Suc j) = m + int j + 1" by simp
    ultimately show ?thesis using v st(1,4) n(2) by (simp add: I_def sj del: of_nat_Suc handle_all.simps)
  qed
  have "I k ((handle_all E F D [fp] ^^ k) w)"
  proof (induction k)
    case 0
    then show ?case using cnt at by (simp add: I_def)
  next
    case (Suc k)
    then show ?case using step by simp
  qed
  then show ?thesis by (simp add: I_def)
qed

text \<open>
  One file system event. It is taken when it is for a \<open>.json\<close> file of the watched directory whose
  name is not in flight; the names in flight are afterwards the same, also when the handler
  raises, so that the name can be taken again; nothing happens to any other event. No text is lost,
  and a handler that raises leads to a second move, to \<open>failed\<close>.
\<close>

lemma on_created_outcome:
  assumes F: "file_store F text_at" and here: "text_at (ww_files w) fp \<noteq> None"
    and run: "on_created E F D watch_path is_directory fp (w, busy) = (r, (w', busy'))"
  shows "busy' = busy \<and> kept text_at fp (outcome_dirs fp) (ww_files w) (ww_files w') \<and>
    (if \<not> is_directory \<and> suffix (snd fp) = ''.json'' \<and> fst fp = watch_path \<and> snd fp \<notin> set busy
     then ww_services w' = ww_services (snd (handle E F D fp w)) \<and>
       (\<forall>e w1. handle E F D fp w = (Inl e, w1) \<longrightarrow> (r, ww_files w') = move F fp (subdir fp ''failed'') (ww_files w1))
     else r = Inr () \<and> w' = w)"
proof (cases "\<not> is_directory \<and> suffix (snd fp) = ''.json'' \<and> fst fp = watch_path \<and> snd fp \<notin> set busy")
  case False
  with run show ?thesis by (auto simp: on_created_def on_created_enter_def)
next
  case True
  then have wp: "watch_path @ ''/failed'' = subdir fp ''failed''" by (simp add: subdir_def)
  have idle: "filter (\<lambda>n. n \<noteq> snd fp) busy = busy" using True by (auto simp: filter_id_conv)
  obtain x w1 where h: "handle E F D fp w = (x, w1)" by fastforce
  note k = handle_keeps [OF F here h]
  have p: "process E F D fp (w, snd fp # busy) = (x, w1, busy)"
    using h idle by (simp add: process_def finally_io_def)
  show ?thesis
  proof (cases x)
    case (Inr u)
    with True run p h k show ?thesis
      by (auto simp: on_created_def on_created_enter_def catch_io_def)
  next
    case (Inl e)
    obtain y f' where m: "move F fp (subdir fp ''failed'') (ww_files w1) = (y, f')" by fastforce
    with True run p Inl have w': "r = y" "w' = w1\<lparr>ww_files := f'\<rparr>" "busy' = busy"
      by (auto simp: on_created_def on_created_enter_def catch_io_def wp on_files_def)
    from k Inl have same: "text_at (ww_files w1) fp = text_at (ww_files w) fp" by simp
    with here have here1: "text_at (ww_files w1) fp \<noteq> None" by simp
    from file_store.move_keeps [OF F here1 m] have "kept text_at fp (outcome_dirs fp) (ww_files w1) (ww_files w')"
      by (auto simp: kept_def w' outcome_dirs_def)
    with k same here have "kept text_at fp (outcome_dirs fp) (ww_files w) (ww_files w')"
      using kept_trans [of text_at "ww_files w" fp "outcome_dirs fp" "ww_files w1" "ww_files w'"] by simp
    moreover have "ww_services w' = ww_services (snd (handle E F D fp w))" using h w'(2) by simp
    moreover have "(r, ww_files w') = move F fp (subdir fp ''failed'') (ww_files w2)" if "handle E F D fp w = (Inl e2, w2)" for e2 w2
      using that h m w'(1,2) by simp
    ultimately show ?thesis unfolding if_P [OF True] using w'(3) by blast
  qed
qed

section \<open>A file system in memory\<close>

type_synonym memory_files = "(path \<times> string) list"

definition memory_move :: "path \<Rightarrow> path \<Rightarrow> (memory_files, unit) io" where
  "memory_move p q f =
     (case map_of f p of
        None \<Rightarrow> (Inl (FileNotFoundError (snd p)), f)
      | Some s \<Rightarrow> (Inr (), AList.update q s (AList.delete p f)))"

definition memory_fs :: "memory_files files" where
  "memory_fs =
     \<lparr>f_exists = (\<lambda>p f. map_of f p \<noteq> None), f_is_file = (\<lambda>p f. map_of f p \<noteq> None),
      f_names = (\<lambda>d f. map snd (filter (\<lambda>p. fst p = d) (map fst f))),
      f_read = (\<lambda>p f. (case map_of f p of None \<Rightarrow> Inl (FileNotFoundError (snd p)) | Some s \<Rightarrow> Inr s, f)),
      f_mkdir = (\<lambda>_ f. (Inr (), f)), f_move = memory_move\<rparr>"

lemma memory_move_done:
  assumes "map_of f q = None" and "memory_move p q f = (Inr (), f')"
  shows "map_of f' = (map_of f)(q := map_of f p, p := None)"
proof -
  from assms(2) obtain s where s: "map_of f p = Some s" "f' = AList.update q s (AList.delete p f)"
    by (auto simp: memory_move_def split: option.splits)
  with assms(1) have "p \<noteq> q" by auto
  with s show ?thesis by (simp add: update_conv' delete_conv' fun_upd_twist)
qed

interpretation mem_files: file_store memory_fs "map_of"
proof unfold_locales
  show "map_of f' = (map_of f)(q := map_of f p, p := None)"
    if "\<not> f_exists memory_fs q f" "f_move memory_fs p q f = (Inr (), f')" for f p q f'
    using that memory_move_done [of f q p f'] by (simp add: memory_fs_def)
next
  show "set (f_names memory_fs d f) = {n. f_exists memory_fs (d, n) f}" for d f
    by (force simp: memory_fs_def map_of_eq_None_iff)
qed (auto simp: memory_fs_def memory_move_def split: option.splits)

section \<open>Witnesses\<close>

definition sample_definition :: pipeline_definition where
  "sample_definition = \<lparr>def_pipeline_id = ''p1'', def_source_type = ''opcua'', def_topic = None,
     def_batch_size = 500, def_flush_interval_seconds = 60, def_source_options = []\<rparr>"

text \<open>Readers to whom every text is the sample definition, with options that parse or do not.\<close>

definition sample_readers :: "bool \<Rightarrow> readers" where
  "sample_readers ok = \<lparr>loads = (\<lambda>_. Inr VNone), model_validate = (\<lambda>_. Inr sample_definition),
     parse_options = (\<lambda>_. if ok then Inr (source_options sample_config) else Inl (ValidationError ''endpoint''))\<rparr>"

definition sample_files :: memory_files where
  "sample_files = [((''/d'', ''p.json''), ''{}''), ((''/d/processed'', ''p.json''), ''old'')]"

abbreviation sample_fp :: path where "sample_fp \<equiv> (''/d'', ''p.json'')"

definition watched :: "(fake_redis, memory_cluster, memory_kafka, string list) tm_world \<Rightarrow>
    (fake_redis, memory_cluster, memory_kafka, string list, memory_files) watcher_world" where
  "watched v = \<lparr>ww_services = v, ww_files = sample_files\<rparr>"

lemma watched_simps [simp]: "ww_services (watched v) = v" "ww_files (watched v) = sample_files"
  by (simp_all add: watched_def)

lemma sample_here: "map_of sample_files sample_fp \<noteq> None"
  by (simp add: sample_files_def)

lemma sample_reads: "reads_as memory_fs (sample_readers ok) sample_files sample_fp sample_definition"
  by (simp add: reads_as_def memory_fs_def sample_files_def sample_readers_def)

lemma sample_buildable: "buildable (sample_readers True) sample_definition"
proof -
  have "ch_unique_identifier (\<lambda>_. []) (VStr ''0'') (VInt 1) (Some ''events'') = Inr ''user_0_collection_1_events''"
    by code_simp
  then show ?thesis
    by (simp add: buildable_def definition_config_def sample_readers_def sample_definition_def parse_source_type_def
        storable_def make_pipeline_config_def sample_config_def)
qed

text \<open>A Redis that holds the counter of user zero only.\<close>

definition counted_world :: "(fake_redis, memory_cluster, memory_kafka, string list) tm_world" where
  "counted_world = vacant_world\<lparr>tm_redis := \<lparr>fake_data = [(collection_counter_key ''0'', DocInt 4)], fake_published = []\<rparr>\<rparr>"

lemma counted_simps:
  "counters_ok (tm_redis_client (sample_env i)) (tm_redis counted_world)"
  "r_get (tm_redis_client (sample_env i)) (collection_counter_key ''0'') (tm_redis counted_world) =
     Some (dump_int (tm_redis_client (sample_env i)) 4)"
  "stored_config (tm_redis_client (sample_env i)) (tm_redis counted_world) p = Inr None"
  by (auto simp: counters_ok_def counted_world_def fake_client_def fake_get_def stored_config_def key_simps)

lemma handle_keeps_files_witness:
  "\<exists>r w'. handle (sample_env True) memory_fs (sample_readers True) sample_fp (watched counted_world) = (r, w') \<and>
     map_of (ww_files w') (''/d/processed'', ''p.json'') = Some ''old''"
proof -
  obtain r w' where run: "handle (sample_env True) memory_fs (sample_readers True) sample_fp (watched counted_world) = (r, w')"
    by fastforce
  from handle_keeps_files [OF mem_files.file_store_axioms _ run] show ?thesis
    using run sample_here by (auto simp: sample_files_def)
qed


definition failed_state :: pipeline_state where
  "failed_state = (idle_state ''p1'')\<lparr>status := FAILED\<rparr>"

lemma failed_record: "has_record (sample_env True) (record_world failed_state) sample_config failed_state"
  by (rule record_world_record) (simp add: failed_state_def idle_state_def)

end
