(* ===== verification/Watcher_Loop.thy ===== *)
theory Watcher_Loop
  imports Folder_Watcher
begin

text \<open>
  \<open>folder_watcher_loop\<close> of \<^verbatim>\<open>task_manager/app/folder_watcher.py\<close>: the directories, the observer
  thread with its fallback, the startup scan, and the supervision of the observer. The lemmas
  show which observer is used, that none is left running, and what a restart does not catch up on.
\<close>

section \<open>Observers\<close>

text \<open>
  The two classes of the watchdog package. \<open>ob_start\<close> stands for the construction, the
  scheduling of the handler and the start of the thread, and yields the observer.
\<close>

datatype observer_class = Observer | PollingObserver pyfloat

record ('o, 'h) observer_api =
  ob_start :: "observer_class \<Rightarrow> ('o, 'h) io"
  ob_alive :: "'h \<Rightarrow> 'o \<Rightarrow> bool"
  ob_stop :: "'h \<Rightarrow> 'o \<Rightarrow> 'o"
  ob_join :: "'h \<Rightarrow> 'o \<Rightarrow> 'o"

fun try_observers :: "('o, 'h) observer_api \<Rightarrow> observer_class list \<Rightarrow> ('o, 'h) io" where
  "try_observers Ob [] = raise_io (RuntimeError ''Could not start any filesystem observer'')"
| "try_observers Ob (cls # classes) = catch_io (ob_start Ob cls) (\<lambda>_. try_observers Ob classes)"

definition start_observer :: "('o, 'h) observer_api \<Rightarrow> pyfloat \<Rightarrow> ('o, 'h) io" where
  "start_observer Ob interval = try_observers Ob [Observer, PollingObserver interval]"

section \<open>The loop\<close>

text \<open>
  What happens in a second of sleep, the events the observer delivers included, is a function of
  the list; when the list is over the task is cancelled. The result names the observer in use.
\<close>

fun supervise ::
  "('o, 'h) observer_api \<Rightarrow> pyfloat \<Rightarrow> ('w \<times> 'o \<Rightarrow> 'w \<times> 'o) list \<Rightarrow> 'h \<Rightarrow> 'w \<times> 'o \<Rightarrow>
     unit result \<times> 'h \<times> 'w \<times> 'o" where
  "supervise Ob interval [] h s = (Inr (), h, s)"
| "supervise Ob interval (second # seconds) h s =
     (case second s of (w1, o1) \<Rightarrow>
        if ob_alive Ob h o1 then supervise Ob interval seconds h (w1, o1)
        else
          (case start_observer Ob interval (ob_stop Ob h o1) of
             (Inl e, o2) \<Rightarrow> (Inl e, h, w1, o2)
           | (Inr h', o2) \<Rightarrow> supervise Ob interval seconds h' (w1, o2)))"

definition make_dirs :: "'f files \<Rightarrow> string \<Rightarrow> ('f, unit) io" where
  "make_dirs F dir =
     bind_io (f_mkdir F dir) (\<lambda>_. bind_io (f_mkdir F (dir @ ''/processed'')) (\<lambda>_. f_mkdir F (dir @ ''/failed'')))"

definition folder_watcher_loop ::
  "('r, 'v, 'k, 'a, 'c) tm_env \<Rightarrow> 'f files \<Rightarrow> readers \<Rightarrow> ('o, 'h) observer_api \<Rightarrow>
     (('r, 'k, 'a, 'c, 'f) watcher_world \<times> 'o \<Rightarrow> ('r, 'k, 'a, 'c, 'f) watcher_world \<times> 'o) list \<Rightarrow>
     (('r, 'k, 'a, 'c, 'f) watcher_world \<times> 'o, unit) io" where
  "folder_watcher_loop E F D Ob seconds s =
     (let dir = pipeline_definitions_dir (tm_settings E);
          interval = watcher_poll_interval_s (tm_settings E)
      in case on_files (make_dirs F dir) (fst s) of
           (Inl e, w1) \<Rightarrow> (Inl e, w1, snd s)
         | (Inr _, w1) \<Rightarrow>
             (case start_observer Ob interval (snd s) of
                (Inl e, o1) \<Rightarrow> (Inl e, w1, o1)
              | (Inr h, o1) \<Rightarrow>
                  (case supervise Ob interval seconds h (scan_existing E F D dir w1, o1) of
                     (r, h', w2, o2) \<Rightarrow> (r, w2, ob_join Ob h' (ob_stop Ob h' o2)))))"

section \<open>The observer in use\<close>

text \<open>No thread is started by what happens in a second.\<close>

definition starts_none :: "('o \<Rightarrow> 'h set) \<Rightarrow> ('w \<times> 'o \<Rightarrow> 'w \<times> 'o) \<Rightarrow> bool" where
  "starts_none running f \<longleftrightarrow> (\<forall>s. running (snd (f s)) \<subseteq> running (snd s))"

text \<open>
  What the loop relies on of the package: \<open>running\<close> are the threads that run. A start that raises
  leaves no thread behind, a thread that runs is alive, and a stopped thread that is joined has ended.
\<close>

locale observer_library =
  fixes Ob :: "('o, 'h) observer_api" and running :: "'o \<Rightarrow> 'h set"
  assumes started: "ob_start Ob cls ob = (Inr h, ob') \<Longrightarrow> running ob' \<subseteq> insert h (running ob)"
    and not_started: "ob_start Ob cls ob = (Inl e, ob') \<Longrightarrow> running ob' \<subseteq> running ob"
    and running_alive: "h \<in> running ob \<Longrightarrow> ob_alive Ob h ob"
    and stopping: "running (ob_stop Ob h ob) \<subseteq> running ob"
    and ended: "running (ob_join Ob h (ob_stop Ob h ob)) \<subseteq> running ob - {h}"
begin

lemma try_observers_running:
  "try_observers Ob classes ob = (r, ob') \<Longrightarrow>
     running ob' \<subseteq> (case r of Inl e \<Rightarrow> running ob | Inr h \<Rightarrow> insert h (running ob))"
proof (induction classes arbitrary: ob)
  case (Cons cls classes)
  show ?case
  proof (cases "ob_start Ob cls ob")
    case (Pair r1 ob1)
    show ?thesis
    proof (cases r1)
      case (Inl e)
      with Pair Cons.prems have "try_observers Ob classes ob1 = (r, ob')" by (simp add: catch_io_def)
      from Cons.IH [OF this] not_started [of cls ob e ob1] Pair Inl show ?thesis by (cases r) auto
    next
      case (Inr h)
      with Pair Cons.prems started [of cls ob h ob1] show ?thesis by (auto simp: catch_io_def)
    qed
  qed
qed (auto simp: raise_io_def)

lemma start_observer_running:
  assumes "start_observer Ob interval ob = (r, ob')" and "running ob = {}"
  shows "running ob' \<subseteq> (case r of Inl e \<Rightarrow> {} | Inr h \<Rightarrow> {h})"
  using try_observers_running [OF assms(1) [unfolded start_observer_def]] assms(2) by (cases r) simp_all

text \<open>At any time the observer in use is the only one that may run.\<close>

lemma supervise_running:
  assumes "list_all (starts_none running) seconds"
    and "running (snd s) \<subseteq> {h}" and "supervise Ob interval seconds h s = (r, h', s')"
  shows "running (snd s') \<subseteq> {h'}"
  using assms
proof (induction seconds arbitrary: h s)
  case (Cons f fs)
  obtain w1 ob1 where s1: "f s = (w1, ob1)" by fastforce
  have "running (snd (f s)) \<subseteq> running (snd s)" using Cons.prems(1) by (cases s) (simp add: starts_none_def)
  with Cons.prems(2) s1 have ob1: "running ob1 \<subseteq> {h}" by auto
  show ?case
  proof (cases "ob_alive Ob h ob1")
    case True
    with s1 ob1 Cons.prems show ?thesis by (intro Cons.IH [of "(w1, ob1)" h]) simp_all
  next
    case False
    with running_alive ob1 have "running ob1 = {}" by blast
    with stopping [of h ob1] have none: "running (ob_stop Ob h ob1) = {}" by simp
    obtain x ob2 where x: "start_observer Ob interval (ob_stop Ob h ob1) = (x, ob2)" by fastforce
    note ob2 = start_observer_running [OF x none]
    show ?thesis
    proof (cases x)
      case (Inl e)
      with x s1 False Cons.prems(3) ob2 show ?thesis by auto
    next
      case (Inr h2)
      with x s1 False Cons.prems ob2 show ?thesis by (intro Cons.IH [of "(w1, ob2)" h2]) simp_all
    qed
  qed
qed simp

lemma loop_leaves_none:
  assumes "list_all (starts_none running) seconds"
    and "running (snd s) = {}" and "folder_watcher_loop E F D Ob seconds s = (r, s')"
  shows "running (snd s') = {}"
proof -
  let ?dir = "pipeline_definitions_dir (tm_settings E)" and ?i = "watcher_poll_interval_s (tm_settings E)"
  obtain x w1 where x: "on_files (make_dirs F ?dir) (fst s) = (x, w1)" by fastforce
  obtain y ob1 where y: "start_observer Ob ?i (snd s) = (y, ob1)" by fastforce
  note ob1 = start_observer_running [OF y assms(2)]
  show ?thesis
  proof (cases x)
    case (Inl e)
    with assms(2,3) x show ?thesis by (auto simp: folder_watcher_loop_def)
  next
    case x': (Inr u)
    show ?thesis
    proof (cases y)
      case (Inl e)
      with x' x y ob1 assms(3) show ?thesis by (auto simp: folder_watcher_loop_def)
    next
      case (Inr h)
      obtain z h' w2 ob2 where z: "supervise Ob ?i seconds h (scan_existing E F D ?dir w1, ob1) = (z, h', w2, ob2)"
        by (metis prod_cases4)
      from supervise_running [OF assms(1) _ z] ob1 Inr have "running ob2 \<subseteq> {h'}" by simp
      with ended [of h' ob2] have "running (ob_join Ob h' (ob_stop Ob h' ob2)) = {}" by blast
      with x' x y z Inr assms(3) show ?thesis by (auto simp: folder_watcher_loop_def)
    qed
  qed
qed

end

section \<open>Observers in memory\<close>

text \<open>
  Threads are numbered; the first component is the number of the next one, the second what runs,
  the third says whether the native observer can be started.
\<close>

type_synonym memory_observers = "nat \<times> nat list \<times> bool"

definition memory_observer :: "(memory_observers, nat) observer_api" where
  "memory_observer =
     \<lparr>ob_start = (\<lambda>cls (n, ts, native).
        if cls = Observer \<and> \<not> native then (Inl (OSError ''inotify''), n, ts, native) else (Inr n, n + 1, n # ts, native)),
      ob_alive = (\<lambda>h (n, ts, native). h \<in> set ts),
      ob_stop = (\<lambda>h (n, ts, native). (n, removeAll h ts, native)), ob_join = (\<lambda>h s. s)\<rparr>"

definition running_threads :: "memory_observers \<Rightarrow> nat set" where
  "running_threads s = set (fst (snd s))"

interpretation mem_observer: observer_library memory_observer running_threads
  by unfold_locales (auto simp: memory_observer_def running_threads_def split: prod.splits if_splits)

section \<open>Properties\<close>


text \<open>
  The native observer is preferred, the polling one is the fallback, with the interval of the
  settings; only when both fail does the start raise.
\<close>

lemma start_observer_cases:
  obtains (native) h ob1 where "ob_start Ob Observer ob = (Inr h, ob1)" "start_observer Ob i ob = (Inr h, ob1)"
  | (polling) e ob1 h ob2 where "ob_start Ob Observer ob = (Inl e, ob1)"
      "ob_start Ob (PollingObserver i) ob1 = (Inr h, ob2)" "start_observer Ob i ob = (Inr h, ob2)"
  | (none) e ob1 e2 ob2 where "ob_start Ob Observer ob = (Inl e, ob1)"
      "ob_start Ob (PollingObserver i) ob1 = (Inl e2, ob2)"
      "start_observer Ob i ob = (Inl (RuntimeError ''Could not start any filesystem observer''), ob2)"
proof -
  obtain x ob1 where x: "ob_start Ob Observer ob = (x, ob1)" by fastforce
  obtain y ob2 where y: "ob_start Ob (PollingObserver i) ob1 = (y, ob2)" by fastforce
  show thesis
    using x y native polling none by (cases x; cases y) (auto simp: start_observer_def catch_io_def raise_io_def)
qed

text \<open>
  A restart does not scan. What was dropped in the second in which the observer died stays where
  it is: if the seconds after it pass without a change, the loop ends with the world that second left,
  whether the restart works or not.
\<close>

lemma supervise_quiet:
  "list_all (\<lambda>f. \<forall>s. fst (f s) = fst s) seconds \<Longrightarrow> supervise Ob i seconds h s = (r, h', s') \<Longrightarrow> fst s' = fst s"
proof (induction seconds arbitrary: h s)
  case (Cons f fs)
  obtain w1 ob1 where s1: "f s = (w1, ob1)" by fastforce
  have "fst (f s) = fst s" using Cons.prems(1) by (cases s) simp
  with s1 have w1: "w1 = fst s" by simp
  obtain x ob2 where x: "start_observer Ob i (ob_stop Ob h ob1) = (x, ob2)" by fastforce
  have "fst s' = fst s" if "supervise Ob i fs h2 (w1, ob3) = (r, h', s')" for h2 ob3
    using Cons.IH [OF _ that] Cons.prems(1) w1 by simp
  with Cons.prems(2) s1 x w1 show ?case by (cases x) (auto split: if_splits)
qed simp

lemma restart_does_not_scan:
  assumes "second s = (w1, ob1)" and "\<not> ob_alive Ob h ob1" and "list_all (\<lambda>f. \<forall>s. fst (f s) = fst s) seconds"
    and "supervise Ob i (second # seconds) h s = (r, h', s')"
  shows "fst s' = w1"
proof (cases "start_observer Ob i (ob_stop Ob h ob1)")
  case (Pair x ob2)
  with assms(1,2,4) supervise_quiet [OF assms(3), of Ob i _ "(w1, ob2)" r h' s'] show ?thesis by (cases x) auto
qed


end
