(* ===== verification/Api_Lifecycle.thy ===== *)
theory Api_Lifecycle
  imports Watcher_Loop
begin

text \<open>
  The process around the handlers of \<^verbatim>\<open>task_manager/app/main.py\<close>: what \<open>lifespan\<close> sets up and takes
  down, the repository a request is given, and the health endpoint. The lemmas say what a request
  meets before the start-up and after the shutdown, and what the health answer does not see.
\<close>

section \<open>The process\<close>

text \<open>
  The module's globals: whether \<open>_redis\<close> is set, and the background tasks, each with what it ended with,
  if it has ended. \<open>app_conn\<close> is the connection. \<open>ping\<close> and \<open>aclose\<close> are calls of the client.
\<close>

record 'r api_process =
  app_redis :: bool
  app_tasks :: "(string \<times> unit result option) list"
  app_conn :: 'r

record 'r api_client =
  ac_ping :: "('r, unit) io"
  ac_aclose :: "('r, unit) io"

definition on_client :: "('r, 'a) io \<Rightarrow> ('r api_process, 'a) io" where
  "on_client m w = (case m (app_conn w) of (r, c) \<Rightarrow> (r, w\<lparr>app_conn := c\<rparr>))"

definition new_process :: "'r \<Rightarrow> 'r api_process" where
  "new_process c = \<lparr>app_redis = False, app_tasks = [], app_conn = c\<rparr>"

text \<open>Before the \<open>yield\<close> of \<open>lifespan\<close>, and after it.\<close>

definition startup :: "settings \<Rightarrow> 'r api_client \<Rightarrow> ('r api_process, unit) io" where
  "startup S C w =
     bind_io (on_client (ac_ping C)) (\<lambda>_ v.
       (Inr (), if watcher_enabled S then v\<lparr>app_tasks := app_tasks v @ [(''folder-watcher'', None)]\<rparr> else v))
       (w\<lparr>app_redis := True\<rparr>)"

definition shutdown :: "'r api_client \<Rightarrow> ('r api_process, unit) io" where
  "shutdown C w =
     (if app_redis w then on_client (ac_aclose C) else ret_io ()) (w\<lparr>app_tasks := []\<rparr>)"

text \<open>The dependency of every handler: the repository over the client, if there is one.\<close>

definition request_repo :: "('r api_process, unit) io" where
  "request_repo w = (if app_redis w then (Inr (), w) else (Inl (RuntimeError ''Redis not initialised''), w))"

definition health :: "settings \<Rightarrow> 'r api_client \<Rightarrow> ('r api_process, (string \<times> string) list) io" where
  "health S C w =
     bind_io (if app_redis w then on_client (ac_ping C) else ret_io ()) (\<lambda>_.
       ret_io [(''status'', ''ok''), (''service'', ''task-manager''), (''runtime_mode'', runtime_mode S)]) w"

section \<open>What requests meet\<close>

text \<open>A request is refused until the start-up has set the client, and only until then.\<close>

lemma requests_need_the_startup:
  "request_repo (new_process c) = (Inl (RuntimeError ''Redis not initialised''), new_process c)"
  "startup S C w = (r, w1) \<Longrightarrow> request_repo w1 = (Inr (), w1)"
  "shutdown C w1 = (r, w2) \<Longrightarrow> app_redis w2 = app_redis w1 \<and> app_tasks w2 = []"
  by (auto simp: request_repo_def new_process_def startup_def shutdown_def on_client_def bind_io_def ret_io_def
      split: prod.splits sum.splits if_splits)

text \<open>A start-up whose \<open>ping\<close> raises creates no task; another one creates the watcher's, if it is enabled.\<close>

lemma startup_tasks:
  assumes "startup S C (new_process c) = (r, w1)"
  shows "app_tasks w1 = (if r = Inr () \<and> watcher_enabled S then [(''folder-watcher'', None)] else [])"
  using assms by (auto simp: startup_def new_process_def on_client_def bind_io_def split: prod.splits sum.splits if_splits)

text \<open>
  The health answer does not look at the tasks: a watcher that has ended with an error, because no observer could be
  restarted, leaves it as it was.
\<close>

lemma health_ignores_the_watcher:
  "fst (health S C (w\<lparr>app_tasks := ts\<rparr>)) = fst (health S C w)"
  by (simp add: health_def on_client_def bind_io_def ret_io_def split: prod.split sum.split)

end
