(* ===== verification/Opcua_Connector.thy ===== *)
theory Opcua_Connector
  imports Telegraf_Config
begin

text \<open>
  \<^verbatim>\<open>connectors/opcua/connector.py\<close>: the process Telegraf runs per pipeline. It reads its
  configuration from the environment that \<^verbatim>\<open>sources.py\<close> renders, prints one JSON record per
  notification, serves its health and exits when the session is gone. The OPC UA client is a
  library; what is used of it is a record of calls.
\<close>

section \<open>The environment\<close>

text \<open>\<open>int(s)\<close> of a string.\<close>

definition int_of_str :: "string \<Rightarrow> int result" where
  "int_of_str s0 =
     (let s1 = strip s0 in
      case split_sign (filter (\<lambda>c. c \<noteq> CHR ''_'') s1) of (neg, ds) \<Rightarrow>
        if underscores_ok False s1 \<and> ds \<noteq> [] \<and> list_all is_digit ds
        then Inr ((if neg then - 1 else 1) * int (nat_of_digits ds))
        else Inl (ValueError ''invalid literal for int() with base 10''))"

text \<open>The environment of a process started with assignments on top of another one.\<close>

definition assignment :: "string \<Rightarrow> string \<times> string" where
  "assignment s = (takeWhile (\<lambda>c. c \<noteq> CHR ''='') s, tl (dropWhile (\<lambda>c. c \<noteq> CHR ''='') s))"

definition environ :: "(string \<Rightarrow> string option) \<Rightarrow> string list \<Rightarrow> string \<Rightarrow> string option" where
  "environ base assignments k =
     (case map_of (map assignment assignments) k of Some v \<Rightarrow> Some v | None \<Rightarrow> base k)"

definition getenv :: "(string \<Rightarrow> string option) \<Rightarrow> string \<Rightarrow> string \<Rightarrow> string" where
  "getenv env k d = (case env k of Some v \<Rightarrow> v | None \<Rightarrow> d)"

record connector_config =
  cfg_pipeline_id :: string
  cfg_endpoint :: string
  cfg_node_ids :: "string list"
  cfg_node_names :: pyval
  cfg_publishing_interval_ms :: int
  cfg_connection_check_s :: pyfloat
  cfg_connect_timeout_s :: pyfloat
  cfg_health_port :: int
  cfg_staleness_threshold_s :: pyfloat

definition system_exit :: "string \<Rightarrow> exn" where
  "system_exit m = OtherError ''SystemExit'' m"

definition node_id_list :: "string \<Rightarrow> string list" where
  "node_id_list s = map strip (filter (\<lambda>n. strip n \<noteq> []) (split_max CHR '','' (length s) s))"

text \<open>The values of the dict, in its order; the first that raises ends the construction.\<close>

definition config_values ::
  "(string \<Rightarrow> string option) \<Rightarrow> string \<Rightarrow> string list \<Rightarrow> pyval \<Rightarrow> connector_config result" where
  "config_values env url ids names =
     (case int_of_str (getenv env ''OPCUA_PUBLISHING_INTERVAL_MS'' ''500'') of Inl e \<Rightarrow> Inl e | Inr interval \<Rightarrow>
      case float_of_str (getenv env ''OPCUA_CONNECTION_CHECK_S'' ''5'') of Inl e \<Rightarrow> Inl e | Inr check \<Rightarrow>
      case float_of_str (getenv env ''OPCUA_CONNECT_TIMEOUT_S'' ''4'') of Inl e \<Rightarrow> Inl e | Inr timeout \<Rightarrow>
      case int_of_str (getenv env ''HEALTH_PORT'' ''0'') of Inl e \<Rightarrow> Inl e | Inr port \<Rightarrow>
      case float_of_str (getenv env ''OPCUA_STALENESS_THRESHOLD_S'' ''60'') of Inl e \<Rightarrow> Inl e | Inr threshold \<Rightarrow>
        Inr \<lparr>cfg_pipeline_id = getenv env ''PIPELINE_ID'' ''unknown'', cfg_endpoint = url, cfg_node_ids = ids,
             cfg_node_names = names, cfg_publishing_interval_ms = interval, cfg_connection_check_s = check,
             cfg_connect_timeout_s = timeout, cfg_health_port = port, cfg_staleness_threshold_s = threshold\<rparr>)"

text \<open>\<open>loads\<close> is \<open>json.loads\<close>.\<close>

definition read_config :: "(string \<Rightarrow> pyval result) \<Rightarrow> (string \<Rightarrow> string option) \<Rightarrow> connector_config result" where
  "read_config loads env =
     (let url = getenv env ''OPCUA_ENDPOINT'' []; ids = node_id_list (getenv env ''OPCUA_NODE_IDS'' []);
          raw = getenv env ''OPCUA_NODE_NAMES_JSON'' [] in
      if url = [] then Inl (system_exit ''OPCUA_ENDPOINT is required'')
      else if ids = [] then Inl (system_exit ''OPCUA_NODE_IDS is required, e.g. OPCUA_NODE_IDS=ns=2;i=2,ns=2;i=3'')
      else
        (case loads (if raw = [] then ''{}'' else raw) of
           Inl (JSONDecodeError m) \<Rightarrow> Inl (system_exit (''OPCUA_NODE_NAMES_JSON is not valid JSON: '' @ m))
         | Inl e \<Rightarrow> Inl e
         | Inr names \<Rightarrow> config_values env url ids names))"

section \<open>Records\<close>

text \<open>\<open>json.dumps\<close> of a value; a \<open>datetime\<close> anywhere in it raises. \<open>rp\<close> is the \<open>repr\<close> of a finite float.\<close>

fun json_text :: "(pyval \<Rightarrow> string) \<Rightarrow> pyval \<Rightarrow> string" where
  "json_text rp VNone = ''null''"
| "json_text rp (VBool b) = (if b then ''true'' else ''false'')"
| "json_text rp (VInt n) = str_of_int n"
| "json_text rp (VFloat PInf) = ''Infinity''"
| "json_text rp (VFloat NInf) = ''-Infinity''"
| "json_text rp (VFloat NaN) = ''NaN''"
| "json_text rp (VFloat (Fin x)) = rp (VFloat (Fin x))"
| "json_text rp (VStr s) = json_string s"
| "json_text rp (VTime t) = []"
| "json_text rp (VList vs) = ''['' @ str_join '', '' (map (json_text rp) vs) @ '']''"
| "json_text rp (VDict d) = ''{'' @ str_join '', '' (map (\<lambda>p. json_string (fst p) @ '': '' @ json_text rp (snd p)) d) @ ''}''"

fun json_serializable :: "pyval \<Rightarrow> bool" where
  "json_serializable (VTime t) = False"
| "json_serializable (VList vs) = list_all json_serializable vs"
| "json_serializable (VDict d) = list_all (\<lambda>p. json_serializable (snd p)) d"
| "json_serializable v = True"

definition json_dumps :: "(pyval \<Rightarrow> string) \<Rightarrow> pyval \<Rightarrow> string result" where
  "json_dumps rp v =
     (if json_serializable v then Inr (json_text rp v)
      else Inl (TypeError ''Object of type datetime is not JSON serializable''))"

text \<open>\<open>str.lower\<close>: the upper-case letters of Latin-1.\<close>

definition py_lower :: "string \<Rightarrow> string" where
  "py_lower = map (\<lambda>c. let n = (of_char c :: nat) in
     if 65 \<le> n \<and> n \<le> 90 \<or> 192 \<le> n \<and> n \<le> 222 \<and> n \<noteq> 215 then char_of (n + 32) else c)"

definition sensor_name :: "pyval \<Rightarrow> string \<Rightarrow> string result" where
  "sensor_name names node_id =
     (case names of
        VDict d \<Rightarrow>
          (case dict_get d node_id of
             None \<Rightarrow> Inr (py_lower node_id)
           | Some (VStr s) \<Rightarrow> Inr (py_lower s)
           | Some _ \<Rightarrow> Inl (AttributeError ''lower''))
      | _ \<Rightarrow> Inl (AttributeError ''get''))"

text \<open>
  A notification: the text of its node's identifier, or what reading it or the notification raises; the
  instants of the source and of the machine, in microseconds; whether its status, if there is
  one, is good and is uncertain; the value; and the monotonic clock once it is printed.
\<close>

record notification =
  nt_node_id :: "string result"
  nt_source_time :: "int option"
  nt_now :: int
  nt_status :: "(bool \<times> bool) option"
  nt_value :: pyval
  nt_monotonic :: rat

definition event_record :: "(int \<Rightarrow> string) \<Rightarrow> string \<Rightarrow> pyval \<Rightarrow> int \<Rightarrow> string \<Rightarrow> notification \<Rightarrow> pyval result" where
  "event_record iso_text pid names sequence node_id n =
     (case sensor_name names node_id of
        Inl e \<Rightarrow> Inl e
      | Inr sensor \<Rightarrow>
          (case nt_status n of
             None \<Rightarrow> Inl (AttributeError ''is_good'')
           | Some (good, uncertain) \<Rightarrow> Inr (VDict
             [(''pipeline_id'', VStr pid),
              (''event_time'', VStr (iso_text (case nt_source_time n of Some t \<Rightarrow> t | None \<Rightarrow> nt_now n))),
              (''sequence'', VInt sequence),
              (''source'', VStr ''opcua''),
              (''sensor'', VStr sensor),
              (''node_id'', VStr node_id),
              (''value'', nt_value n),
              (''quality'', VStr (if good then ''good'' else if uncertain then ''uncertain'' else ''bad''))])))"

section \<open>The emitter\<close>

record 'o emitter =
  em_pipeline_id :: string
  em_node_names :: pyval
  em_out :: 'o
  em_last_read :: rat
  em_sequence :: int

text \<open>What the emitter uses: the \<open>isoformat\<close> of an instant, \<open>repr\<close> of floats, and printing a line.\<close>

record 'o emitter_env =
  ee_iso :: "int \<Rightarrow> string"
  ee_repr :: "pyval \<Rightarrow> string"
  ee_print :: "string \<Rightarrow> ('o, unit) io"

definition new_emitter :: "connector_config \<Rightarrow> 'o \<Rightarrow> rat \<Rightarrow> 'o emitter" where
  "new_emitter c out now =
     \<lparr>em_pipeline_id = cfg_pipeline_id c, em_node_names = cfg_node_names c, em_out = out, em_last_read = now, em_sequence = 0\<rparr>"

definition event_line :: "'o emitter_env \<Rightarrow> string \<Rightarrow> pyval \<Rightarrow> int \<Rightarrow> string \<Rightarrow> notification \<Rightarrow> string result" where
  "event_line V pid names sequence node_id n =
     (case event_record (ee_iso V) pid names sequence node_id n of
        Inl e \<Rightarrow> Inl e
      | Inr v \<Rightarrow> json_dumps (ee_repr V) v)"

text \<open>Every exception is logged: the number is spent once the node's identifier has been read.\<close>

definition datachange_notification :: "'o emitter_env \<Rightarrow> notification \<Rightarrow> 'o emitter \<Rightarrow> 'o emitter" where
  "datachange_notification V n e =
     (case nt_node_id n of
        Inl _ \<Rightarrow> e
      | Inr node_id \<Rightarrow>
          let e1 = e\<lparr>em_sequence := em_sequence e + 1\<rparr> in
          (case event_line V (em_pipeline_id e1) (em_node_names e1) (em_sequence e1) node_id n of
             Inl _ \<Rightarrow> e1
           | Inr line \<Rightarrow>
               (case ee_print V line (em_out e1) of
                  (Inl _, out) \<Rightarrow> e1\<lparr>em_out := out\<rparr>
                | (Inr _, out) \<Rightarrow> e1\<lparr>em_out := out, em_last_read := nt_monotonic n\<rparr>)))"

fun notify_all :: "'o emitter_env \<Rightarrow> notification list \<Rightarrow> 'o emitter \<Rightarrow> 'o emitter" where
  "notify_all V [] e = e"
| "notify_all V (n # ns) e = notify_all V ns (datachange_notification V n e)"

section \<open>Health\<close>

fun float_le :: "rat \<Rightarrow> pyfloat \<Rightarrow> bool" where
  "float_le x (Fin y) = (x \<le> y)"
| "float_le x PInf = True"
| "float_le x NInf = False"
| "float_le x NaN = False"

definition age_s :: "rat \<Rightarrow> 'o emitter \<Rightarrow> rat" where
  "age_s now e = now - em_last_read e"

record health_response =
  hr_status :: int
  hr_headers :: "(string \<times> string) list"
  hr_body :: string

text \<open>\<open>round(age, 1)\<close> is the nearest tenth, ties to even.\<close>

definition do_GET :: "(pyval \<Rightarrow> string) \<Rightarrow> pyfloat \<Rightarrow> rat \<Rightarrow> 'o emitter \<Rightarrow> health_response" where
  "do_GET rp threshold now e =
     (let age = age_s now e;
          healthy = float_le age threshold;
          body = json_text rp (VDict
            [(''status'', VStr (if healthy then ''ok'' else ''stale'')),
             (''seconds_since_last_read'', VFloat (to_double (of_int (round_half_even (age * 10)) / 10))),
             (''threshold_seconds'', VFloat threshold)])
      in \<lparr>hr_status = (if healthy then 200 else 503),
          hr_headers = [(''Content-Type'', ''application/json''), (''Content-Length'', str_of_int (int (length body)))],
          hr_body = body\<rparr>)"

section \<open>The session\<close>

text \<open>
  The calls of the client, and binding the health port. \<open>checks\<close> bounds the liveness checks
  that are looked at: \<open>None\<close> is a session that is still up after that many.
\<close>

record 'c opcua_session =
  oc_connect :: "('c, unit) io"
  oc_serve :: "int \<Rightarrow> ('c, unit) io"
  oc_create_subscription :: "int \<Rightarrow> ('c, unit) io"
  oc_subscribe :: "string list \<Rightarrow> ('c, unit) io"
  oc_check :: "('c, unit) io"
  oc_disconnect :: "('c, unit) io"

fun check_loop :: "nat \<Rightarrow> 'c opcua_session \<Rightarrow> 'c \<Rightarrow> (unit result \<times> 'c) option" where
  "check_loop 0 S c = None"
| "check_loop (Suc n) S c =
     (case oc_check S c of
        (Inl e, c') \<Rightarrow> Some (Inl e, c')
      | (Inr _, c') \<Rightarrow> check_loop n S c')"

definition set_up :: "'c opcua_session \<Rightarrow> connector_config \<Rightarrow> ('c, unit) io" where
  "set_up S cfg =
     bind_io (if cfg_health_port cfg \<noteq> 0 then oc_serve S (cfg_health_port cfg) else ret_io ()) (\<lambda>_.
     bind_io (oc_create_subscription S (cfg_publishing_interval_ms cfg)) (\<lambda>_.
       oc_subscribe S (cfg_node_ids cfg)))"

definition hang_up :: "'c opcua_session \<Rightarrow> ('c, unit) io" where
  "hang_up S = catch_io (oc_disconnect S) (\<lambda>_. ret_io ())"

definition run :: "nat \<Rightarrow> 'c opcua_session \<Rightarrow> connector_config \<Rightarrow> 'c \<Rightarrow> (unit result \<times> 'c) option" where
  "run checks S cfg c =
     (case oc_connect S c of
        (Inl e, c1) \<Rightarrow> Some (Inl e, c1)
      | (Inr _, c1) \<Rightarrow>
          (case (case set_up S cfg c1 of
                   (Inl e, c2) \<Rightarrow> Some (Inl e, c2)
                 | (Inr _, c2) \<Rightarrow> check_loop checks S c2) of
             None \<Rightarrow> None
           | Some (r, c3) \<Rightarrow> Some (finally_io (\<lambda>c. (r, c)) (hang_up S) c3)))"

text \<open>The exit status; an interrupt from the keyboard is not modelled.\<close>

definition connector_main :: "nat \<Rightarrow> 'c opcua_session \<Rightarrow> connector_config \<Rightarrow> 'c \<Rightarrow> (int \<times> 'c) option" where
  "connector_main checks S cfg c =
     (case run checks S cfg c of
        None \<Rightarrow> None
      | Some (Inr _, c') \<Rightarrow> Some (0, c')
      | Some (Inl e, c') \<Rightarrow> Some (1, c'))"

section \<open>Reading the environment back\<close>

lemma digit_value_nth: "i < 10 \<Longrightarrow> digit_value (decimal_digits ! i) = i"
proof -
  have "\<forall>i\<in>set [0..<10]. digit_value (decimal_digits ! i) = i" by code_simp
  then show "i < 10 \<Longrightarrow> digit_value (decimal_digits ! i) = i" by simp
qed

lemma nat_of_digits_snoc: "nat_of_digits (s @ [c]) = 10 * nat_of_digits s + digit_value c"
  by (simp add: nat_of_digits_def)

lemma nat_of_digits_str: "nat_of_digits (str_of_nat n) = n"
proof (induction n rule: str_of_nat.induct)
  case (1 n)
  show ?case
  proof (cases "n < 10")
    case True
    then show ?thesis by (subst str_of_nat.simps) (simp add: nat_of_digits_def digit_value_nth)
  next
    case False
    with 1 show ?thesis by (subst str_of_nat.simps) (simp add: nat_of_digits_snoc digit_value_nth)
  qed
qed

lemma underscores_ok_none: "CHR ''_'' \<notin> set s \<Longrightarrow> underscores_ok b s"
  by (induction s arbitrary: b) auto

lemma strip_id: "s = [] \<or> hd s \<notin> set py_space \<and> last s \<notin> set py_space \<Longrightarrow> strip s = s"
proof -
  have d: "dropWhile P t = t" if "t = [] \<or> \<not> P (hd t)" for P and t :: string
    using that by (cases t) auto
  show "s = [] \<or> hd s \<notin> set py_space \<and> last s \<notin> set py_space \<Longrightarrow> strip s = s"
    by (auto simp: strip_def d hd_rev)
qed

lemma str_of_nat_chars: "c \<in> set (str_of_nat n) \<Longrightarrow> c \<in> set decimal_digits"
  using set_str_of_nat by blast

lemma digits_plain: "c \<in> set decimal_digits \<Longrightarrow> c \<notin> set py_space \<and> c \<noteq> CHR ''_'' \<and> c \<noteq> CHR ''-'' \<and> c \<noteq> CHR ''+''"
  by (auto simp: decimal_digits_def py_space_def)

lemma int_of_str_digits:
  assumes sign: "sign = [] \<or> sign = ''-''"
  shows "int_of_str (sign @ str_of_nat n) = Inr ((if sign = [] then 1 else - 1) * int n)"
proof -
  let ?s = "sign @ str_of_nat n"
  obtain d ds where d: "str_of_nat n = d # ds" by (cases "str_of_nat n") auto
  have dig: "\<forall>c\<in>set (str_of_nat n). c \<in> set decimal_digits" using str_of_nat_chars by blast
  then have "last (str_of_nat n) \<in> set decimal_digits" by simp
  moreover have "hd ?s = CHR ''-'' \<or> hd ?s \<in> set decimal_digits" using sign dig d by auto
  ultimately have st: "strip ?s = ?s"
    using digits_plain by (intro strip_id) (auto simp: py_space_def)
  have "CHR ''_'' \<notin> set decimal_digits" by (simp add: decimal_digits_def)
  moreover have "set ?s \<subseteq> insert CHR ''-'' (set decimal_digits)" using sign set_str_of_nat [of n] by auto
  ultimately have us: "CHR ''_'' \<notin> set ?s" by auto
  then have f: "filter (\<lambda>c. c \<noteq> CHR ''_'') ?s = ?s" by (intro filter_True) auto
  have "split_sign ?s = (sign \<noteq> [], str_of_nat n)"
    using sign d dig digits_plain [of d] by (auto simp: split_sign_def)
  moreover have "list_all is_digit (str_of_nat n)" using dig by (simp add: list_all_iff is_digit_def)
  ultimately show ?thesis
    using underscores_ok_none [OF us] by (simp add: int_of_str_def Let_def st f nat_of_digits_str del: filter_append)
qed

lemma int_of_str_of_int: "int_of_str (str_of_int i) = Inr i"
  using int_of_str_digits [of "''-''" "nat (- i)"] int_of_str_digits [of "[]" "nat i"] by (simp add: str_of_int_def)

lemma split_max_none: "c \<notin> set s \<Longrightarrow> split_max c n s = [s]"
  by (cases n) simp_all

lemma split_max_join:
  "xs \<noteq> [] \<Longrightarrow> \<forall>x\<in>set xs. c \<notin> set x \<Longrightarrow> length xs \<le> Suc n \<Longrightarrow> split_max c n (str_join [c] xs) = xs"
proof (induction xs arbitrary: n)
  case (Cons s ss)
  show ?case
  proof (cases ss)
    case Nil
    with Cons.prems show ?thesis by (simp add: split_max_none)
  next
    case (Cons t us)
    with Cons.prems obtain m where n: "n = Suc m" by (cases n) auto
    have "split_max c (Suc m) (s @ c # str_join [c] ss) = s # split_max c m (str_join [c] ss)"
      by (rule split_max_append) (use Cons.prems in simp)
    with Cons.IH [of m] Cons.prems Cons n show ?thesis by (simp del: split_max.simps)
  qed
qed simp

lemma length_join: "length xs \<le> Suc (length (str_join [c] xs))"
proof (induction xs)
  case (Cons s ss)
  then show ?case by (cases ss) simp_all
qed simp

text \<open>The identifiers that survive the comma-separated list.\<close>

definition plain_node_id :: "string \<Rightarrow> bool" where
  "plain_node_id n \<longleftrightarrow> n \<noteq> [] \<and> CHR '','' \<notin> set n \<and> strip n = n"

lemma node_id_list_join:
  assumes "xs \<noteq> []" and "\<forall>x\<in>set xs. plain_node_id x"
  shows "node_id_list (str_join '','' xs) = xs"
proof -
  have "split_max CHR '','' (length (str_join '','' xs)) (str_join '','' xs) = xs"
    using assms by (intro split_max_join length_join) (auto simp: plain_node_id_def)
  moreover have "filter (\<lambda>n. strip n \<noteq> []) xs = xs" using assms(2) by (auto simp: filter_id_conv plain_node_id_def)
  moreover have "map strip xs = xs" using assms(2) by (auto simp: plain_node_id_def intro: map_idI)
  ultimately show ?thesis by (simp add: node_id_list_def)
qed

lemma assignment_eq: "CHR ''='' \<notin> set k \<Longrightarrow> assignment (k @ ''='' @ v) = (k, v)"
  by (auto simp: assignment_def takeWhile_append dropWhile_append)

lemma assignments_eq:
  "\<forall>p\<in>set d. CHR ''='' \<notin> set (fst p) \<Longrightarrow> map assignment (map (\<lambda>(k, v). k @ ''='' @ v) d) = d"
  by (induction d) (auto simp: assignment_eq [unfolded append_Cons append_Nil])

lemma environ_opcua:
  "environ base (opcua_environment rp c) k = (case map_of (opcua_env rp c) k of Some v \<Rightarrow> Some v | None \<Rightarrow> base k)"
proof -
  have "\<forall>p\<in>set (opcua_env rp c). CHR ''='' \<notin> set (fst p)"
    by (auto simp: opcua_env_def Let_def split: option.splits)
  from assignments_eq [OF this] show ?thesis by (simp only: environ_def opcua_environment_def)
qed

text \<open>
  C21: The connector reads the options its pipeline was registered with. In the process Telegraf
  starts with the environment rendered for a pipeline, the configuration that is read holds the
  pipeline's identifier, endpoint, node identifiers, node names and publishing interval, and
  its connect timeout, or four seconds without one: if the endpoint is not empty, there are node
  identifiers, none of them is empty, has a comma or blanks around it, the JSON reader
  reads back the dict of names and \<open>repr\<close> of a float reads back. The other settings are those of the
  surrounding environment.
\<close>

theorem connector_reads_its_options:
  assumes ids: "endpoint (source_options c) \<noteq> []" "node_ids (source_options c) \<noteq> []"
      "\<forall>n\<in>set (node_ids (source_options c)). plain_node_id n"
    and json: "loads (json_object (node_names (source_options c))) = Inr names"
    and timeout: "case connect_timeout_s (source_options c) of
        Some t \<Rightarrow> float_of_str (py_str rp (VFloat t)) = Inr t
      | None \<Rightarrow> base ''OPCUA_CONNECT_TIMEOUT_S'' = None"
    and others: "float_of_str (getenv base ''OPCUA_CONNECTION_CHECK_S'' ''5'') = Inr check"
      "int_of_str (getenv base ''HEALTH_PORT'' ''0'') = Inr port"
      "float_of_str (getenv base ''OPCUA_STALENESS_THRESHOLD_S'' ''60'') = Inr threshold"
  shows "read_config loads (environ base (opcua_environment rp c)) =
    Inr \<lparr>cfg_pipeline_id = pipeline_id c, cfg_endpoint = endpoint (source_options c),
         cfg_node_ids = node_ids (source_options c), cfg_node_names = names,
         cfg_publishing_interval_ms = publishing_interval_ms (source_options c), cfg_connection_check_s = check,
         cfg_connect_timeout_s = (case connect_timeout_s (source_options c) of Some t \<Rightarrow> t | None \<Rightarrow> Fin 4),
         cfg_health_port = port, cfg_staleness_threshold_s = threshold\<rparr>"
proof -
  let ?env = "environ base (opcua_environment rp c)" and ?o = "source_options c"
  have g: "getenv ?env k d = (case map_of (opcua_env rp c) k of Some v \<Rightarrow> v | None \<Rightarrow> getenv base k d)" for k d
    by (simp add: getenv_def environ_opcua split: option.split)
  have four: "float_of_str ''4'' = Inr (Fin 4)" by code_simp
  have b: "connect_timeout_s ?o = None \<Longrightarrow> getenv base ''OPCUA_CONNECT_TIMEOUT_S'' d = d" for d
    using timeout by (simp add: getenv_def)
  have t: "float_of_str (getenv ?env ''OPCUA_CONNECT_TIMEOUT_S'' ''4'') =
      Inr (case connect_timeout_s ?o of Some t \<Rightarrow> t | None \<Rightarrow> Fin 4)"
    using timeout four by (cases "connect_timeout_s ?o") (simp_all add: g opcua_env_def Let_def b)
  have e: "getenv ?env ''PIPELINE_ID'' d = pipeline_id c" "getenv ?env ''OPCUA_ENDPOINT'' d = endpoint ?o"
    "getenv ?env ''OPCUA_NODE_IDS'' d = str_join '','' (node_ids ?o)"
    "getenv ?env ''OPCUA_NODE_NAMES_JSON'' d = json_object (node_names ?o)"
    "getenv ?env ''OPCUA_PUBLISHING_INTERVAL_MS'' d = str_of_int (publishing_interval_ms ?o)"
    "getenv ?env ''OPCUA_CONNECTION_CHECK_S'' d = getenv base ''OPCUA_CONNECTION_CHECK_S'' d"
    "getenv ?env ''HEALTH_PORT'' d = getenv base ''HEALTH_PORT'' d"
    "getenv ?env ''OPCUA_STALENESS_THRESHOLD_S'' d = getenv base ''OPCUA_STALENESS_THRESHOLD_S'' d" for d
    by (simp_all add: g opcua_env_def Let_def split: option.splits)
  have "json_object d \<noteq> []" for d by (simp add: json_object_def)
  with ids json others t show ?thesis
    by (simp add: read_config_def config_values_def Let_def e node_id_list_join int_of_str_of_int)
qed

text \<open>An identifier with a comma is read as two.\<close>

lemma comma_splits_a_node_id: "node_id_list (str_join '','' [''ns=2;s=a,b'']) = [''ns=2;s=a'', ''b'']"
  by code_simp

section \<open>What the emitter prints\<close>

text \<open>
  The reference: the notifications whose node can be read are numbered in their order, and
  those that make a record are printed.
\<close>

definition readable :: "notification list \<Rightarrow> (string \<times> notification) list" where
  "readable ns = concat (map (\<lambda>n. case nt_node_id n of Inl _ \<Rightarrow> [] | Inr i \<Rightarrow> [(i, n)]) ns)"

definition printed :: "'o emitter_env \<Rightarrow> string \<Rightarrow> pyval \<Rightarrow> int \<Rightarrow> notification list \<Rightarrow> (string \<times> rat) list" where
  "printed V pid names sequence ns =
     concat (map (\<lambda>(k, i, n). case event_line V pid names k i n of Inl _ \<Rightarrow> [] | Inr line \<Rightarrow> [(line, nt_monotonic n)])
       (zip [sequence + 1 .. sequence + int (length (readable ns))] (readable ns)))"

lemma readable_Cons: "readable (n # ns) = (case nt_node_id n of Inl _ \<Rightarrow> readable ns | Inr i \<Rightarrow> (i, n) # readable ns)"
  by (simp add: readable_def split: sum.split)

lemma printed_Cons:
  "printed V pid names q (n # ns) =
     (case nt_node_id n of
        Inl _ \<Rightarrow> printed V pid names q ns
      | Inr i \<Rightarrow> (case event_line V pid names (q + 1) i n of Inl _ \<Rightarrow> [] | Inr line \<Rightarrow> [(line, nt_monotonic n)])
          @ printed V pid names (q + 1) ns)"
proof (cases "nt_node_id n")
  case (Inr i)
  have "[q + 1 .. q + int (Suc (length (readable ns)))] = (q + 1) # [q + 1 + 1 .. q + 1 + int (length (readable ns))]"
    by (subst upto_rec1) (simp_all add: ac_simps)
  with Inr show ?thesis by (simp add: printed_def readable_Cons del: of_nat_Suc)
qed (simp add: printed_def readable_Cons)

text \<open>No line break inside a line.\<close>

lemma hex_digit_no_newline: "i < 16 \<Longrightarrow> hex_digit i \<noteq> newline"
proof -
  have "\<forall>i\<in>set [0..<16]. hex_digit i \<noteq> newline" by code_simp
  then show "i < 16 \<Longrightarrow> hex_digit i \<noteq> newline" by simp
qed

lemma json_char_no_newline: "newline \<notin> set (json_char c)"
proof (cases "map_of (map (\<lambda>(k, v). (v, k)) short_escapes) c")
  case None
  moreover have "(of_char c :: nat) div 16 < 16" using nat_of_char_less_256 [of c] by linarith
  moreover have "c \<noteq> newline \<or> (of_char c :: nat) = 10" by auto
  ultimately show ?thesis by (auto simp: json_char_def Let_def hex_digit_no_newline hex_digit_no_newline [THEN not_sym])
next
  case (Some k)
  then have "(k, c) \<in> set short_escapes" by (auto dest: map_of_SomeD)
  with Some show ?thesis by (auto simp: json_char_def Let_def short_escapes_def)
qed

lemma json_string_no_newline [simp]: "newline \<notin> set (json_string s)"
  by (auto simp: json_string_def json_char_no_newline)

lemma str_of_int_no_newline [simp]: "newline \<notin> set (str_of_int i)"
proof -
  have "newline \<notin> set decimal_digits" by (simp add: decimal_digits_def)
  then have "newline \<notin> set (str_of_nat n)" for n using set_str_of_nat [of n] by blast
  then show ?thesis by (simp add: str_of_int_def)
qed

lemma str_join_no_newline:
  "newline \<notin> set sep \<Longrightarrow> \<forall>s\<in>set ss. newline \<notin> set s \<Longrightarrow> newline \<notin> set (str_join sep ss)"
  by (induction sep ss rule: str_join.induct) auto

lemma json_text_no_newline: "\<forall>v. newline \<notin> set (rp v) \<Longrightarrow> newline \<notin> set (json_text rp v)"
proof (induction rp v rule: json_text.induct)
  case (10 rp vs)
  then have "\<forall>s\<in>set (map (json_text rp) vs). newline \<notin> set s" by simp
  then show ?case using str_join_no_newline [of "'', ''" "map (json_text rp) vs"] by simp
next
  case (11 rp d)
  let ?ss = "map (\<lambda>p. json_string (fst p) @ '': '' @ json_text rp (snd p)) d"
  have "\<forall>s\<in>set ?ss. newline \<notin> set s" using 11 by auto
  then show ?case using str_join_no_newline [of "'', ''" ?ss] by simp
qed simp_all

lemma event_line_no_newline:
  "\<forall>v. newline \<notin> set (ee_repr V v) \<Longrightarrow> event_line V pid names q i n = Inr line \<Longrightarrow> newline \<notin> set line"
  using json_text_no_newline [of "ee_repr V"]
  by (auto simp: event_line_def json_dumps_def split: sum.splits if_splits)

text \<open>Printing to a pipe that takes every line.\<close>

definition appends :: "string list emitter_env \<Rightarrow> bool" where
  "appends V \<longleftrightarrow> (\<forall>line out. ee_print V line out = (Inr (), out @ [line]))"

lemma notify_all_eq:
  assumes "appends V"
  shows "notify_all V ns e =
    (let ps = printed V (em_pipeline_id e) (em_node_names e) (em_sequence e) ns in
     e\<lparr>em_out := em_out e @ map fst ps, em_last_read := last (em_last_read e # map snd ps),
       em_sequence := em_sequence e + int (length (readable ns))\<rparr>)"
proof (induction ns arbitrary: e)
  case Nil
  then show ?case by (simp add: printed_def readable_def)
next
  case (Cons n ns)
  show ?case
  proof (cases "nt_node_id n")
    case (Inl x)
    then show ?thesis using Cons by (simp add: datachange_notification_def printed_Cons readable_Cons)
  next
    case (Inr i)
    then show ?thesis
      using Cons assms
      by (cases "event_line V (em_pipeline_id e) (em_node_names e) (em_sequence e + 1) i n")
        (auto simp: datachange_notification_def printed_Cons readable_Cons Let_def appends_def)
  qed
qed

text \<open>
  C22: What a stream of notifications prints. Whatever the notifications hold, and however many of them
  raise, the lines printed are those of the reference: the notifications whose node can be
  read are numbered from one in their order, and each that makes a serialisable record is
  printed with its number, on one line of its own. The last read is the time of the last line, or the start.
\<close>

theorem emitter_prints_the_reference:
  assumes "appends V" and "\<forall>v. newline \<notin> set (ee_repr V v)"
  shows "let e = notify_all V ns (new_emitter c out start);
      ps = printed V (cfg_pipeline_id c) (cfg_node_names c) 0 ns in
    em_out e = out @ map fst ps \<and> (\<forall>line\<in>set (map fst ps). newline \<notin> set line) \<and>
    em_last_read e = last (start # map snd ps) \<and> em_sequence e = int (length (readable ns))"
proof -
  have "\<forall>p\<in>set (printed V pid names 0 ns). newline \<notin> set (fst p)" for pid names
    using event_line_no_newline [OF assms(2)] by (force simp: printed_def split: sum.splits)
  then show ?thesis by (simp add: notify_all_eq [OF assms(1)] new_emitter_def Let_def)
qed

text \<open>
  The health endpoint follows the data. After any notifications, a probe is answered
  with 200 exactly when the last line was printed, or the process started, no longer ago than the threshold; and with
  503 otherwise. Notifications that print nothing do not count.
\<close>

lemma health_follows_the_data:
  assumes V: "appends V"
  shows "let e = notify_all V ns (new_emitter c out start);
      ps = printed V (cfg_pipeline_id c) (cfg_node_names c) 0 ns in
    hr_status (do_GET rp (Fin x) now e) = (if now - last (start # map snd ps) \<le> x then 200 else 503) \<and>
    (\<forall>n. em_out (datachange_notification V n e) = em_out e \<longrightarrow>
       hr_status (do_GET rp (Fin x) now (datachange_notification V n e)) = hr_status (do_GET rp (Fin x) now e))"
proof -
  have "em_last_read (datachange_notification V n e) = em_last_read e"
    if "em_out (datachange_notification V n e) = em_out e" for n e
    using that V by (auto simp: datachange_notification_def Let_def appends_def split: sum.splits)
  then show ?thesis
    by (simp add: notify_all_eq [OF V] new_emitter_def Let_def do_GET_def age_s_def)
qed

section \<open>A lost session ends the process\<close>

lemma check_loop_raises: "check_loop n S c = Some (r, c') \<Longrightarrow> \<exists>e. r = Inl e"
  by (induction n arbitrary: c) (auto split: prod.splits sum.splits)

lemma hang_up_returns: "\<exists>c'. hang_up S c = (Inr (), c')"
  by (cases "oc_disconnect S c"; cases "fst (oc_disconnect S c)") (simp_all add: hang_up_def io_simps)

lemma check_loop_ends:
  "(\<forall>i<k. \<exists>c'. oc_check S (((\<lambda>c. snd (oc_check S c)) ^^ i) c) = (Inr (), c')) \<Longrightarrow>
   oc_check S (((\<lambda>c. snd (oc_check S c)) ^^ k) c) = (Inl e, c1) \<Longrightarrow> k < n \<Longrightarrow> check_loop n S c = Some (Inl e, c1)"
proof (induction k arbitrary: c n)
  case 0
  then show ?case by (cases n) simp_all
next
  case (Suc k)
  then obtain m where n: "n = Suc m" by (cases n) auto
  obtain c' where c': "oc_check S c = (Inr (), c')" using Suc.prems(1) by fastforce
  have "\<exists>d. oc_check S (((\<lambda>c. snd (oc_check S c)) ^^ i) c') = (Inr (), d)" if "i < k" for i
    using Suc.prems(1) [rule_format, of "Suc i"] that c' by (simp add: funpow_Suc_right del: funpow.simps(2))
  moreover have "oc_check S (((\<lambda>c. snd (oc_check S c)) ^^ k) c') = (Inl e, c1)"
    using Suc.prems(2) c' by (simp add: funpow_Suc_right del: funpow.simps(2))
  ultimately show ?case using Suc.IH [of c' m] Suc.prems(3) n c' by simp
qed

text \<open>The session fails: it cannot be set up, or its \<open>k\<close>-th check is the first to raise.\<close>

definition session_fails :: "nat \<Rightarrow> 'c opcua_session \<Rightarrow> connector_config \<Rightarrow> 'c \<Rightarrow> bool" where
  "session_fails k S cfg c \<longleftrightarrow>
     (case oc_connect S c of
        (Inl _, _) \<Rightarrow> True
      | (Inr _, c1) \<Rightarrow>
          (case set_up S cfg c1 of
             (Inl _, _) \<Rightarrow> True
           | (Inr _, c2) \<Rightarrow>
               (\<forall>i<k. \<exists>c'. oc_check S (((\<lambda>c. snd (oc_check S c)) ^^ i) c2) = (Inr (), c')) \<and>
               (\<exists>e c'. oc_check S (((\<lambda>c. snd (oc_check S c)) ^^ k) c2) = (Inl e, c'))))"

text \<open>
  C24: The connector is never alive and silent after a failure, and never ends as if all were well. Whatever
  fails, connecting, binding the health port, subscribing or the \<open>k\<close>-th check of the session,
  the process ends with status 1, after at most \<open>k + 1\<close> checks and, if it had connected, after a
  disconnect; and no run ends with another status.
\<close>

theorem lost_session_ends_the_process:
  assumes fails: "session_fails k S cfg c" and n: "k < n"
  shows "\<exists>c'. connector_main n S cfg c = Some (1, c') \<and>
    (\<forall>m status d. connector_main m S cfg c = Some (status, d) \<longrightarrow> status = 1) \<and>
    (\<forall>c1. oc_connect S c = (Inr (), c1) \<longrightarrow> (\<exists>c3. c' = snd (oc_disconnect S c3)))"
proof -
  have one: "status = 1" if "connector_main m S cfg c = Some (status, d)" for m status d
    using that check_loop_raises [of m S] hang_up_returns [of S]
    by (auto simp: connector_main_def run_def finally_io_def split: prod.splits sum.splits option.splits)
  have hung: "\<exists>c'. finally_io (\<lambda>c. (Inl e, c)) (hang_up S) c3 = (Inl e :: unit result, c') \<and> c' = snd (oc_disconnect S c3)" for e c3
    by (cases "oc_disconnect S c3"; cases "fst (oc_disconnect S c3)") (simp_all add: hang_up_def io_simps)
  obtain r c1 where con: "oc_connect S c = (r, c1)" by fastforce
  show ?thesis
  proof (cases r)
    case (Inl e)
    with con one show ?thesis by (intro exI [of _ c1]) (auto simp: connector_main_def run_def)
  next
    case (Inr u)
    obtain x c2 where up: "set_up S cfg c1 = (x, c2)" by fastforce
    obtain e c3 where body: "(case set_up S cfg c1 of (Inl e, c2) \<Rightarrow> Some (Inl e, c2) | (Inr _, c2) \<Rightarrow> check_loop n S c2) =
        Some (Inl e, c3)"
      using fails con Inr up n check_loop_ends [of k S c2 _ _ n]
      by (cases x) (fastforce simp: session_fails_def)+
    obtain c' where f: "finally_io (\<lambda>c. (Inl e, c)) (hang_up S) c3 = (Inl e :: unit result, c')" "c' = snd (oc_disconnect S c3)"
      using hung by blast
    have "run n S cfg c = Some (Inl e, c')" unfolding run_def con Inr by (simp only: prod.case sum.case body option.case f(1))
    then have "connector_main n S cfg c = Some (1, c')" by (simp add: connector_main_def)
    with one f(2) show ?thesis by blast
  qed
qed

section \<open>Witnesses\<close>

text \<open>A JSON reader for dicts of strings, and an environment without variables.\<close>

definition string_dict_loads :: "string \<Rightarrow> pyval result" where
  "string_dict_loads s =
     (case read_string_object s of
        Some (d, []) \<Rightarrow> Inr (VDict (map (\<lambda>(k, v). (k, VStr v)) d))
      | _ \<Rightarrow> Inl (JSONDecodeError []))"

definition no_environment :: "string \<Rightarrow> string option" where
  "no_environment k = None"

lemma connector_reads_its_options_witness:
  "\<exists>cfg. read_config string_dict_loads (environ no_environment (opcua_environment (\<lambda>_. []) sample_config)) = Inr cfg \<and>
     cfg_node_ids cfg = [''ns=2;s=T''] \<and> cfg_endpoint cfg = ''opc.tcp://s'' \<and> cfg_staleness_threshold_s cfg = Fin 60"
proof -
  have o: "endpoint (source_options sample_config) = ''opc.tcp://s''" "node_ids (source_options sample_config) = [''ns=2;s=T'']"
    "node_names (source_options sample_config) = []" "connect_timeout_s (source_options sample_config) = None"
    by (simp_all add: sample_config_def)
  have ids: "\<forall>n\<in>set (node_ids (source_options sample_config)). plain_node_id n"
    using o by (simp add: plain_node_id_def strip_def py_space_def)
  have json: "string_dict_loads (json_object (node_names (source_options sample_config))) = Inr (VDict [])"
    using read_json_object [of "[]" "[]"] o by (simp add: string_dict_loads_def)
  have others: "float_of_str (getenv no_environment ''OPCUA_CONNECTION_CHECK_S'' ''5'') = Inr (Fin 5)"
    "int_of_str (getenv no_environment ''HEALTH_PORT'' ''0'') = Inr 0"
    "float_of_str (getenv no_environment ''OPCUA_STALENESS_THRESHOLD_S'' ''60'') = Inr (Fin 60)" by code_simp+
  have timeout: "case connect_timeout_s (source_options sample_config) of
      Some t \<Rightarrow> float_of_str (py_str (\<lambda>_. []) (VFloat t)) = Inr t
    | None \<Rightarrow> no_environment ''OPCUA_CONNECT_TIMEOUT_S'' = None" using o by (simp add: no_environment_def)
  show ?thesis
    using connector_reads_its_options [where rp = "\<lambda>_. []" and base = no_environment
        and c = sample_config and loads = string_dict_loads, OF _ _ ids json timeout others] o by simp
qed

definition sample_notification :: "pyval \<Rightarrow> rat \<Rightarrow> notification" where
  "sample_notification v t = \<lparr>nt_node_id = Inr ''ns=2;s=T'', nt_source_time = Some 0, nt_now = 0,
     nt_status = Some (True, False), nt_value = v, nt_monotonic = t\<rparr>"

definition sample_emitter_env :: "string list emitter_env" where
  "sample_emitter_env = \<lparr>ee_iso = (\<lambda>_. ''1970-01-01T00:00:00+00:00''), ee_repr = (\<lambda>_. ''1.5''),
     ee_print = (\<lambda>line out. (Inr (), out @ [line]))\<rparr>"

definition sample_connector_config :: connector_config where
  "sample_connector_config = \<lparr>cfg_pipeline_id = ''p1'', cfg_endpoint = ''opc.tcp://s'', cfg_node_ids = [''ns=2;s=T''],
     cfg_node_names = VDict [(''ns=2;s=T'', VStr ''Temp'')], cfg_publishing_interval_ms = 500,
     cfg_connection_check_s = Fin 5, cfg_connect_timeout_s = Fin 4, cfg_health_port = 0, cfg_staleness_threshold_s = Fin 60\<rparr>"

text \<open>A number, a timestamp, which is dropped, and a text with a line break.\<close>

definition sample_notifications :: "notification list" where
  "sample_notifications = [sample_notification (VInt 7) 1, sample_notification (VTime 0) 2, sample_notification (VStr [newline]) 3]"

lemma sample_appends: "appends sample_emitter_env"
  by (simp add: appends_def sample_emitter_env_def)

lemma emitter_prints_the_reference_witness:
  "em_sequence (notify_all sample_emitter_env sample_notifications (new_emitter sample_connector_config [] 0)) = 3 \<and>
   em_out (notify_all sample_emitter_env sample_notifications (new_emitter sample_connector_config [] 0)) =
     map fst (printed sample_emitter_env ''p1'' (VDict [(''ns=2;s=T'', VStr ''Temp'')]) 0 sample_notifications)"
proof -
  have "\<forall>v. newline \<notin> set (ee_repr sample_emitter_env v)" by (simp add: sample_emitter_env_def)
  moreover have "length (readable sample_notifications) = 3"
    by (simp add: readable_def sample_notifications_def sample_notification_def)
  ultimately show ?thesis
    using emitter_prints_the_reference [OF sample_appends, of sample_notifications sample_connector_config "[]" 0]
    by (simp add: Let_def sample_connector_config_def)
qed

text \<open>A session that answers as many checks as its state counts.\<close>

definition counting_session :: "nat opcua_session" where
  "counting_session = \<lparr>oc_connect = (\<lambda>c. (Inr (), c)), oc_serve = (\<lambda>_ c. (Inr (), c)),
     oc_create_subscription = (\<lambda>_ c. (Inr (), c)), oc_subscribe = (\<lambda>_ c. (Inr (), c)),
     oc_check = (\<lambda>c. if c = 0 then (Inl (ConnectionError ''lost''), c) else (Inr (), c - 1)),
     oc_disconnect = (\<lambda>c. (Inr (), c))\<rparr>"

lemma lost_session_ends_the_process_witness:
  "session_fails 1 counting_session sample_connector_config 1 \<and>
   (\<exists>c'. connector_main 2 counting_session sample_connector_config 1 = Some (1, c'))"
proof -
  have fails: "session_fails 1 counting_session sample_connector_config 1"
    by (simp add: session_fails_def counting_session_def set_up_def sample_connector_config_def io_simps)
  then show ?thesis using lost_session_ends_the_process [OF fails, of 2] by auto
qed

end
