(* ===== verification/Event_Path.thy ===== *)
theory Event_Path
  imports Opcua_Connector Sink
begin

text \<open>
  The way of one reading: the record of \<^verbatim>\<open>connectors/opcua/connector.py\<close>, Telegraf as
  \<^verbatim>\<open>telegraf/templates/opcua.conf.tmpl\<close> sets it up, and the row of \<^verbatim>\<open>consumer_pool/app/rows.py\<close>.
  Telegraf is not part of the repository: what it makes of a record is a parameter with its
  documented behaviour as laws. The theorem follows a reading from the notification to its cells.
\<close>

section \<open>Telegraf\<close>

text \<open>The settings of the template that decide what becomes of a key.\<close>

definition TAG_KEYS :: "string list" where
  "TAG_KEYS = [''pipeline_id'', ''sensor'', ''source'', ''quality'', ''node_id'']"

definition JSON_STRING_FIELDS :: "string list" where
  "JSON_STRING_FIELDS = [''value'']"

definition JSON_TIME_KEY :: string where
  "JSON_TIME_KEY = ''event_time''"

text \<open>
  The values Telegraf carries over: numbers that are doubles, and texts where the template asks for
  them; a null is dropped.
\<close>

fun carried :: "string \<Rightarrow> pyval \<Rightarrow> bool" where
  "carried k VNone = True"
| "carried k (VInt i) = (to_double (of_int i) = Fin (of_int i))"
| "carried k (VFloat (Fin x)) = (to_double x = Fin x)"
| "carried k (VStr s) = (k \<in> set JSON_STRING_FIELDS)"
| "carried k _ = False"

definition relayable :: "(int \<Rightarrow> string) \<Rightarrow> (string \<times> pyval) list \<Rightarrow> int \<Rightarrow> bool" where
  "relayable iso_text d t \<longleftrightarrow> distinct (map fst d) \<and> dict_get d JSON_TIME_KEY = Some (VStr (iso_text t)) \<and>
     (\<forall>(k, v)\<in>set d. if k \<in> set TAG_KEYS then \<exists>s. v = VStr s \<and> s \<noteq> []
        else k \<noteq> JSON_TIME_KEY \<longrightarrow> carried k v)"

text \<open>
  The number \<open>x\<close>, read back from a JSON text. Integers that a double holds exactly stay integers;
  a float without a fraction is written without a point.
\<close>

definition number :: "rat \<Rightarrow> pyval \<Rightarrow> bool" where
  "number x v \<longleftrightarrow> v = VFloat (Fin x) \<or> (\<exists>i. v = VInt i \<and> of_int i = x)"

fun field_of :: "pyval \<Rightarrow> pyval option \<Rightarrow> bool" where
  "field_of (VInt i) r = (\<exists>v. r = Some v \<and> number (of_int i) v \<and> (\<bar>i\<bar> \<le> 2 ^ 53 \<longrightarrow> v = VInt i))"
| "field_of (VFloat (Fin x)) r = (\<exists>v. r = Some v \<and> number x v)"
| "field_of (VStr s) r = (r = Some (VStr s))"
| "field_of v r = (r = None)"

text \<open>
  \<open>relay d\<close> is the message the pool reads for a line with the object \<open>d\<close>, and \<open>iso_text\<close> the text of
  an instant in microseconds, which \<open>json_time_format\<close> reads. The tag keys become tags, the time key
  the timestamp, in whole milliseconds, and every other key a field.
\<close>

locale event_relay =
  fixes relay :: "(string \<times> pyval) list \<Rightarrow> pyval" and iso_text :: "int \<Rightarrow> string"
  assumes relayed: "relayable iso_text d t \<Longrightarrow> \<exists>m tags fds. relay d = VDict m \<and>
    dict_get m ''tags'' = Some (VDict tags) \<and> dict_get m ''fields'' = Some (VDict fds) \<and>
    dict_get m ''timestamp'' = Some (VInt (t div 1000)) \<and>
    distinct (map fst fds) \<and> (\<forall>k. dict_get tags k = (if k \<in> set TAG_KEYS then dict_get d k else None)) \<and>
    (\<forall>k. if k \<in> set TAG_KEYS \<or> k = JSON_TIME_KEY then dict_get fds k = None
       else (case dict_get d k of None \<Rightarrow> dict_get fds k = None | Some v \<Rightarrow> field_of v (dict_get fds k)))"

section \<open>From the reading to its cells\<close>

text \<open>The instant a record is stamped with, in whole milliseconds.\<close>

definition stamp :: "notification \<Rightarrow> int" where
  "stamp n = (case nt_source_time n of Some t \<Rightarrow> t | None \<Rightarrow> nt_now n)"

definition plausible :: "int \<Rightarrow> int \<Rightarrow> bool" where
  "plausible now t \<longleftrightarrow> EARLIEST_PLAUSIBLE \<le> t div 1000 * 1000 \<and> t div 1000 < MS_EXACT \<and>
     t div 1000 * 1000 \<le> now + FUTURE_TOLERANCE_S * 10 ^ 6"

text \<open>The cells \<open>value\<close> and \<open>value_text\<close>.\<close>

fun value_cells :: "pyval \<Rightarrow> pyval \<times> pyval" where
  "value_cells (VInt i) = (VFloat (Fin (of_int i)), VNone)"
| "value_cells (VFloat f) = (VFloat f, VNone)"
| "value_cells (VStr s) = (VNone, VStr s)"
| "value_cells v = (VNone, VNone)"

lemma float_of_int_exact: "to_double (of_int i) = Fin (of_int i) \<Longrightarrow> float_of_int i = Inr (Fin (of_int i))"
  by (simp add: to_double_def float_of_int_def split: if_splits)

lemma split_value_number: "number x v \<Longrightarrow> to_double x = Fin x \<Longrightarrow> split_value rp v = Inr (VFloat (Fin x), VNone)"
  by (auto simp: number_def split_value_def float_of_int_exact)

lemma split_value_plain: "split_value rp VNone = Inr (VNone, VNone)" "split_value rp (VStr s) = Inr (VNone, VStr s)"
  by (simp_all add: split_value_def)

lemma split_value_carried:
  assumes "carried ''value'' v" and "field_of v r"
  shows "split_value rp (case r of None \<Rightarrow> VNone | Some v' \<Rightarrow> v') = Inr (value_cells v)"
proof -
  consider "v = VNone" | s where "v = VStr s" | i where "v = VInt i" "to_double (of_int i) = Fin (of_int i)"
    | x where "v = VFloat (Fin x)" "to_double x = Fin x"
    using assms(1) by (cases "(''value'', v)" rule: carried.cases) auto
  then show ?thesis
  proof cases
    case 3
    with assms(2) obtain u where "r = Some u" "number (of_int i) u" by auto
    with 3 split_value_number [of "of_int i" u rp] show ?thesis by simp
  next
    case 4
    with assms(2) obtain u where "r = Some u" "number x u" by auto
    with 4 split_value_number [of x u rp] show ?thesis by simp
  qed (use assms(2) in \<open>simp_all add: split_value_plain\<close>)
qed

text \<open>The quality of a status, and the row of a record for the default schema.\<close>

definition quality :: "bool \<Rightarrow> bool \<Rightarrow> string" where
  "quality good uncertain = (if good then ''good'' else if uncertain then ''uncertain'' else ''bad'')"

definition reading_row ::
  "string \<Rightarrow> string \<Rightarrow> int \<Rightarrow> string \<Rightarrow> notification \<Rightarrow> bool \<Rightarrow> bool \<Rightarrow> int \<Rightarrow> (string \<times> pyval) list" where
  "reading_row pid sensor q node_id n good uncertain ing =
     [(''event_time'', VTime (stamp n div 1000 * 1000)), (''pipeline_id'', VStr pid), (''source'', VStr ''opcua''),
      (''sensor'', VStr sensor),
      (''quality'', VStr (quality good uncertain)),
      (''node_id'', VStr node_id), (''sequence'', VInt q), (''value'', fst (value_cells (nt_value n))),
      (''value_text'', snd (value_cells (nt_value n))), (''ingested_at'', VTime ing)]"

lemma to_double_small: "\<bar>i\<bar> < 2 ^ 53 \<Longrightarrow> to_double (of_int i) = Fin (of_int i)"
proof -
  assume i: "\<bar>i\<bar> < 2 ^ 53"
  then have "(of_int \<bar>i\<bar> :: rat) < of_int (2 ^ 53)" by (simp only: of_int_less_iff)
  then have "\<bar>of_int i :: rat\<bar> < pow2 53" by (simp add: pow2_def)
  then have "\<not> overflows (of_int i)" by (rule overflows_small) simp_all
  with i show "to_double (of_int i) = Fin (of_int i)" by (simp add: to_double_def fl_of_int)
qed

lemma quality_nonempty: "quality good uncertain \<noteq> []"
  by (simp add: quality_def)

lemma event_record_eq:
  assumes "event_record iso_text pid names q node_id n = Inr (VDict d)" and "sensor_name names node_id = Inr sensor"
    and "nt_status n = Some (good, uncertain)"
  shows "d = [(''pipeline_id'', VStr pid), (''event_time'', VStr (iso_text (stamp n))), (''sequence'', VInt q),
      (''source'', VStr ''opcua''), (''sensor'', VStr sensor), (''node_id'', VStr node_id), (''value'', nt_value n),
      (''quality'', VStr (quality good uncertain))]"
  using assms(1) unfolding event_record_def assms(2,3) by (simp only: sum.case option.case prod.case quality_def stamp_def) simp

lemma record_relayable:
  assumes "event_record iso_text pid names q node_id n = Inr (VDict d)" and "sensor_name names node_id = Inr sensor"
    and "pid \<noteq> []" and "sensor \<noteq> []" and "node_id \<noteq> []" and "carried ''value'' (nt_value n)" and "\<bar>q\<bar> < 2 ^ 53"
  shows "relayable iso_text d (stamp n)"
proof -
  from assms(7) have q: "to_double (of_int q) = Fin (of_int q)" by (rule to_double_small)
  have "\<exists>good uncertain. nt_status n = Some (good, uncertain)"
    using assms(1,2) by (cases "nt_status n") (auto simp: event_record_def)
  then obtain good uncertain where "nt_status n = Some (good, uncertain)" by blast
  note d = event_record_eq [OF assms(1,2) this]
  show ?thesis
    using assms(3-6) q quality_nonempty [of good uncertain] unfolding d
    by (simp add: relayable_def dict_get_def JSON_TIME_KEY_def TAG_KEYS_def)
qed

lemma relayed_row:
  assumes relay: "event_relay relay iso_text"
    and rec: "event_record iso_text pid names q node_id n = Inr (VDict d)"
    and sensor: "sensor_name names node_id = Inr sensor" and status: "nt_status n = Some (good, uncertain)"
    and named: "pid \<noteq> []" "sensor \<noteq> []" "node_id \<noteq> []"
    and reading: "carried ''value'' (nt_value n)" "\<bar>q\<bar> < 2 ^ 53" "plausible now (stamp n)"
    and schema: "table_schema c = DEFAULT_TABLE_SCHEMA"
  shows "to_row rp now ing (relay d) c = Inr (reading_row pid sensor q node_id n good uncertain ing)"
proof -
  obtain m tags fds where m: "relay d = VDict m" "dict_get m ''tags'' = Some (VDict tags)"
    "dict_get m ''fields'' = Some (VDict fds)" "dict_get m ''timestamp'' = Some (VInt (stamp n div 1000))"
    and dist: "distinct (map fst fds)" and tags: "\<And>k. dict_get tags k = (if k \<in> set TAG_KEYS then dict_get d k else None)"
    and fds: "\<And>k. if k \<in> set TAG_KEYS \<or> k = JSON_TIME_KEY then dict_get fds k = None
       else (case dict_get d k of None \<Rightarrow> dict_get fds k = None | Some v \<Rightarrow> field_of v (dict_get fds k))"
    using event_relay.relayed [OF relay record_relayable [OF rec sensor named reading(1,2)]] by blast
  note d = event_record_eq [OF rec sensor status]
  have tag: "dict_get tags ''pipeline_id'' = Some (VStr pid)" "dict_get tags ''source'' = Some (VStr ''opcua'')"
    "dict_get tags ''sensor'' = Some (VStr sensor)" "dict_get tags ''node_id'' = Some (VStr node_id)"
    "dict_get tags ''quality'' = Some (VStr (quality good uncertain))"
    unfolding tags d by (simp_all add: TAG_KEYS_def dict_get_def)
  have no: "dict_get fds k = None" if "k \<in> set TAG_KEYS" for k using fds [of k] that by simp
  have fd: "dict_get fds ''sequence'' = Some (VInt q)" "field_of (nt_value n) (dict_get fds ''value'')"
    using fds [of "''sequence''"] fds [of "''value''"] reading(2) by (auto simp: TAG_KEYS_def JSON_TIME_KEY_def d dict_get_def)
  have t: "event_time now m = Inr (stamp n div 1000 * 1000)"
    using reading(3) by (subst event_time_ms [OF m(4)]) (auto simp: plausible_def EARLIEST_PLAUSIBLE_def)
  have empty: "tags \<noteq> []" "fds \<noteq> []" using tag(1) fd(1) by (auto simp: dict_get_def)
  have src: "get_or_empty m ''tags'' = VDict tags" "get_or_empty m ''fields'' = VDict fds"
    using empty by (simp_all add: get_or_empty_def m(2,3))
  have v: "split_value rp (case dict_get fds ''value'' of None \<Rightarrow> VNone | Some v \<Rightarrow> v) = Inr (value_cells (nt_value n))"
    by (rule split_value_carried [OF reading(1) fd(2)])
  let ?source = "row_source ing (stamp n div 1000 * 1000) (value_cells (nt_value n)) tags fds c"
  have "to_row rp now ing (relay d) c = Inr (build_row ?source DEFAULT_TABLE_SCHEMA)"
    by (simp add: to_row_def m(1) src t v schema)
  moreover have "dict_get ?source k = (case dict_get fds k of None \<Rightarrow> dict_get tags k | Some v \<Rightarrow> Some v)"
    if "k \<in> set [''source'', ''sensor'', ''quality'', ''node_id'', ''sequence'']" for k
    unfolding row_source_def dict_get_merge [OF dist, of tags k, symmetric] using that
    by (subst dict_get_merge, simp, auto simp: dict_get_def [of "_ # _"])
  then have "dict_get ?source ''source'' = Some (VStr ''opcua'')" "dict_get ?source ''sensor'' = Some (VStr sensor)"
    "dict_get ?source ''quality'' = Some (VStr (quality good uncertain))" "dict_get ?source ''node_id'' = Some (VStr node_id)"
    "dict_get ?source ''sequence'' = Some (VInt q)"
    using tag fd(1) no by (simp_all add: TAG_KEYS_def)
  moreover have "dict_get ?source ''pipeline_id'' = Some (VStr pid)"
    unfolding row_source_def using tag(1) by (subst dict_get_merge) (simp_all add: dict_get_def)
  ultimately show ?thesis
    by (simp add: build_row_def DEFAULT_TABLE_SCHEMA_def fill_column_def reading_row_def dict_get_row_source)
qed

text \<open>
  C11: A reading reaches its cells. Whenever the connector makes a record of a notification whose value is
  a null, a text, or a number that a double holds, with a source time from 2001 to a day ahead of
  the pool's clock, and Telegraf relays it as its template says, the pool converts the message, and the row of
  the default schema holds the reading: the instant in whole milliseconds, the pipeline, the
  sensor, the node, the quality and the sequence number as they were, and the value in the cell of its kind.
\<close>

theorem reading_reaches_its_row:
  assumes relay: "event_relay relay iso_text"
    and rec: "event_record iso_text pid names q node_id n = Inr (VDict d)"
    and sensor: "sensor_name names node_id = Inr sensor" and status: "nt_status n = Some (good, uncertain)"
    and named: "pid \<noteq> []" "sensor \<noteq> []" "node_id \<noteq> []"
    and reading: "carried ''value'' (nt_value n)" "\<bar>q\<bar> < 2 ^ 53" "plausible now (stamp n)"
    and schema: "table_schema c = DEFAULT_TABLE_SCHEMA"
  shows "to_row rp now ing (relay d) c = Inr (reading_row pid sensor q node_id n good uncertain ing)"
  by (rule relayed_row [OF assms])

text \<open>
  The theorem says nothing of a truth value, of a \<open>NaN\<close> or of a text anywhere but in \<open>value\<close>.
\<close>

lemma not_carried: "\<not> carried k (VBool b)" "\<not> carried k (VFloat NaN)" "\<not> carried ''unit'' (VStr s)"
  by (simp_all add: JSON_STRING_FIELDS_def)

section \<open>A batch of readings\<close>

text \<open>
  A record of the pool that holds a relayed reading, plausible from \<open>t0\<close> on; \<open>row now\<close> is its row
  when it is taken in at \<open>now\<close>.
\<close>

definition relayed_reading ::
  "((string \<times> pyval) list \<Rightarrow> pyval) \<Rightarrow> (int \<Rightarrow> string) \<Rightarrow> int \<Rightarrow> incoming_record \<Rightarrow> (int \<Rightarrow> (string \<times> pyval) list) \<Rightarrow> bool" where
  "relayed_reading relay iso_text t0 r row \<longleftrightarrow>
     (\<exists>pid names q node_id n d sensor good uncertain.
        event_record iso_text pid names q node_id n = Inr (VDict d) \<and> rec_value r = relay d \<and>
        sensor_name names node_id = Inr sensor \<and> nt_status n = Some (good, uncertain) \<and>
        pid \<noteq> [] \<and> sensor \<noteq> [] \<and> node_id \<noteq> [] \<and>
        carried ''value'' (nt_value n) \<and> \<bar>q\<bar> < 2 ^ 53 \<and> plausible t0 (stamp n) \<and>
        row = reading_row pid sensor q node_id n good uncertain)"

lemma plausible_later: "plausible t0 t \<Longrightarrow> t0 \<le> now \<Longrightarrow> plausible now t"
  by (simp add: plausible_def)

lemma relayed_reading_values:
  assumes "event_relay relay iso_text" and "relayed_reading relay iso_text t0 r row"
    and "table_schema c = DEFAULT_TABLE_SCHEMA" and "t0 \<le> now"
  shows "record_values SE now c r = Inr (map snd (row now))"
proof -
  obtain pid names q node_id n d sensor good uncertain where r:
    "event_record iso_text pid names q node_id n = Inr (VDict d)" "rec_value r = relay d"
    "sensor_name names node_id = Inr sensor" "nt_status n = Some (good, uncertain)" "pid \<noteq> []" "sensor \<noteq> []" "node_id \<noteq> []"
    "carried ''value'' (nt_value n)" "\<bar>q\<bar> < 2 ^ 53" "plausible t0 (stamp n)"
    "row = reading_row pid sensor q node_id n good uncertain"
    using assms(2) unfolding relayed_reading_def by blast
  have "to_row (py_repr SE) now now (rec_value r) c = Inr (row now)"
    unfolding r(2,11) by (rule relayed_row [OF assms(1) r(1,3,4,5,6,7,8,9) plausible_later [OF r(10) assms(4)] assms(3)])
  then show ?thesis
    unfolding record_values_def assms(3) r(11)
    by (simp add: reading_row_def DEFAULT_TABLE_SCHEMA_def dict_get_def)
qed


section \<open>A relay in memory\<close>

text \<open>Instants are written as their number of microseconds.\<close>

definition is_field :: "string \<times> pyval \<Rightarrow> bool" where
  "is_field p \<longleftrightarrow> fst p \<notin> set TAG_KEYS \<and> fst p \<noteq> JSON_TIME_KEY \<and> snd p \<noteq> VNone"

definition relay_memory :: "(string \<times> pyval) list \<Rightarrow> pyval" where
  "relay_memory d =
     (case dict_get d JSON_TIME_KEY of
        Some (VStr s) \<Rightarrow>
          (case int_of_str s of
             Inl _ \<Rightarrow> VNone
           | Inr t \<Rightarrow> VDict [(''fields'', VDict (filter is_field d)), (''name'', VStr ''pipeline.p1.events''),
               (''tags'', VDict (filter (\<lambda>p. fst p \<in> set TAG_KEYS) d)), (''timestamp'', VInt (t div 1000))])
      | _ \<Rightarrow> VNone)"

lemma dict_get_filter:
  "distinct (map fst d) \<Longrightarrow>
     dict_get (filter P d) k = (case dict_get d k of None \<Rightarrow> None | Some v \<Rightarrow> if P (k, v) then Some v else None)"
  unfolding dict_get_def by (induction d) (auto simp: map_of_eq_None_iff split: option.splits)

interpretation mem_relay: event_relay relay_memory str_of_int
proof (unfold_locales, goal_cases)
  case (1 d t)
  then have dist: "distinct (map fst d)" and time: "dict_get d JSON_TIME_KEY = Some (VStr (str_of_int t))"
    and vals: "\<And>k v. (k, v) \<in> set d \<Longrightarrow> k \<notin> set TAG_KEYS \<Longrightarrow> k \<noteq> JSON_TIME_KEY \<Longrightarrow> carried k v"
    unfolding relayable_def by (auto split: if_splits)
  let ?tags = "filter (\<lambda>p. fst p \<in> set TAG_KEYS) d" and ?fds = "filter is_field d"
  have field: "field_of v (dict_get ?fds k)"
    if "dict_get d k = Some v" "k \<notin> set TAG_KEYS" "k \<noteq> JSON_TIME_KEY" for k v
  proof -
    from that have "carried k v" by (intro vals) (auto simp: dict_get_def dest: map_of_SomeD)
    then show ?thesis
      using that by (cases "(k, v)" rule: carried.cases) (auto simp: dict_get_filter [OF dist] is_field_def number_def)
  qed
  show ?case
  proof (intro exI conjI allI)
    show "relay_memory d = VDict [(''fields'', VDict ?fds), (''name'', VStr ''pipeline.p1.events''),
        (''tags'', VDict ?tags), (''timestamp'', VInt (t div 1000))]"
      by (simp add: relay_memory_def time int_of_str_of_int)
    show "distinct (map fst ?fds)" by (rule distinct_map_filter [OF dist])
    show "dict_get ?tags k = (if k \<in> set TAG_KEYS then dict_get d k else None)" for k
      by (simp add: dict_get_filter [OF dist] split: option.split)
    show "if k \<in> set TAG_KEYS \<or> k = JSON_TIME_KEY then dict_get ?fds k = None
        else (case dict_get d k of None \<Rightarrow> dict_get ?fds k = None | Some v \<Rightarrow> field_of v (dict_get ?fds k))" for k
      using field [of k] by (auto simp: dict_get_filter [OF dist] is_field_def split: option.split)
  qed (simp_all add: dict_get_def)
qed

definition sample_reading :: notification where
  "sample_reading = \<lparr>nt_node_id = Inr ''ns=2;i=2'', nt_source_time = Some 1700000000123456, nt_now = 0,
     nt_status = Some (True, False), nt_value = VInt 7, nt_monotonic = 1\<rparr>"

definition sample_relayed :: incoming_record where
  "sample_relayed = \<lparr>rec_value = relay_memory
       [(''pipeline_id'', VStr ''p1''), (''event_time'', VStr (str_of_int 1700000000123456)), (''sequence'', VInt 5),
        (''source'', VStr ''opcua''), (''sensor'', VStr ''temp''), (''node_id'', VStr ''ns=2;i=2''), (''value'', VInt 7),
        (''quality'', VStr ''good'')],
     rec_topic = ''pipeline.p1.events'', rec_partition = 0, rec_offset = 0, rec_raw = []\<rparr>"

lemma sample_sensor: "sensor_name (VDict [(''ns=2;i=2'', VStr ''Temp'')]) ''ns=2;i=2'' = Inr ''temp''"
  by code_simp

lemma sample_carried: "carried ''value'' (nt_value sample_reading)"
  using to_double_small [of 7] by (simp add: sample_reading_def)

lemma sample_plausible: "plausible 1700000001000000 (stamp sample_reading)"
  by (simp add: plausible_def stamp_def sample_reading_def EARLIEST_PLAUSIBLE_def MS_EXACT_def FUTURE_TOLERANCE_S_def)

lemma reading_reaches_its_row_witness:
  "\<exists>d. event_record str_of_int ''p1'' (VDict [(''ns=2;i=2'', VStr ''Temp'')]) 5 ''ns=2;i=2'' sample_reading = Inr (VDict d) \<and>
     to_row (\<lambda>_. []) 1700000001000000 0 (relay_memory d) (sample_config\<lparr>table_schema := DEFAULT_TABLE_SCHEMA\<rparr>) =
       Inr (reading_row ''p1'' ''temp'' 5 ''ns=2;i=2'' sample_reading True False 0)"
proof -
  obtain d where d: "event_record str_of_int ''p1'' (VDict [(''ns=2;i=2'', VStr ''Temp'')]) 5 ''ns=2;i=2'' sample_reading = Inr (VDict d)"
    unfolding event_record_def sample_sensor by (simp add: sample_reading_def)
  show ?thesis
    using reading_reaches_its_row [OF mem_relay.event_relay_axioms d sample_sensor, of True False 1700000001000000
        "sample_config\<lparr>table_schema := DEFAULT_TABLE_SCHEMA\<rparr>" "\<lambda>_. []" 0]
      sample_carried sample_plausible d
    by (simp add: sample_reading_def)
qed

lemma sample_relayed_reading:
  "relayed_reading relay_memory str_of_int 1700000001000000 sample_relayed
     (reading_row ''p1'' ''temp'' 5 ''ns=2;i=2'' sample_reading True False)"
proof -
  let ?d = "[(''pipeline_id'', VStr ''p1''), (''event_time'', VStr (str_of_int 1700000000123456)), (''sequence'', VInt 5),
      (''source'', VStr ''opcua''), (''sensor'', VStr ''temp''), (''node_id'', VStr ''ns=2;i=2''), (''value'', VInt 7),
      (''quality'', VStr ''good'')]"
  have "event_record str_of_int ''p1'' (VDict [(''ns=2;i=2'', VStr ''Temp'')]) 5 ''ns=2;i=2'' sample_reading = Inr (VDict ?d)"
    unfolding event_record_def sample_sensor by (simp add: sample_reading_def)
  moreover have "rec_value sample_relayed = relay_memory ?d" "nt_status sample_reading = Some (True, False)"
    by (simp_all add: sample_relayed_def sample_reading_def)
  moreover have "\<bar>5 :: int\<bar> < 2 ^ 53" "''p1'' \<noteq> []" "''temp'' \<noteq> []" "''ns=2;i=2'' \<noteq> []" by simp_all
  ultimately show ?thesis
    using sample_sensor sample_carried sample_plausible unfolding relayed_reading_def by blast
qed


end
