(* ===== verification/Simulation.thy ===== *)
theory Simulation
  imports Opcua_Connector
begin

text \<open>
  \<^verbatim>\<open>connectors/opcua/mock_server.py\<close>: the OPC UA server that stands for a plant in development and
  in the tests. It registers five nodes, then writes simulated values twice a second, until it is
  told to freeze. The lemmas fix the identifiers of the nodes, what is written and when, how the
  simulation ends, and that a frozen one is found out by the connector's health answer.
\<close>

section \<open>The server\<close>

text \<open>Key, display name, initial value and unit of a node.\<close>

definition NODE_SCHEMA :: "(string \<times> string \<times> pyval \<times> string) list" where
  "NODE_SCHEMA =
     [(''Temperature'', ''Temperature'', VFloat (Fin 25), ''C''),
      (''Pressure'', ''Pressure'', VFloat (Fin (fl (1013 / 10))), ''bar''),
      (''Vibration'', ''Vibration'', VFloat (Fin (fl (5 / 100))), ''mm/s''),
      (''FlowRate'', ''FlowRate'', VFloat (Fin 120), ''m3/h''),
      (''MachineStatus'', ''MachineStatus'', VStr ''RUNNING'', '''')]"

definition STATUSES :: "string list" where
  "STATUSES = [''RUNNING'', ''IDLE'', ''MAINTENANCE'', ''ERROR'']"

record mock_server =
  ms_endpoint :: string
  ms_status_every :: int
  ms_freeze_after_s :: pyfloat

definition new_server :: "string \<Rightarrow> int \<Rightarrow> int \<Rightarrow> pyfloat \<Rightarrow> mock_server" where
  "new_server host port status_every freeze_after_s =
     \<lparr>ms_endpoint = ''opc.tcp://'' @ host @ '':'' @ str_of_int port @ ''/stratahub/server/'',
      ms_status_every = status_every, ms_freeze_after_s = freeze_after_s\<rparr>"

text \<open>The process: the four variables, in the order in which they are read.\<close>

definition server_main :: "(string \<Rightarrow> string option) \<Rightarrow> mock_server result" where
  "server_main env =
     (case int_of_str (getenv env ''OPCUA_SERVER_PORT'' ''4840'') of Inl e \<Rightarrow> Inl e | Inr port \<Rightarrow>
      case int_of_str (getenv env ''OPCUA_STATUS_EVERY'' ''50'') of Inl e \<Rightarrow> Inl e | Inr status_every \<Rightarrow>
      case float_of_str (getenv env ''OPCUA_FREEZE_AFTER_S'' ''0'') of Inl e \<Rightarrow> Inl e | Inr freeze \<Rightarrow>
        Inr (new_server (getenv env ''OPCUA_SERVER_HOST'' ''0.0.0.0'') port status_every freeze))"

section \<open>The nodes\<close>

text \<open>What is used of the server library: a namespace, an object, and variables below it, as node identifiers.\<close>

record 'a opcua_server =
  as_register_namespace :: "string \<Rightarrow> ('a, int) io"
  as_add_object :: "int \<Rightarrow> string \<Rightarrow> ('a, string) io"
  as_add_variable :: "string \<Rightarrow> int \<Rightarrow> string \<Rightarrow> pyval \<Rightarrow> ('a, string) io"
  as_set_writable :: "string \<Rightarrow> ('a, unit) io"

fun add_nodes ::
  "'a opcua_server \<Rightarrow> int \<Rightarrow> string \<Rightarrow> (string \<times> string \<times> pyval \<times> string) list \<Rightarrow> ('a, (string \<times> string) list) io" where
  "add_nodes A idx plant [] = ret_io []"
| "add_nodes A idx plant ((key, display_name, initial, u) # specs) =
     bind_io (as_add_variable A plant idx display_name initial) (\<lambda>node.
     bind_io (as_set_writable A node) (\<lambda>_.
     bind_io (add_nodes A idx plant specs) (\<lambda>nodes. ret_io ((key, node) # nodes))))"

definition server_nodes :: "'a opcua_server \<Rightarrow> ('a, (string \<times> string) list) io" where
  "server_nodes A =
     bind_io (as_register_namespace A ''http://stratahub.io/opcua'') (\<lambda>idx.
     bind_io (as_add_object A idx ''PlantFloor'') (\<lambda>plant. add_nodes A idx plant NODE_SCHEMA))"

section \<open>The simulated values\<close>

text \<open>
  A round of the loop: whether the server still runs and the loop's clock when they are looked at,
  the draws of \<open>random.gauss\<close> in their order, already scaled, and the index \<open>random.choice\<close> takes. The
  functions of \<open>math\<close> are those of the platform.
\<close>

record sim_round =
  sr_running :: bool
  sr_clock :: rat
  sr_gauss :: "rat \<times> rat \<times> rat \<times> rat"
  sr_choice :: nat

record platform =
  m_sin :: "rat \<Rightarrow> rat"
  m_cos :: "rat \<Rightarrow> rat"

text \<open>\<open>round(x, n)\<close> of a double, and the rounded operations.\<close>

definition py_round :: "rat \<Rightarrow> nat \<Rightarrow> rat" where
  "py_round x n = fl (of_int (round_half_even (x * 10 ^ n)) / 10 ^ n)"

definition fadd :: "rat \<Rightarrow> rat \<Rightarrow> rat" where "fadd x y = fl (x + y)"

definition fmul :: "rat \<Rightarrow> rat \<Rightarrow> rat" where "fmul x y = fl (x * y)"

definition updates :: "platform \<Rightarrow> int \<Rightarrow> rat \<times> rat \<times> rat \<times> rat \<Rightarrow> (string \<times> pyval) list" where
  "updates M t g =
     (case g of (g1, g2, g3, g4) \<Rightarrow>
       [(''Temperature'', VFloat (Fin (py_round
           (fadd (fadd 25 (fmul 10 (m_sin M (fmul (of_int t) (fl (1 / 10)))))) g1) 2))),
        (''Pressure'', VFloat (Fin (py_round
           (fadd (fadd (fl (1013 / 10)) (fmul 5 (m_cos M (fmul (of_int t) (fl (5 / 100)))))) g2) 3))),
        (''Vibration'', VFloat (Fin (py_round \<bar>fadd (fl (5 / 100)) g3\<bar> 4))),
        (''FlowRate'', VFloat (Fin (py_round
           (fadd (fadd 120 (fmul 20 (m_sin M (fmul (of_int t) (fl (7 / 100)))))) g4) 2)))])"

text \<open>Python's \<open>%\<close>, which raises for zero.\<close>

definition py_mod :: "int \<Rightarrow> int \<Rightarrow> int result" where
  "py_mod a b = (if b = 0 then Inl (OtherError ''ZeroDivisionError'' ''integer modulo by zero'') else Inr (a mod b))"

definition frozen :: "mock_server \<Rightarrow> rat \<Rightarrow> rat \<Rightarrow> bool" where
  "frozen S started now \<longleftrightarrow> ms_freeze_after_s S \<noteq> Fin 0 \<and> \<not> float_le (now - started) (ms_freeze_after_s S) \<and>
     ms_freeze_after_s S \<noteq> NaN"

text \<open>
  \<open>_simulate\<close>: what is written, with the clock of its round, and how it ended. \<open>Going\<close> is a simulation
  that has not ended after the rounds of the list.
\<close>

datatype sim_end = Going | Stopped | Frozen | Failed exn

fun simulate ::
  "platform \<Rightarrow> mock_server \<Rightarrow> rat \<Rightarrow> int \<Rightarrow> sim_round list \<Rightarrow> (rat \<times> string \<times> pyval) list \<times> sim_end" where
  "simulate M S started t [] = ([], Going)"
| "simulate M S started t (r # rs) =
     (if \<not> sr_running r then ([], Stopped)
      else if frozen S started (sr_clock r) then ([], Frozen)
      else
        let ws = map (Pair (sr_clock r)) (updates M (t + 1) (sr_gauss r)) in
        (case py_mod (t + 1) (ms_status_every S) of
           Inl e \<Rightarrow> (ws, Failed e)
         | Inr m \<Rightarrow>
             (case simulate M S started (t + 1) rs of
                (more_ws, e) \<Rightarrow>
                  (ws @ (if m = 0 then [(sr_clock r, ''MachineStatus'', VStr (STATUSES ! sr_choice r))] else []) @ more_ws, e))))"

section \<open>Which nodes\<close>

text \<open>
  Node identifiers are handed out one after the other, in the first namespace a server registers, the second of
  the address space.
\<close>

definition numeric_node_id :: "int \<Rightarrow> nat \<Rightarrow> string" where
  "numeric_node_id idx n = ''ns='' @ str_of_int idx @ '';i='' @ str_of_nat n"

locale numbering_server =
  fixes A :: "'a opcua_server" and next_id :: "'a \<Rightarrow> nat" and fresh :: "'a \<Rightarrow> bool"
  assumes registered: "fresh a \<Longrightarrow> \<exists>a'. as_register_namespace A uri a = (Inr 2, a') \<and> next_id a' = 1"
    and object_added: "\<exists>a'. as_add_object A idx name a = (Inr (numeric_node_id idx (next_id a)), a') \<and> next_id a' = next_id a + 1"
    and variable_added: "\<exists>a'. as_add_variable A plant idx name v a = (Inr (numeric_node_id idx (next_id a)), a') \<and>
      next_id a' = next_id a + 1"
    and made_writable: "\<exists>a'. as_set_writable A node a = (Inr (), a') \<and> next_id a' = next_id a"
begin

lemma add_nodes_ids:
  "\<exists>a'. add_nodes A idx plant specs a =
     (Inr (zip (map fst specs) (map (numeric_node_id idx) [next_id a ..< next_id a + length specs])), a')"
proof (induction specs arbitrary: a)
  case Nil
  then show ?case by (simp add: ret_io_def)
next
  case (Cons spec specs)
  obtain key display v u where spec: "spec = (key, display, v, u)" by (cases spec)
  obtain a1 where a1: "as_add_variable A plant idx display v a = (Inr (numeric_node_id idx (next_id a)), a1)"
    "next_id a1 = next_id a + 1" using variable_added by blast
  obtain a2 where a2: "as_set_writable A (numeric_node_id idx (next_id a)) a1 = (Inr (), a2)" "next_id a2 = next_id a1"
    using made_writable by blast
  obtain a3 where "add_nodes A idx plant specs a2 =
      (Inr (zip (map fst specs) (map (numeric_node_id idx) [next_id a2 ..< next_id a2 + length specs])), a3)"
    using Cons.IH by blast
  with a1 a2 show ?case
    by (simp add: spec bind_io_def ret_io_def upt_conv_Cons del: upt_Suc)
qed

lemma nodes_registered:
  assumes "fresh a"
  shows "\<exists>a'. server_nodes A a = (Inr (zip (map fst NODE_SCHEMA) (map (numeric_node_id 2) [2 ..< 7])), a')"
proof -
  obtain a1 where a1: "as_register_namespace A ''http://stratahub.io/opcua'' a = (Inr 2, a1)" "next_id a1 = 1"
    using registered [OF assms] by blast
  obtain a2 where a2: "as_add_object A 2 ''PlantFloor'' a1 = (Inr (numeric_node_id 2 (next_id a1)), a2)"
    "next_id a2 = next_id a1 + 1" using object_added by blast
  have "length NODE_SCHEMA = 5" by (simp add: NODE_SCHEMA_def)
  with a1 a2 add_nodes_ids [of 2 "numeric_node_id 2 (next_id a1)" NODE_SCHEMA a2] show ?thesis
    by (simp add: server_nodes_def bind_io_def numeral_2_eq_2 del: upt_Suc list.map(2) upt_rec_numeral)
qed

end

text \<open>A server that counts.\<close>

definition counting_server :: "nat opcua_server" where
  "counting_server =
     \<lparr>as_register_namespace = (\<lambda>u n. (Inr 2, n)), as_add_object = (\<lambda>idx name n. (Inr (numeric_node_id idx n), n + 1)),
      as_add_variable = (\<lambda>plant idx name v n. (Inr (numeric_node_id idx n), n + 1)), as_set_writable = (\<lambda>node n. (Inr (), n))\<rparr>"

interpretation count_server: numbering_server counting_server id "\<lambda>n. n = 1"
  by unfold_locales (simp_all add: counting_server_def)

lemma simulated_nodes:
  "\<exists>n. server_nodes counting_server 1 =
     (Inr [(''Temperature'', ''ns=2;i=2''), (''Pressure'', ''ns=2;i=3''), (''Vibration'', ''ns=2;i=4''),
       (''FlowRate'', ''ns=2;i=5''), (''MachineStatus'', ''ns=2;i=6'')], n)"
proof -
  have "zip (map fst NODE_SCHEMA) (map (numeric_node_id 2) [2 ..< 7]) =
      [(''Temperature'', ''ns=2;i=2''), (''Pressure'', ''ns=2;i=3''), (''Vibration'', ''ns=2;i=4''),
       (''FlowRate'', ''ns=2;i=5''), (''MachineStatus'', ''ns=2;i=6'')]" by code_simp
  with count_server.nodes_registered [of 1] show ?thesis by simp
qed

section \<open>What is written, and when\<close>

text \<open>Rounds in which the server runs and is not frozen.\<close>

definition lively :: "mock_server \<Rightarrow> rat \<Rightarrow> sim_round list \<Rightarrow> bool" where
  "lively S started rs \<longleftrightarrow> list_all (\<lambda>r. sr_running r \<and> \<not> frozen S started (sr_clock r)) rs"

text \<open>
  Each such round writes the four numeric nodes, and the status in every \<open>status_every\<close>-th round.
\<close>

definition statuses :: "(rat \<times> string \<times> pyval) list \<Rightarrow> (rat \<times> string \<times> pyval) list" where
  "statuses ws = filter (\<lambda>w. fst (snd w) = ''MachineStatus'') ws"

lemma statuses_append: "statuses (vs @ ws) = statuses vs @ statuses ws"
  by (simp add: statuses_def)

lemma statuses_updates: "statuses (map (Pair c) (updates M t g)) = []" "length (updates M t g) = 4"
  by (cases g, simp add: statuses_def updates_def)+

lemma simulation_runs:
  assumes "lively S started rs" and "ms_status_every S = int (Suc k)"
  shows "\<exists>ws. simulate M S started (int t) rs = (ws, Going) \<and>
    length ws = 4 * length rs + length (statuses ws) \<and> length (statuses ws) = (t + length rs) div Suc k - t div Suc k"
  using assms(1)
proof (induction rs arbitrary: t)
  case (Cons r rs)
  then have r: "sr_running r" "\<not> frozen S started (sr_clock r)" "lively S started rs" by (simp_all add: lively_def)
  obtain ws where ws: "simulate M S started (int (Suc t)) rs = (ws, Going)" "length ws = 4 * length rs + length (statuses ws)"
    "length (statuses ws) = (Suc t + length rs) div Suc k - Suc t div Suc k"
    using Cons.IH [OF r(3), of "Suc t"] by blast
  have m: "py_mod (int t + 1) (ms_status_every S) = Inr (int (Suc t mod Suc k))"
    unfolding py_mod_def assms(2) by (simp add: zmod_int algebra_simps)
  let ?s = "if Suc t mod Suc k = 0 then [(sr_clock r, ''MachineStatus'', VStr (STATUSES ! sr_choice r))] else []"
  let ?ws = "map (Pair (sr_clock r)) (updates M (int t + 1) (sr_gauss r)) @ ?s @ ws"
  have sim: "simulate M S started (int t) (r # rs) = (?ws, Going)"
    using r ws(1) m by (simp add: ac_simps)
  have st: "statuses ?ws = ?s @ statuses ws" by (simp only: statuses_append statuses_updates append_Nil) (simp add: statuses_def)
  have "Suc t div Suc k = t div Suc k + (if Suc t mod Suc k = 0 then 1 else 0)" by (simp add: div_Suc)
  moreover have "Suc t div Suc k \<le> (Suc t + length rs) div Suc k" by (intro div_le_mono) simp
  ultimately have "length (statuses ?ws) = (t + length (r # rs)) div Suc k - t div Suc k"
    unfolding st using ws(3) by (simp del: div_Suc)
  moreover have "length ?ws = 4 * length (r # rs) + length (statuses ?ws)"
    unfolding st using ws(2) by (simp add: statuses_updates)
  ultimately show ?case using sim by blast
qed (simp add: statuses_def)

lemma writes_before_freeze:
  "w \<in> set (fst (simulate M S started t rs)) \<Longrightarrow> \<not> frozen S started (fst w)"
proof (induction rs arbitrary: t)
  case (Cons r rs)
  then show ?case
    by (auto simp: Let_def split: if_splits sum.splits prod.splits)
      (metis fst_conv)+
qed simp

text \<open>
  A period of zero, which the variable \<open>OPCUA_STATUS_EVERY\<close> may set, ends the task in its first round; nothing
  looks at it, and the server goes on serving the values of that round.
\<close>

lemma zero_period_ends_the_simulation:
  assumes "ms_status_every S = 0" and "lively S started (r # rs)"
  shows "simulate M S started t (r # rs) = (map (Pair (sr_clock r)) (updates M (t + 1) (sr_gauss r)),
    Failed (OtherError ''ZeroDivisionError'' ''integer modulo by zero''))"
  using assms by (simp add: lively_def py_mod_def)

text \<open>What the simulation serves can be listed in the connector's environment.\<close>

lemma simulated_nodes_are_plain: "node_id_list (str_join '','' (map (numeric_node_id 2) [2 ..< 7])) = map (numeric_node_id 2) [2 ..< 7]"
  by code_simp

section \<open>A frozen source is found out\<close>

text \<open>
  C23: The gap the health answer closes. Take a simulation told to freeze after \<open>f\<close> seconds, and a connector
  that prints a line for each notification, no later than \<open>delay\<close> seconds after the write it tells of. However many
  rounds the simulation runs and whatever the notifications hold, a probe later than
  \<open>f + delay\<close> and the threshold after the start of the simulation is answered with 503, although the session
  is open and every check of it succeeds; if the connector was started before.
\<close>

theorem frozen_source_turns_stale:
  assumes V: "appends V" and f: "ms_freeze_after_s S = Fin f" "f \<noteq> 0"
    and told: "\<forall>n\<in>set ns. \<exists>w\<in>set (fst (simulate M S started 0 rounds)). nt_monotonic n \<le> fst w + delay"
    and start: "start \<le> started + f + delay" and late: "started + f + delay + x < now"
  shows "hr_status (do_GET rp (Fin x) now (notify_all V ns (new_emitter c out start))) = 503"
proof -
  have notified: "nt_monotonic n \<le> started + f + delay" if n: "n \<in> set ns" for n
  proof -
    obtain w where w: "w \<in> set (fst (simulate M S started 0 rounds))" "nt_monotonic n \<le> fst w + delay"
      using told n by blast
    from writes_before_freeze [OF w(1)] f have "fst w - started \<le> f" by (simp add: frozen_def)
    with w(2) show ?thesis by linarith
  qed
  let ?ps = "printed V (cfg_pipeline_id c) (cfg_node_names c) 0 ns"
  have "snd p \<le> started + f + delay" if "p \<in> set ?ps" for p
  proof -
    from that obtain k i n where "(i, n) \<in> set (readable ns)" "snd p = nt_monotonic n"
      by (auto simp: printed_def dest!: set_zip_rightD split: sum.splits)
    moreover from this have "n \<in> set ns" by (auto simp: readable_def split: sum.splits)
    ultimately show ?thesis using notified by simp
  qed
  with start have "\<forall>y\<in>set (start # map snd ?ps). y \<le> started + f + delay" by auto
  moreover have "last (start # map snd ?ps) \<in> set (start # map snd ?ps)" by (rule last_in_set) simp
  ultimately have "last (start # map snd ?ps) \<le> started + f + delay" by blast
  with late have "\<not> now - last (start # map snd ?ps) \<le> x" by linarith
  then show ?thesis
    by (simp add: notify_all_eq [OF V] new_emitter_def Let_def do_GET_def age_s_def)
qed

definition sample_server :: mock_server where
  "sample_server = new_server ''127.0.0.1'' 4841 50 (Fin 3)"

definition sample_rounds :: "sim_round list" where
  "sample_rounds = map (\<lambda>c. \<lparr>sr_running = True, sr_clock = c, sr_gauss = (0, 0, 0, 0), sr_choice = 0\<rparr>) [10, 12, 14]"

text \<open>Two rounds are written, at ten and twelve seconds; in the third the server is frozen.\<close>

lemma frozen_source_turns_stale_witness:
  "snd (simulate \<lparr>m_sin = (\<lambda>_. 0), m_cos = (\<lambda>_. 1)\<rparr> sample_server 10 0 sample_rounds) = Frozen \<and>
   hr_status (do_GET (\<lambda>_. []) (Fin 60) 75 (notify_all sample_emitter_env [sample_notification (VInt 7) (25 / 2)]
     (new_emitter sample_connector_config [] 11))) = 503"
proof -
  let ?M = "\<lparr>m_sin = (\<lambda>_. 0), m_cos = (\<lambda>_. 1)\<rparr>"
  have s: "ms_freeze_after_s sample_server = Fin 3" "ms_status_every sample_server = 50"
    by (simp_all add: sample_server_def new_server_def)
  have sim: "simulate ?M sample_server 10 0 sample_rounds =
      (map (Pair 10) (updates ?M 1 (0, 0, 0, 0)) @ map (Pair 12) (updates ?M 2 (0, 0, 0, 0)), Frozen)"
    by (simp add: sample_rounds_def frozen_def s py_mod_def)
  have "\<forall>n\<in>set [sample_notification (VInt 7) (25 / 2)].
      \<exists>w\<in>set (fst (simulate ?M sample_server 10 0 sample_rounds)). nt_monotonic n \<le> fst w + 1"
    unfolding sim by (simp add: sample_notification_def updates_def)
  from frozen_source_turns_stale [OF sample_appends s(1) _ this, of 11 60 75 "\<lambda>_. []" sample_connector_config "[]"] sim
  show ?thesis by simp
qed

end
