(* ===== verification/Spec2Isabelle.thy ===== *)
theory Spec2Isabelle
  imports Consumer_Pool Rebalance Singleton Docker_Runtime Api_Lifecycle Event_Path Simulation
begin

text \<open>
  A verification development of a live data platform: pipelines are registered with a task
  manager, a producer per pipeline (Telegraf with a connector) publishes events to a Kafka topic,
  and a pool of consumers writes the topics to ClickHouse. Redis holds the configuration and the
  state of every pipeline. The code is Python; every path below is under \<^verbatim>\<open>src/\<close>, with
  \<open>common\<close> for \<^verbatim>\<open>services/task_manager/common/app_common\<close>.

  \<^bold>\<open>How a call is modelled.\<close> A function that may raise and changes the world is a HOL function from
  a world to a result and a world (\<open>io\<close> in \<open>Prelude\<close>); the world is returned on the raising branches
  too. Exceptions are the values of \<open>exn\<close>. Coroutines are sequences of such calls; where the
  interleaving of two processes matters (the leader lock, rebalances) the steps are separate
  and a step relation or an explicit sequence orders them. Integers are Python's, without bound;
  floats are rationals with the three special values.

  \<^bold>\<open>The theories, in the order of their imports.\<close>

  \<^item> \<open>Prelude\<close>: exceptions, the combinators and the string operations of Python that are used.
  \<^item> \<open>Py_Values\<close>: JSON and Python values, truth value testing, \<open>str\<close>, dictionaries.
  \<^item> \<open>Ch_Naming\<close> (\<^verbatim>\<open>common/ch_naming.py\<close>, \<^verbatim>\<open>common/ch_schema.py\<close>): table names and DDL text. The
    name function meets its specification and is injective for user ids without underscores.
  \<^item> \<open>Models\<close> (\<^verbatim>\<open>common/models.py\<close>, \<^verbatim>\<open>common/sources.py\<close>): the records, enumerations and validators.
  \<^item> \<open>Redis_Store\<close> (\<^verbatim>\<open>common/redis_keys.py\<close>): the keys, and Redis as the locale \<open>redis_store\<close>, with
    the in-memory client of the repository's tests as an instance.
  \<^item> \<open>Pipeline_Repo\<close> (\<^verbatim>\<open>common/redis_repo.py\<close>): the repository. What is created reads back, an update changes
    one state, collection numbers only grow along any run of calls.
  \<^item> \<open>Rows\<close>, \<open>ClickHouse_Manager\<close>, \<open>Sink\<close> (\<^verbatim>\<open>services/consumer_pool/app/rows.py\<close>,
    \<^verbatim>\<open>clickhouse_manager.py\<close>, \<^verbatim>\<open>sink.py\<close>): one event becomes a typed row or a record error; a
    ClickHouse call is retried with a bounded budget; a batch is written, isolated row by row
    when it is refused, and every event is accounted for as a row or as a dead letter.
  \<^item> \<open>Consumer_Pool\<close>, \<open>Rebalance\<close> (\<^verbatim>\<open>services/consumer_pool/app/main.py\<close>): one round of fetching, writing and
    committing; an offset is committed after its batch is written, in the generation it
    was fetched in.
  \<^item> \<open>Leader_Lock\<close> (\<^verbatim>\<open>common/leader_lock.py\<close>): acquiring, renewing and releasing the lease as a step
    relation over any number of instances. It refines an abstract election; at most one instance leads
    while renewals keep up.
  \<^item> \<open>Templates\<close>, \<open>Telegraf_Config\<close> (\<^verbatim>\<open>common/sources.py\<close>, \<^verbatim>\<open>common/telegraf_config.py\<close>): template substitution, the producer's
    configuration and its environment.
  \<^item> \<open>Runtime\<close> (\<^verbatim>\<open>common/config.py\<close>, \<^verbatim>\<open>common/runtime/base.py\<close>): the settings, the adapter that starts and stops
    producers, and its contract, the locale \<open>runtime_contract\<close>.
  \<^item> \<open>Docker_Runtime\<close>, \<open>Kubernetes_Runtime\<close> (\<^verbatim>\<open>common/runtime/\<close>): the two adapters, over a Docker
    daemon and a Kubernetes API that keep the laws of \<open>docker_daemon\<close> and \<open>kubernetes_cluster\<close>; each is
    shown to keep the contract.
  \<^item> \<open>Provisioning\<close> (\<^verbatim>\<open>task_manager/app/provisioning.py\<close>): the topic and the table of a pipeline, and the wait for its drain.
  \<^item> \<open>Task_Manager\<close> (\<^verbatim>\<open>task_manager/app/main.py\<close>): the handlers of the REST API, as \<open>tm_env\<close> (what a process
    is configured with) and \<open>tm_world\<close> (Redis, the runtime, Kafka and ClickHouse).
  \<^item> \<open>Controller\<close>, \<open>Watchdog\<close> (\<^verbatim>\<open>controller/app/main.py\<close>, \<^verbatim>\<open>watchdog/app/main.py\<close>): the two singletons that
    act on the stored state, over the same world. One pass of the controller settles every pipeline;
    a check restarts exactly the pipelines it should.
  \<^item> \<open>Singleton\<close> (the \<open>run\<close> functions of the two): instances that wait for the lock, work and release it,
    with the tasks they queue. In timely runs one instance decides; what the lock does not cover
    is exhibited, and an action that a shutdown interrupts strands its pipeline.
  \<^item> \<open>Folder_Watcher\<close> (\<^verbatim>\<open>task_manager/app/folder_watcher.py\<close>, \<^verbatim>\<open>pipeline_definition.py\<close>): definition
    files, over a file system that keeps the laws of \<open>file_store\<close>. No file is lost; a valid
    definition is registered and provisioned once.
  \<^item> \<open>Watcher_Loop\<close> (the same file): the observer thread with its fallback, the startup scan and the
    supervision, over a package that keeps the laws of \<open>observer_library\<close>. No observer is left
    running; a restart does not scan.
  \<^item> \<open>Opcua_Connector\<close> (\<^verbatim>\<open>connectors/opcua/connector.py\<close>): the process that turns notifications into
    lines. It reads back the environment that \<open>Telegraf_Config\<close> renders, prints what a
    reference prints, and ends with an error when its session does.

  \<^item> \<open>Api_Lifecycle\<close> (\<^verbatim>\<open>task_manager/app/main.py\<close>): the process around the handlers, from its start-up to
    its shutdown, and the health endpoint.
  \<^item> \<open>Event_Path\<close> (\<^verbatim>\<open>connectors/opcua/connector.py\<close>, \<^verbatim>\<open>telegraf/templates/opcua.conf.tmpl\<close>, \<^verbatim>\<open>rows.py\<close>): a reading
    from the notification, over a relay that keeps the laws of \<open>event_relay\<close>, to the cells of its row; and a
    batch of readings is written whole.
  \<^item> \<open>Simulation\<close> (\<^verbatim>\<open>connectors/opcua/mock_server.py\<close>): the simulated plant, its nodes over a library that keeps the
    laws of \<open>numbering_server\<close>, what it writes, and that the connector's health answer finds it out when it freezes.

  \<^bold>\<open>How the parts meet.\<close> The lemmas about the handlers, the controller and the watchdog use only the laws of
  \<open>redis_store\<close> and \<open>runtime_contract\<close>; what they say of a producer therefore holds over Docker
  and over Kubernetes. \<open>has_record\<close> and \<open>only_state\<close> (\<open>Task_Manager\<close>) say what Redis holds
  for a pipeline and that nothing else changed, and \<open>set_state_found\<close>, \<open>called_then_saved\<close> and
  \<open>runtime_step_cases\<close> carry the proofs of every operation that saves, calls the runtime and saves again.

  \<^bold>\<open>Bounds.\<close> Loops that end are structural or recurse on what is left (the attempts of a ClickHouse call, six
  by default). The wait for a drain reads the offsets once a second against a deadline; its model
  takes a bound on the readings, and \<open>wait_for_drain_ends\<close> shows that a bound above the timeout is never
  reached, so that the thirty-one readings of \<open>delete_pipeline_outcome\<close> are enough for the thirty seconds of a delete.
  The reconcile loop does not end, its model is one pass; the watchdog's loop takes what its stop flag shows
  in each round, and the loop of the folder watcher what happens in each second until it is cancelled. The
  connector's model takes a bound on the checks of the session and answers \<open>None\<close> while the session
  is up; \<open>lost_session_ends_the_process\<close> shows which bound is enough. A free file name is found
  within one more try than the directory has names (\<open>free_number_is_free\<close>).

  \<^bold>\<open>What is a parameter.\<close> Redis, Kafka, ClickHouse, Docker and the Kubernetes API are records of the calls the
  code makes with the laws it relies on as the assumptions of a locale, each interpreted on an
  implementation in memory; the texts of floats, JSON reading, YAML, random draws, the sine and the clock are arguments. What Telegraf makes of a
  line is a parameter too, with what its documentation says of the template's settings.

  \<^bold>\<open>Not modelled.\<close> Logging, metrics, signal handling, the set-up of FastAPI and asyncio tasks, the
  pydantic library itself, Airflow DAGs, and the libraries of the OPC UA client and server. The
  settings are records with their defaults; that pydantic reads them from the environment is
  not modelled.
\<close>

text \<open>
  The settings of the two sides are separate, and by default name the same consumer group, whose
  offsets a delete waits for, and the same database, in which the tables are created.
\<close>

lemma default_settings_agree:
  "group_id default_pool_settings = consumer_group_id default_settings \<and>
   pool_clickhouse_database default_pool_settings = clickhouse_database default_settings \<and>
   pool_clickhouse_port default_pool_settings = clickhouse_port default_settings"
  by (simp add: default_pool_settings_def default_settings_def)

end
